(* ===== verification/Go_Prelude.thy ===== *)
theory Go_Prelude imports Main "HOL-Library.Word" "HOL-Library.AList" begin

text \<open>
  The part of Go the other theories share: fixed-width integers, strings as byte lists with
  the functions of package \<open>strings\<close> the source calls, maps as association lists with
  distinct keys, channels, and the generic facts about them.  A Go map has no iteration
  order; a theory that ranges over a map takes the order as an argument or states its
  result up to the set of keys.  Two interfaces live here because every stateful component
  uses them: \<open>invariant_system\<close> (an invariant kept by every step holds in every
  reachable state) and \<open>defaulting\<close> (filling in defaults is idempotent).
\<close>

section \<open>Machine integers\<close>

type_synonym u32 = "32 word"
type_synonym u64 = "64 word"
type_synonym i32 = "32 word"

named_theorems go_simps \<open>unfolding rules of the small Go library functions\<close>
named_theorems inv_intros \<open>preservation of component invariants\<close>

section \<open>Strings\<close>

definition has_prefix :: "string \<Rightarrow> string \<Rightarrow> bool" where
  "has_prefix s p = (take (length p) s = p)"

fun index_of :: "string \<Rightarrow> string \<Rightarrow> nat option" where
  "index_of [] p = (if p = [] then Some 0 else None)"
| "index_of (c # cs) p =
     (if has_prefix (c # cs) p then Some 0 else map_option Suc (index_of cs p))"

definition contains :: "string \<Rightarrow> string \<Rightarrow> bool" where
  "contains s p = (index_of s p \<noteq> None)"

text \<open>\<open>strings.Cut\<close>: the parts around the first separator, and whether there is one.\<close>

definition cut :: "string \<Rightarrow> string \<Rightarrow> string \<times> string \<times> bool" where
  "cut s sep = (case index_of s sep of
      None \<Rightarrow> (s, [], False)
    | Some i \<Rightarrow> (take i s, drop (i + length sep) s, True))"

text \<open>\<open>strings.LastIndex\<close> of a one-byte pattern.\<close>

fun last_index :: "string \<Rightarrow> char \<Rightarrow> nat option" where
  "last_index [] c = None"
| "last_index (x # xs) c =
     (case last_index xs c of Some i \<Rightarrow> Some (Suc i) | None \<Rightarrow> if x = c then Some 0 else None)"

text \<open>\<open>strings.Split\<close> by a one-byte separator: never the empty list.\<close>

fun split_on :: "char \<Rightarrow> string \<Rightarrow> string list" where
  "split_on sep [] = [[]]"
| "split_on sep (c # cs) =
     (if c = sep then [] # split_on sep cs
      else (case split_on sep cs of [] \<Rightarrow> [[c]] | w # ws \<Rightarrow> (c # w) # ws))"

text \<open>
  The encodings of the runes \<open>unicode.IsSpace\<close> accepts, which \<open>strings.TrimSpace\<close>
  removes at both ends: the ASCII ones, U+0085, U+00A0, U+1680, U+2000 to U+200A, U+2028,
  U+2029, U+202F, U+205F and U+3000.
\<close>

definition space_runes :: "string list" where
  "space_runes =
     [[CHR 0x09], [CHR 0x0A], [CHR 0x0B], [CHR 0x0C], [CHR 0x0D], [CHR 0x20],
      [CHR 0xC2, CHR 0x85], [CHR 0xC2, CHR 0xA0], [CHR 0xE1, CHR 0x9A, CHR 0x80],
      [CHR 0xE2, CHR 0x80, CHR 0x80], [CHR 0xE2, CHR 0x80, CHR 0x81],
      [CHR 0xE2, CHR 0x80, CHR 0x82], [CHR 0xE2, CHR 0x80, CHR 0x83],
      [CHR 0xE2, CHR 0x80, CHR 0x84], [CHR 0xE2, CHR 0x80, CHR 0x85],
      [CHR 0xE2, CHR 0x80, CHR 0x86], [CHR 0xE2, CHR 0x80, CHR 0x87],
      [CHR 0xE2, CHR 0x80, CHR 0x88], [CHR 0xE2, CHR 0x80, CHR 0x89],
      [CHR 0xE2, CHR 0x80, CHR 0x8A], [CHR 0xE2, CHR 0x80, CHR 0xA8],
      [CHR 0xE2, CHR 0x80, CHR 0xA9], [CHR 0xE2, CHR 0x80, CHR 0xAF],
      [CHR 0xE2, CHR 0x81, CHR 0x9F], [CHR 0xE3, CHR 0x80, CHR 0x80]]"

definition leading_space :: "string list \<Rightarrow> string \<Rightarrow> nat" where
  "leading_space sps s = (case find (has_prefix s) sps of None \<Rightarrow> 0 | Some p \<Rightarrow> length p)"

function trim_left :: "string list \<Rightarrow> string \<Rightarrow> string" where
  "trim_left sps s =
     (if s = [] \<or> leading_space sps s = 0 then s
      else trim_left sps (drop (leading_space sps s) s))"
  by pat_completeness auto
termination
  by (relation "measure (\<lambda>(sps, s). length s)") auto

declare trim_left.simps [simp del]

definition trim_space :: "string \<Rightarrow> string" where
  "trim_space s =
     rev (trim_left (map rev space_runes) (rev (trim_left space_runes s)))"

section \<open>UTF-8\<close>

text \<open>
  \<open>utf8_width s\<close> is the length of the valid encoding at the front of \<open>s\<close>
  (\<open>utf8.DecodeRune\<close>), \<open>None\<close> where the first byte starts none: the shortest
  form only, no surrogates, nothing above U+10FFFF.
\<close>

definition byte :: "char \<Rightarrow> nat" where
  "byte c = of_char c"

definition cont :: "char \<Rightarrow> bool" where
  "cont c = (0x80 \<le> byte c \<and> byte c \<le> 0xBF)"

fun utf8_width :: "string \<Rightarrow> nat option" where
  "utf8_width [] = None"
| "utf8_width (a # s) =
     (if byte a < 0x80 then Some 1
      else if 0xC2 \<le> byte a \<and> byte a \<le> 0xDF then
        (case s of b # _ \<Rightarrow> if cont b then Some 2 else None | _ \<Rightarrow> None)
      else if 0xE0 \<le> byte a \<and> byte a \<le> 0xEF then
        (case s of b # c # _ \<Rightarrow>
           if cont b \<and> cont c \<and> (byte a = 0xE0 \<longrightarrow> 0xA0 \<le> byte b)
              \<and> (byte a = 0xED \<longrightarrow> byte b \<le> 0x9F)
           then Some 3 else None
         | _ \<Rightarrow> None)
      else if 0xF0 \<le> byte a \<and> byte a \<le> 0xF4 then
        (case s of b # c # d # _ \<Rightarrow>
           if cont b \<and> cont c \<and> cont d \<and> (byte a = 0xF0 \<longrightarrow> 0x90 \<le> byte b)
              \<and> (byte a = 0xF4 \<longrightarrow> byte b \<le> 0x8F)
           then Some 4 else None
         | _ \<Rightarrow> None)
      else None)"

lemma utf8_width_pos: "utf8_width s = Some n \<Longrightarrow> 0 < n"
  by (cases s) (auto split: if_splits list.splits)

lemma utf8_width_le: "utf8_width s = Some n \<Longrightarrow> n \<le> length s"
  by (cases s) (auto split: if_splits list.splits)

lemma utf8_width_ascii: "byte c < 128 \<Longrightarrow> utf8_width (c # cs) = Some 1"
  by simp

declare utf8_width.simps(2) [simp del]

text \<open>\<open>utf8.Valid\<close>.\<close>

function utf8_valid :: "string \<Rightarrow> bool" where
  "utf8_valid s =
     (if s = [] then True
      else (case utf8_width s of None \<Rightarrow> False | Some n \<Rightarrow> utf8_valid (drop n s)))"
  by pat_completeness auto
termination
  by (relation "measure length") (auto dest: utf8_width_pos)

declare utf8_valid.simps [simp del]

definition lower_char :: "char \<Rightarrow> char" where
  "lower_char c = (if 0x41 \<le> byte c \<and> byte c \<le> 0x5A then char_of (byte c + 0x20) else c)"

text \<open>
  \<open>strings.ToLower\<close>: ASCII letters are lowered; so are the runes whose lower case has an
  encoding of another length (\<open>lower_resized\<close>, among them U+0130 to \<open>i\<close> and U+212A
  to \<open>k\<close>, the two whose lower case is ASCII); a byte that is no valid encoding becomes the
  three bytes of U+FFFD.  The remaining runes keep their length, and the source only looks for
  ASCII text in the result, so they are left alone.
\<close>

definition lower_resized :: "(string \<times> string) list" where
  "lower_resized =
     [([CHR 0xC4, CHR 0xB0], [CHR 0x69]),
      ([CHR 0xC8, CHR 0xBA], [CHR 0xE2, CHR 0xB1, CHR 0xA5]),
      ([CHR 0xC8, CHR 0xBE], [CHR 0xE2, CHR 0xB1, CHR 0xA6]),
      ([CHR 0xE1, CHR 0xBA, CHR 0x9E], [CHR 0xC3, CHR 0x9F]),
      ([CHR 0xE2, CHR 0x84, CHR 0xA6], [CHR 0xCF, CHR 0x89]),
      ([CHR 0xE2, CHR 0x84, CHR 0xAA], [CHR 0x6B]),
      ([CHR 0xE2, CHR 0x84, CHR 0xAB], [CHR 0xC3, CHR 0xA5]),
      ([CHR 0xE2, CHR 0xB1, CHR 0xA2], [CHR 0xC9, CHR 0xAB]),
      ([CHR 0xE2, CHR 0xB1, CHR 0xA4], [CHR 0xC9, CHR 0xBD]),
      ([CHR 0xE2, CHR 0xB1, CHR 0xAD], [CHR 0xC9, CHR 0x91]),
      ([CHR 0xE2, CHR 0xB1, CHR 0xAE], [CHR 0xC9, CHR 0xB1]),
      ([CHR 0xE2, CHR 0xB1, CHR 0xAF], [CHR 0xC9, CHR 0x90]),
      ([CHR 0xE2, CHR 0xB1, CHR 0xB0], [CHR 0xC9, CHR 0x92]),
      ([CHR 0xE2, CHR 0xB1, CHR 0xBE], [CHR 0xC8, CHR 0xBF]),
      ([CHR 0xE2, CHR 0xB1, CHR 0xBF], [CHR 0xC9, CHR 0x80]),
      ([CHR 0xEA, CHR 0x9E, CHR 0x8D], [CHR 0xC9, CHR 0xA5]),
      ([CHR 0xEA, CHR 0x9E, CHR 0xAA], [CHR 0xC9, CHR 0xA6]),
      ([CHR 0xEA, CHR 0x9E, CHR 0xAB], [CHR 0xC9, CHR 0x9C]),
      ([CHR 0xEA, CHR 0x9E, CHR 0xAC], [CHR 0xC9, CHR 0xA1]),
      ([CHR 0xEA, CHR 0x9E, CHR 0xAD], [CHR 0xC9, CHR 0xAC]),
      ([CHR 0xEA, CHR 0x9E, CHR 0xAE], [CHR 0xC9, CHR 0xAA]),
      ([CHR 0xEA, CHR 0x9E, CHR 0xB0], [CHR 0xCA, CHR 0x9E]),
      ([CHR 0xEA, CHR 0x9E, CHR 0xB1], [CHR 0xCA, CHR 0x87]),
      ([CHR 0xEA, CHR 0x9E, CHR 0xB2], [CHR 0xCA, CHR 0x9D]),
      ([CHR 0xEA, CHR 0x9F, CHR 0x85], [CHR 0xCA, CHR 0x82])]"

definition lower_rune :: "string \<Rightarrow> string" where
  "lower_rune r = (case map_of lower_resized r of Some l \<Rightarrow> l | None \<Rightarrow> map lower_char r)"

function to_lower :: "string \<Rightarrow> string" where
  "to_lower s =
     (if s = [] then []
      else (case utf8_width s of
              None \<Rightarrow> [CHR 0xEF, CHR 0xBF, CHR 0xBD] @ to_lower (tl s)
            | Some n \<Rightarrow> lower_rune (take n s) @ to_lower (drop n s)))"
  by pat_completeness auto
termination
  by (relation "measure length") (auto dest: utf8_width_pos)

declare to_lower.simps [simp del]

text \<open>\<open>%d\<close>.\<close>

fun show_nat :: "nat \<Rightarrow> string" where
  "show_nat n =
     (if n < 10 then [char_of (48 + n)] else show_nat (n div 10) @ [char_of (48 + n mod 10)])"

declare show_nat.simps [simp del]

definition show_int :: "int \<Rightarrow> string" where
  "show_int i = (if i < 0 then CHR ''-'' # show_nat (nat (- i)) else show_nat (nat i))"

section \<open>Facts about strings\<close>

lemma has_prefix_Nil [simp]: "has_prefix s []"
  by (simp add: has_prefix_def)

lemma has_prefix_Cons [simp]: "has_prefix (c # s) (d # p) \<longleftrightarrow> c = d \<and> has_prefix s p"
  by (auto simp: has_prefix_def)

lemma has_prefix_empty [simp]: "has_prefix [] p \<longleftrightarrow> p = []"
  by (auto simp: has_prefix_def)

lemma has_prefix_append [simp]: "has_prefix (p @ s) p"
  by (simp add: has_prefix_def)

lemma has_prefixD: "has_prefix s p \<Longrightarrow> \<exists>r. s = p @ r"
  by (metis append_take_drop_id has_prefix_def)

lemma has_prefix_iff: "has_prefix s p \<longleftrightarrow> (\<exists>r. s = p @ r)"
  by (auto dest: has_prefixD)

lemma index_of_Some:
  "index_of s p = Some i \<Longrightarrow> i + length p \<le> length s \<and> s = take i s @ p @ drop (i + length p) s"
proof (induction s p arbitrary: i rule: index_of.induct)
  case (1 p)
  then show ?case by (auto split: if_splits)
next
  case (2 c cs p)
  show ?case
  proof (cases "has_prefix (c # cs) p")
    case True
    then obtain r where "c # cs = p @ r" by (auto dest: has_prefixD)
    moreover from this have "length p \<le> length (c # cs)" by simp
    moreover from True "2.prems" have "i = 0" by simp
    ultimately show ?thesis by simp
  next
    case False
    with "2.prems" obtain j where "index_of cs p = Some j" "i = Suc j" by auto
    with "2.IH" False show ?thesis by auto
  qed
qed

lemma index_of_None: "index_of s p = None \<Longrightarrow> s \<noteq> a @ p @ b"
proof (induction s p arbitrary: a rule: index_of.induct)
  case (1 p)
  then show ?case by (auto split: if_splits)
next
  case (2 c cs p)
  from "2.prems" have np: "\<not> has_prefix (c # cs) p" and none: "index_of cs p = None"
    by (auto split: if_splits)
  show ?case
  proof (cases a)
    case Nil
    with np show ?thesis by (auto simp: has_prefix_iff)
  next
    case (Cons x xs)
    with "2.IH" [OF np none, of xs] show ?thesis by auto
  qed
qed

lemma contains_iff: "contains s p \<longleftrightarrow> (\<exists>a b. s = a @ p @ b)"
proof
  assume "contains s p"
  then obtain i where "index_of s p = Some i" by (auto simp: contains_def)
  then have "s = take i s @ p @ drop (i + length p) s" by (rule index_of_Some [THEN conjunct2])
  then show "\<exists>a b. s = a @ p @ b" by blast
next
  assume "\<exists>a b. s = a @ p @ b"
  then show "contains s p" by (metis contains_def index_of_None)
qed

lemma split_on_neq_Nil [simp]: "split_on sep s \<noteq> []"
  by (cases s) (auto split: list.splits)

lemma split_on_no_sep: "w \<in> set (split_on sep s) \<Longrightarrow> sep \<notin> set w"
  by (induction s arbitrary: w) (auto split: if_splits list.splits)

lemma last_index_Some:
  "last_index s c = Some i \<Longrightarrow> i < length s \<and> s ! i = c \<and> c \<notin> set (drop (Suc i) s)"
proof (induction s arbitrary: i)
  case (Cons x xs)
  have none: "c \<notin> set xs" if "last_index xs c = None" for xs
    using that by (induction xs) (auto split: option.splits if_splits)
  from Cons show ?case by (auto split: option.splits if_splits dest: none)
qed simp

lemma last_index_None: "last_index s c = None \<longleftrightarrow> c \<notin> set s"
  by (induction s) (auto split: option.splits)

lemma last_index_append: "c \<notin> set b \<Longrightarrow> last_index (a @ c # b) c = Some (length a)"
  by (induction a) (simp_all add: last_index_None split: option.splits)

lemma index_of_single: "c \<notin> set a \<Longrightarrow> index_of (a @ c # b) [c] = Some (length a)"
  by (induction a) auto

lemma cut_single: "c \<notin> set a \<Longrightarrow> cut (a @ c # b) [c] = (a, b, True)"
  by (simp add: cut_def index_of_single)

lemma cut_found:
  assumes "cut s [c] = (a, b, True)"
  shows "s = a @ c # b"
proof -
  from assms obtain i where i: "index_of s [c] = Some i"
    by (auto simp: cut_def split: option.splits)
  with assms have "a = take i s" "b = drop (i + 1) s" by (auto simp: cut_def)
  with index_of_Some [OF i] show ?thesis by simp
qed

lemma index_of_single_None: "index_of s [c] = None \<longleftrightarrow> c \<notin> set s"
  by (induction s) auto

lemma index_of_single_first: "index_of s [c] = Some i \<Longrightarrow> c \<notin> set (take i s)"
  by (induction s arbitrary: i) (auto split: if_splits)

section \<open>Maps\<close>

type_synonym ('k, 'v) gomap = "('k \<times> 'v) list"

abbreviation keys :: "('k, 'v) gomap \<Rightarrow> 'k list" where
  "keys m \<equiv> map fst m"

abbreviation gomap_ok :: "('k, 'v) gomap \<Rightarrow> bool" where
  "gomap_ok m \<equiv> distinct (keys m)"

lemma gomap_ok_update [simp, intro]: "gomap_ok m \<Longrightarrow> gomap_ok (AList.update k v m)"
  by (rule distinct_update)

lemma gomap_ok_delete [simp, intro]: "gomap_ok m \<Longrightarrow> gomap_ok (AList.delete k m)"
  by (rule distinct_delete)

lemma map_of_update [simp]: "map_of (AList.update k v m) = (map_of m)(k \<mapsto> v)"
  by (rule update_conv')

lemma map_of_delete [simp]: "map_of (AList.delete k m) = (map_of m)(k := None)"
  by (rule delete_conv')

lemma set_keys_update [simp]: "set (keys (AList.update k v m)) = insert k (set (keys m))"
  by (simp add: update_keys insert_absorb del: set_map)

lemma set_keys_delete [simp]: "set (keys (AList.delete k m)) = set (keys m) - {k}"
  by (auto simp: delete_keys)

lemma map_of_in_keys: "map_of m k = Some v \<Longrightarrow> k \<in> set (keys m)"
  by (force dest: map_of_SomeD)

lemma map_of_keys_None: "map_of m k = None \<longleftrightarrow> k \<notin> set (keys m)"
  by (simp add: map_of_eq_None_iff)

text \<open>Lookups are kept as lookups: the invariants speak of \<open>map_of\<close>.\<close>

declare map_of_eq_Some_iff [simp del] Some_eq_map_of_iff [simp del]

text \<open>Sums over a map's values, for the counters.\<close>

lemma sum_update_new:
  fixes f :: "'v \<Rightarrow> 'n :: comm_monoid_add"
  assumes "map_of m k = None"
  shows "sum_list (map (f \<circ> snd) (AList.update k v m)) = sum_list (map (f \<circ> snd) m) + f v"
  using assms by (induction m) (auto simp: ac_simps split: if_splits)

lemma sum_update_old:
  fixes f :: "'v \<Rightarrow> 'n :: ab_group_add"
  assumes "map_of m k = Some u"
  shows "sum_list (map (f \<circ> snd) (AList.update k v m))
           = sum_list (map (f \<circ> snd) m) + (f v - f u)"
  using assms by (induction m) (auto simp: algebra_simps split: if_splits)

section \<open>Channels\<close>

text \<open>
  A buffered channel: what it holds, its capacity, whether it is closed.  Sending on a
  closed channel and closing a closed channel panic; a send to a full channel blocks.
\<close>

record 'a chan =
  ch_buf :: "'a list"
  ch_cap :: nat
  ch_closed :: bool

datatype 'a chan_outcome = ChPanic | ChBlocked | ChOk 'a

definition make_chan :: "nat \<Rightarrow> 'a chan" where
  "make_chan n = \<lparr>ch_buf = [], ch_cap = n, ch_closed = False\<rparr>"

definition chan_send :: "'a \<Rightarrow> 'a chan \<Rightarrow> 'a chan chan_outcome" where
  "chan_send x c =
     (if ch_closed c then ChPanic
      else if length (ch_buf c) < ch_cap c then ChOk (c\<lparr>ch_buf := ch_buf c @ [x]\<rparr>)
      else ChBlocked)"

definition chan_close :: "'a chan \<Rightarrow> 'a chan chan_outcome" where
  "chan_close c = (if ch_closed c then ChPanic else ChOk (c\<lparr>ch_closed := True\<rparr>))"

lemma chan_send_ok_iff:
  "chan_send x c = ChOk d \<longleftrightarrow>
     \<not> ch_closed c \<and> length (ch_buf c) < ch_cap c \<and> d = c\<lparr>ch_buf := ch_buf c @ [x]\<rparr>"
  by (auto simp: chan_send_def)

section \<open>Shared interfaces\<close>

text \<open>A system of steps with an invariant.\<close>

locale invariant_system =
  fixes init :: "'s \<Rightarrow> bool"
    and step :: "'s \<Rightarrow> 's \<Rightarrow> bool"
    and inv :: "'s \<Rightarrow> bool"
  assumes init_inv: "init s \<Longrightarrow> inv s"
    and step_inv: "inv s \<Longrightarrow> step s t \<Longrightarrow> inv t"
begin

lemma steps_inv: "step\<^sup>*\<^sup>* s t \<Longrightarrow> inv s \<Longrightarrow> inv t"
  by (induction rule: rtranclp_induct) (auto intro: step_inv)

lemma reachable_inv: "init s \<Longrightarrow> step\<^sup>*\<^sup>* s t \<Longrightarrow> inv t"
  by (rule steps_inv) (auto intro: init_inv)

end

text \<open>A \<open>WithDefaults\<close> method: idempotent, and it leaves a complete value alone.\<close>

locale defaulting =
  fixes fill :: "'a \<Rightarrow> 'a"
    and complete :: "'a \<Rightarrow> bool"
  assumes fill_complete: "complete (fill x)"
    and complete_fill: "complete x \<Longrightarrow> fill x = x"
begin

lemma fill_idem: "fill (fill x) = fill x"
  by (rule complete_fill) (rule fill_complete)

lemma complete_iff: "complete x \<longleftrightarrow> fill x = x"
  using fill_complete [of x] complete_fill [of x] by metis

end

end
