(* ===== verification/Sniffer_Api.thy ===== *)
theory Sniffer_Api imports Go_Prelude begin

text \<open>
  The messages of \<open>api/sniffer/v1\<close> as the Go code sees them.  A message field is a
  pointer in Go, so it is an \<open>option\<close> here, and \<open>nil_pod\<close> is what the generated
  getters read through a nil pod.  Enumerations that arrive over the wire and whose unknown
  values matter (\<open>TlsMode\<close>, \<open>PacketSource\<close>, \<open>RecordKind\<close>, \<open>LinkType\<close>,
  \<open>Direction\<close>) are \<open>int32\<close> words; the ones only this program produces are datatypes.
  A \<open>google.protobuf.Timestamp\<close> is its time with the verdict of \<open>CheckValid\<close>.
\<close>

section \<open>Enumerations\<close>

type_synonym tls_mode = i32

definition TLSModeUnspecified :: tls_mode where "TLSModeUnspecified = 0"
definition TLSModeOff :: tls_mode where "TLSModeOff = 1"
definition TLSModeEBPF :: tls_mode where "TLSModeEBPF = 2"
definition TLSModeKeylog :: tls_mode where "TLSModeKeylog = 3"
definition TLSModeAuto :: tls_mode where "TLSModeAuto = 4"

lemmas tls_mode_defs =
  TLSModeUnspecified_def TLSModeOff_def TLSModeEBPF_def TLSModeKeylog_def TLSModeAuto_def

type_synonym packet_source = i32

definition PACKET_SOURCE_WIRE :: packet_source where "PACKET_SOURCE_WIRE = 1"

type_synonym record_kind = i32

definition RECORD_KIND_WIRE_FRAME :: record_kind where "RECORD_KIND_WIRE_FRAME = 1"
definition RECORD_KIND_TLS_EVENT :: record_kind where "RECORD_KIND_TLS_EVENT = 2"

type_synonym link_type = i32

definition LINK_TYPE_UNSPECIFIED :: link_type where "LINK_TYPE_UNSPECIFIED = 0"
definition LINK_TYPE_ETHERNET :: link_type where "LINK_TYPE_ETHERNET = 1"
definition LINK_TYPE_RAW :: link_type where "LINK_TYPE_RAW = 101"
definition LINK_TYPE_LINUX_SLL :: link_type where "LINK_TYPE_LINUX_SLL = 113"
definition LINK_TYPE_LINUX_SLL2 :: link_type where "LINK_TYPE_LINUX_SLL2 = 276"

lemmas link_type_defs =
  LINK_TYPE_UNSPECIFIED_def LINK_TYPE_ETHERNET_def LINK_TYPE_RAW_def
  LINK_TYPE_LINUX_SLL_def LINK_TYPE_LINUX_SLL2_def

type_synonym direction = i32

definition DIRECTION_UNSPECIFIED :: direction where "DIRECTION_UNSPECIFIED = 0"
definition DIRECTION_OUTBOUND :: direction where "DIRECTION_OUTBOUND = 1"
definition DIRECTION_INBOUND :: direction where "DIRECTION_INBOUND = 2"

lemmas direction_defs =
  DIRECTION_UNSPECIFIED_def DIRECTION_OUTBOUND_def DIRECTION_INBOUND_def

datatype session_phase =
  Session_Pending | Session_Starting | Session_Running
| Session_Stopping | Session_Stopped | Session_Failed

datatype severity = Severity_Info | Severity_Warning | Severity_Error

datatype agent_phase =
  Agent_Unspecified | Agent_Scheduling | Agent_Ready | Agent_Capturing
| Agent_Terminating | Agent_Gone | Agent_Failed

datatype tls_status =
  Tls_Unspecified | Tls_Active | Tls_Unsupported | Tls_Denied | Tls_Fallback

datatype error_stage =
  Stage_Unspecified | Stage_Discovery | Stage_Agent_Scheduling | Stage_Netns_Resolve
| Stage_Capture_Start | Stage_Capture_Stream | Stage_Tls_Attach | Stage_Sink_Write
| Stage_Teardown

datatype error_reason =
  Reason_Unspecified | Reason_Invalid_Argument | Reason_Not_Found | Reason_Permission_Denied
| Reason_Unsupported | Reason_Timeout | Reason_Resource_Exhausted | Reason_Tool_Failed
| Reason_Internal

section \<open>Packets and records\<close>

record timestamp =
  ts_time :: int
  ts_valid :: bool

record pod_ref =
  pr_namespace :: string
  pr_name :: string
  pr_uid :: string
  pr_node :: string
  pr_container_id :: string

definition nil_pod :: pod_ref where
  "nil_pod = \<lparr>pr_namespace = [], pr_name = [], pr_uid = [], pr_node = [], pr_container_id = []\<rparr>"

text \<open>What the getters of a \<open>*PodRef\<close> read: the zero values through nil.\<close>

fun deref_pod :: "pod_ref option \<Rightarrow> pod_ref" where
  "deref_pod None = nil_pod"
| "deref_pod (Some p) = p"

record packet_frame =
  pf_pod :: "pod_ref option"
  pf_source :: packet_source
  pf_timestamp :: "timestamp option"
  pf_link_type :: link_type
  pf_original_length :: u32
  pf_payload :: string
  pf_sequence :: u64

record tls_event =
  te_pod :: "pod_ref option"
  te_timestamp :: "timestamp option"
  te_direction :: direction
  te_payload :: string
  te_connection_id :: string
  te_pid :: u32
  te_process :: string
  te_tls_library :: string
  te_sequence :: u64

text \<open>A \<open>*CaptureRecord\<close>: nil, an empty oneof, or one of the two records.\<close>

datatype capture_record =
  NilRecord | EmptyRecord | WireFrame packet_frame | TlsEvent tls_event

fun get_wire_frame :: "capture_record \<Rightarrow> packet_frame option" where
  "get_wire_frame (WireFrame f) = Some f"
| "get_wire_frame _ = None"

fun get_tls_event :: "capture_record \<Rightarrow> tls_event option" where
  "get_tls_event (TlsEvent e) = Some e"
| "get_tls_event _ = None"

section \<open>Sessions, assignments, batches\<close>

record target =
  tg_pod :: "pod_ref option"
  tg_interfaces :: "string list"
  tg_bpf_filter :: string
  tg_tls_mode :: tls_mode
  tg_snaplen :: u32

record agent_assignment =
  as_session_id :: string
  as_node :: string
  as_stream_id :: string
  as_targets :: "target list"

record capture_batch =
  cb_session_id :: string
  cb_node :: string
  cb_stream_id :: string
  cb_records :: "capture_record list"
  cb_dropped :: u64

record capture_spec =
  cs_namespace :: string
  cs_pod_patterns :: "string list"
  cs_bpf_filter :: string
  cs_duration :: "int option"
  cs_tls_mode :: tls_mode
  cs_snaplen :: u32

record pod_counters =
  pc_pod :: pod_ref
  pc_packets :: u64
  pc_bytes :: u64
  pc_dropped :: u64

record session_stats =
  st_packets :: u64
  st_bytes :: u64
  st_dropped :: u64
  st_per_pod :: "pod_counters list"

record agent_state_changed =
  asc_node :: string
  asc_agent_pod :: string
  asc_phase :: agent_phase
  asc_targets :: "pod_ref option list"

record tls_state_changed =
  tsc_pod :: "pod_ref option"
  tsc_status :: tls_status
  tsc_detail :: string

lemma get_wire_frame_Some_iff: "get_wire_frame r = Some f \<longleftrightarrow> r = WireFrame f"
  by (cases r) auto

lemma get_tls_event_Some_iff: "get_tls_event r = Some e \<longleftrightarrow> r = TlsEvent e"
  by (cases r) auto

end
