(* ===== verification/Kube.thy ===== *)
theory Kube imports Sniffer_Api begin

text \<open>
  The Kubernetes objects and calls the hub relies on.  The client library and the API server
  are not part of the repository: the fields of \<open>corev1.Pod\<close> the code reads or writes are
  a record, and the five calls it makes are the fields of \<open>kube\<close>, over an abstract cluster
  state \<open>'w\<close> that every call may change.  Nothing is assumed about them here; a theorem
  that relies on the server states what it needs.
\<close>

datatype pod_phase = PodPending | PodRunning | PodSucceeded | PodFailed | PodUnknown

datatype condition_type = PodScheduled | DisruptionTarget | OtherCondition string

datatype condition_status = ConditionTrue | ConditionFalse | ConditionUnknown

record pod_condition =
  co_type :: condition_type
  co_status :: condition_status
  co_message :: string

record waiting_state =
  wt_reason :: string
  wt_message :: string

record terminated_state =
  tm_exit_code :: int
  tm_reason :: string

record container_status =
  cst_name :: string
  cst_ready :: bool
  cst_waiting :: "waiting_state option"
  cst_terminated :: "terminated_state option"

record env_var =
  ev_name :: string
  ev_value :: string
  ev_field_path :: "string option"

datatype security_context = PrivilegedContext | CapabilitiesAdd "string list"

record volume_mount =
  vm_name :: string
  vm_mount_path :: string
  vm_read_only :: bool

record container =
  ct_name :: string
  ct_image :: string
  ct_pull_policy :: string
  ct_security :: "security_context option"
  ct_env :: "env_var list"
  ct_mounts :: "volume_mount list"

record host_path_volume =
  hv_name :: string
  hv_path :: string
  hv_type :: string

record kpod =
  kp_name :: string
  kp_generate_name :: string
  kp_namespace :: string
  kp_uid :: string
  kp_labels :: "(string, string) gomap"
  kp_deleting :: bool
  kp_node_name :: string
  kp_host_pid :: bool
  kp_restart_policy :: string
  kp_automount_token :: "bool option"
  kp_containers :: "container list"
  kp_volumes :: "host_path_volume list"
  kp_active_deadline :: "int option"
  kp_phase :: pod_phase
  kp_conditions :: "pod_condition list"
  kp_container_statuses :: "container_status list"

text \<open>A pod as its creator submits it: no name, no UID, no status.\<close>

definition empty_pod :: kpod where
  "empty_pod = \<lparr>kp_name = [], kp_generate_name = [], kp_namespace = [], kp_uid = [],
     kp_labels = [], kp_deleting = False, kp_node_name = [], kp_host_pid = False,
     kp_restart_policy = [], kp_automount_token = None, kp_containers = [], kp_volumes = [],
     kp_active_deadline = None, kp_phase = PodPending, kp_conditions = [],
     kp_container_statuses = []\<rparr>"

datatype api_reason =
    Api_NotFound | Api_Timeout | Api_ServerTimeout | Api_ServiceUnavailable
  | Api_TooManyRequests | Api_InternalError | Api_Expired | Api_Gone | Api_Other

record api_error =
  ae_reason :: api_reason
  ae_message :: string

record 'w kube =
  k_list :: "string \<Rightarrow> string \<Rightarrow> 'w \<Rightarrow> (api_error + kpod list) \<times> 'w"
  k_get :: "string \<Rightarrow> string \<Rightarrow> 'w \<Rightarrow> (api_error + kpod) \<times> 'w"
  k_create :: "string \<Rightarrow> kpod \<Rightarrow> 'w \<Rightarrow> (api_error + kpod) \<times> 'w"
  k_delete :: "string \<Rightarrow> string \<Rightarrow> int \<Rightarrow> 'w \<Rightarrow> api_error option \<times> 'w"
  k_delete_collection :: "string \<Rightarrow> string \<Rightarrow> int \<Rightarrow> 'w \<Rightarrow> api_error option \<times> 'w"

section \<open>A small cluster\<close>

text \<open>
  A concrete server for the witnesses: a list of pods, selectors matched requirement by
  requirement, names made from a counter, new pods Running and ready at once, deletion
  immediate.
\<close>

record demo_cluster =
  dc_pods :: "kpod list"
  dc_next :: nat

definition selects :: "string \<Rightarrow> kpod \<Rightarrow> bool" where
  "selects sel p =
     (sel = [] \<or> list_all (\<lambda>req. case cut req ''='' of
        (key, value, ok) \<Rightarrow> ok \<and> map_of (kp_labels p) key = Some value) (split_on CHR '','' sel))"

definition demo_list where
  "demo_list ns sel w =
     (Inr (filter (\<lambda>p. kp_namespace p = ns \<and> selects sel p) (dc_pods w)) :: api_error + kpod list,
      w :: demo_cluster)"

definition demo_get where
  "demo_get ns name w =
     ((case find (\<lambda>p. kp_namespace p = ns \<and> kp_name p = name) (dc_pods w) of
         None \<Rightarrow> Inl \<lparr>ae_reason = Api_NotFound, ae_message = ''not found''\<rparr>
       | Some p \<Rightarrow> Inr p) :: api_error + kpod, w :: demo_cluster)"

definition demo_create where
  "demo_create ns p w =
     (let p' = p\<lparr>kp_namespace := ns, kp_name := kp_generate_name p @ show_nat (dc_next w),
                 kp_uid := ''uid'' @ show_nat (dc_next w), kp_phase := PodRunning,
                 kp_container_statuses := map (\<lambda>c. \<lparr>cst_name = ct_name c, cst_ready = True,
                   cst_waiting = None, cst_terminated = None\<rparr>) (kp_containers p)\<rparr>
      in (Inr p' :: api_error + kpod,
          (w :: demo_cluster)\<lparr>dc_pods := dc_pods w @ [p'], dc_next := Suc (dc_next w)\<rparr>))"

definition demo_delete where
  "demo_delete ns name (grace :: int) w =
     (None :: api_error option,
      (w :: demo_cluster)\<lparr>dc_pods := filter (\<lambda>p. \<not> (kp_namespace p = ns \<and> kp_name p = name)) (dc_pods w)\<rparr>)"

definition demo_delete_collection where
  "demo_delete_collection ns sel (grace :: int) w =
     (None :: api_error option,
      (w :: demo_cluster)\<lparr>dc_pods := filter (\<lambda>p. \<not> (kp_namespace p = ns \<and> selects sel p)) (dc_pods w)\<rparr>)"

definition demo_kube :: "demo_cluster kube" where
  "demo_kube = \<lparr>k_list = demo_list, k_get = demo_get, k_create = demo_create,
     k_delete = demo_delete, k_delete_collection = demo_delete_collection\<rparr>"

end
