(* ===== verification/Log_Level.thy ===== *)
theory Log_Level imports Go_Prelude begin

text \<open>
  \<open>pkg/log/log.go\<close>: the two verbosity levels and how a process picks one.  The
  process-wide default logger and the handlers are in \<open>Log_Handler\<close>; the output stream is output
  only and is not modelled.
\<close>

datatype level = LevelInfo | LevelDebug

datatype level_error = InvalidLogLevel string

definition parse_level :: "string \<Rightarrow> level_error + level" where
  "parse_level s =
     (let w = to_lower (trim_space s) in
      if w = [] \<or> w = ''info'' then Inr LevelInfo
      else if w = ''debug'' then Inr LevelDebug
      else Inl (InvalidLogLevel s))"

definition resolve_level :: "string \<Rightarrow> string \<Rightarrow> level_error + level" where
  "resolve_level flag env =
     (if trim_space flag \<noteq> [] then parse_level flag else parse_level env)"

definition init_from_env :: "string \<Rightarrow> level_error + level" where
  "init_from_env env = (case parse_level env of Inl e \<Rightarrow> Inl e | Inr l \<Rightarrow> Inr l)"

lemma parse_level_cases:
  "parse_level s = Inr LevelInfo \<or> parse_level s = Inr LevelDebug
     \<or> parse_level s = Inl (InvalidLogLevel s)"
  by (simp add: parse_level_def Let_def)

lemma parse_level_empty: "trim_space s = [] \<Longrightarrow> parse_level s = Inr LevelInfo"
  by (simp add: parse_level_def to_lower.simps)

lemma resolve_level_flag: "trim_space flag \<noteq> [] \<Longrightarrow> resolve_level flag env = parse_level flag"
  by (simp add: resolve_level_def)

end
