(* ===== verification/Capture_Spec.thy ===== *)
theory Capture_Spec imports Sniffer_Api Log_Level begin

text \<open>
  \<open>pkg/capture\<close>: the capture request (\<open>Spec\<close>), the client's sink configuration
  (\<open>SinkSpec\<close>), the trusted agent configuration (\<open>AgentConfig\<close>), their defaults and
  validation, and the wire form of \<open>Spec\<close>.  \<open>Validate\<close> collects every problem
  (\<open>errors.Join\<close>), so it returns the list of errors; nil is the empty list.  Three library
  calls are parameters, gathered in \<open>ext_lib\<close>: the Kubernetes label checks and Go's
  \<open>regexp\<close> package (compile and unanchored match).
\<close>

section \<open>Libraries the validation calls\<close>

record 're ext_lib =
  is_dns1123_label :: "string \<Rightarrow> bool"
  is_label_value :: "string \<Rightarrow> bool"
  regexp_compile :: "string \<Rightarrow> 're option"
  regexp_match :: "'re \<Rightarrow> string \<Rightarrow> bool"

section \<open>TLS modes\<close>

definition tls_mode_names :: "(tls_mode, string) gomap" where
  "tls_mode_names =
     [(TLSModeUnspecified, ''unspecified''), (TLSModeOff, ''off''), (TLSModeEBPF, ''ebpf''),
      (TLSModeKeylog, ''keylog''), (TLSModeAuto, ''auto'')]"

definition DefaultTLSMode :: tls_mode where "DefaultTLSMode = TLSModeAuto"

definition tls_mode_string :: "tls_mode \<Rightarrow> string" where
  "tls_mode_string m =
     (case map_of tls_mode_names m of
        Some name \<Rightarrow> name
      | None \<Rightarrow> ''TLSMode('' @ show_int (sint m) @ '')'')"

definition tls_mode_known :: "tls_mode \<Rightarrow> bool" where
  "tls_mode_known m = (map_of tls_mode_names m \<noteq> None \<and> m \<noteq> TLSModeUnspecified)"

definition tls_mode_implemented :: "tls_mode \<Rightarrow> bool" where
  "tls_mode_implemented m = tls_mode_known m"

definition wants_ebpf :: "tls_mode \<Rightarrow> bool" where
  "wants_ebpf m = (m = TLSModeEBPF \<or> m = TLSModeAuto)"

datatype tls_mode_error = UnknownTLSMode string

text \<open>
  \<open>ParseTLSMode\<close> ranges over a map; \<open>names\<close> is the order this run of the loop sees.
\<close>

definition parse_tls_mode_over ::
    "(tls_mode, string) gomap \<Rightarrow> string \<Rightarrow> tls_mode_error + tls_mode" where
  "parse_tls_mode_over names name =
     (let want = to_lower (trim_space name) in
      case find (\<lambda>(mode, modeName). mode \<noteq> TLSModeUnspecified \<and> modeName = want) names of
        Some (mode, _) \<Rightarrow> Inr mode
      | None \<Rightarrow> Inl (UnknownTLSMode name))"

definition parse_tls_mode :: "string \<Rightarrow> tls_mode_error + tls_mode" where
  "parse_tls_mode = parse_tls_mode_over tls_mode_names"

section \<open>Spec\<close>

record spec =
  sp_namespace :: string
  sp_pod_patterns :: "string list"
  sp_bpf_filter :: string
  sp_duration :: int
  sp_snaplen :: u32
  sp_tls_mode :: tls_mode

definition DefaultSnaplen :: u32 where "DefaultSnaplen = 262144"
definition MinSnaplen :: u32 where "MinSnaplen = 64"

definition spec_with_defaults :: "spec \<Rightarrow> spec" where
  "spec_with_defaults s =
     (let out = (if sp_snaplen s = 0 then s\<lparr>sp_snaplen := DefaultSnaplen\<rparr> else s) in
      if sp_tls_mode out = TLSModeUnspecified then out\<lparr>sp_tls_mode := DefaultTLSMode\<rparr> else out)"

datatype spec_error =
    NamespaceRequired
  | NamespaceInvalid string
  | PodPatternsRequired
  | PodPatternEmpty nat
  | PodPatternInvalid nat
  | BpfLeadingDash
  | DurationNegative int
  | SnaplenTooSmall u32
  | TlsModeUnset
  | TlsModeUnknown tls_mode
  | TlsModeNotImplemented tls_mode

fun validate_patterns :: "'re ext_lib \<Rightarrow> nat \<Rightarrow> string list \<Rightarrow> spec_error list" where
  "validate_patterns L i [] = []"
| "validate_patterns L i (p # ps) =
     (if p = [] then [PodPatternEmpty i]
      else if regexp_compile L p = None then [PodPatternInvalid i] else [])
     @ validate_patterns L (Suc i) ps"

definition spec_validate :: "'re ext_lib \<Rightarrow> spec \<Rightarrow> spec_error list" where
  "spec_validate L s =
     (if sp_namespace s = [] then [NamespaceRequired]
      else if \<not> is_dns1123_label L (sp_namespace s) then [NamespaceInvalid (sp_namespace s)]
      else [])
     @ (if sp_pod_patterns s = [] then [PodPatternsRequired] else [])
     @ validate_patterns L 0 (sp_pod_patterns s)
     @ (if has_prefix (trim_space (sp_bpf_filter s)) ''-'' then [BpfLeadingDash] else [])
     @ (if sp_duration s < 0 then [DurationNegative (sp_duration s)] else [])
     @ (if sp_snaplen s \<noteq> 0 \<and> sp_snaplen s < MinSnaplen
        then [SnaplenTooSmall (sp_snaplen s)] else [])
     @ (if sp_tls_mode s = TLSModeUnspecified then [TlsModeUnset]
        else if \<not> tls_mode_known (sp_tls_mode s) then [TlsModeUnknown (sp_tls_mode s)]
        else if \<not> tls_mode_implemented (sp_tls_mode s)
        then [TlsModeNotImplemented (sp_tls_mode s)] else [])"

fun compile_patterns_from :: "'re ext_lib \<Rightarrow> nat \<Rightarrow> string list \<Rightarrow> spec_error + 're list" where
  "compile_patterns_from L i [] = Inr []"
| "compile_patterns_from L i (p # ps) =
     (case regexp_compile L p of
        None \<Rightarrow> Inl (PodPatternInvalid i)
      | Some re \<Rightarrow>
          (case compile_patterns_from L (Suc i) ps of
             Inl e \<Rightarrow> Inl e
           | Inr res \<Rightarrow> Inr (re # res)))"

definition compile_patterns :: "'re ext_lib \<Rightarrow> spec \<Rightarrow> spec_error + 're list" where
  "compile_patterns L s = compile_patterns_from L 0 (sp_pod_patterns s)"

section \<open>The wire form\<close>

definition to_proto :: "spec \<Rightarrow> capture_spec" where
  "to_proto s =
     \<lparr>cs_namespace = sp_namespace s, cs_pod_patterns = sp_pod_patterns s,
      cs_bpf_filter = sp_bpf_filter s,
      cs_duration = (if 0 < sp_duration s then Some (sp_duration s) else None),
      cs_tls_mode = sp_tls_mode s, cs_snaplen = sp_snaplen s\<rparr>"

definition zero_spec :: spec where
  "zero_spec =
     \<lparr>sp_namespace = [], sp_pod_patterns = [], sp_bpf_filter = [], sp_duration = 0,
      sp_snaplen = 0, sp_tls_mode = TLSModeUnspecified\<rparr>"

fun spec_from_proto :: "capture_spec option \<Rightarrow> spec" where
  "spec_from_proto None = zero_spec"
| "spec_from_proto (Some c) =
     \<lparr>sp_namespace = cs_namespace c, sp_pod_patterns = cs_pod_patterns c,
      sp_bpf_filter = cs_bpf_filter c,
      sp_duration = (case cs_duration c of None \<Rightarrow> 0 | Some d \<Rightarrow> d),
      sp_snaplen = cs_snaplen c, sp_tls_mode = cs_tls_mode c\<rparr>"

section \<open>SinkSpec\<close>

definition StdoutSink :: string where "StdoutSink = ''-''"

record sink_spec =
  sk_out :: string
  sk_tls_out :: string
  sk_keylog_file :: string

datatype sink_error = OutRequired | TlsOutStdout | TlsOutSameAsOut

definition sink_with_defaults :: "sink_spec \<Rightarrow> sink_spec" where
  "sink_with_defaults s = (if sk_out s = [] then s\<lparr>sk_out := StdoutSink\<rparr> else s)"

definition sink_validate :: "sink_spec \<Rightarrow> sink_error list" where
  "sink_validate s =
     (if sk_out s = [] then [OutRequired] else [])
     @ (if sk_tls_out s = StdoutSink then [TlsOutStdout] else [])
     @ (if sk_tls_out s \<noteq> [] \<and> sk_tls_out s = sk_out s then [TlsOutSameAsOut] else [])"

definition sink_is_stdout :: "sink_spec \<Rightarrow> bool" where
  "sink_is_stdout s = (sk_out s = StdoutSink)"

section \<open>AgentConfig\<close>

record agent_config =
  ac_namespace :: string
  ac_image :: string
  ac_cri_socket :: string
  ac_unprivileged :: bool
  ac_allow_mutable_image :: bool
  ac_hub_ingest_addr :: string
  ac_log_level :: string

definition privileged :: "agent_config \<Rightarrow> bool" where
  "privileged c = (\<not> ac_unprivileged c)"

definition cri_endpoint :: "agent_config \<Rightarrow> string" where
  "cri_endpoint c = (if ac_cri_socket c = [] then [] else ''unix://'' @ ac_cri_socket c)"

definition DefaultAgentNamespace :: string where "DefaultAgentNamespace = ''k8s-sniffer''"
definition DefaultCRISocketPath :: string where
  "DefaultCRISocketPath = ''/run/containerd/containerd.sock''"

text \<open>\<open>ref\<close> is \<open>agentImageRef\<close>, the image reference set at link time.\<close>

definition default_agent_config :: "string \<Rightarrow> agent_config" where
  "default_agent_config ref =
     \<lparr>ac_namespace = DefaultAgentNamespace, ac_image = ref, ac_cri_socket = DefaultCRISocketPath,
      ac_unprivileged = False, ac_allow_mutable_image = False, ac_hub_ingest_addr = [],
      ac_log_level = []\<rparr>"

definition agent_config_with_defaults :: "string \<Rightarrow> agent_config \<Rightarrow> agent_config" where
  "agent_config_with_defaults ref c =
     (let d = default_agent_config ref;
          c1 = (if ac_namespace c = [] then c\<lparr>ac_namespace := ac_namespace d\<rparr> else c);
          c2 = (if ac_image c1 = [] then c1\<lparr>ac_image := ac_image d\<rparr> else c1) in
      if ac_cri_socket c2 = [] then c2\<lparr>ac_cri_socket := ac_cri_socket d\<rparr> else c2)"

definition is_digest_pinned :: "string \<Rightarrow> bool" where
  "is_digest_pinned ref =
     (case last_index ref CHR ''@'' of
        None \<Rightarrow> False
      | Some at \<Rightarrow>
          if at = 0 then False
          else (case cut (drop (at + 1) ref) '':'' of
                  (algo, hex, ok) \<Rightarrow> ok \<and> algo \<noteq> [] \<and> hex \<noteq> []))"

datatype agent_config_error =
    AgentNamespaceRequired
  | AgentNamespaceInvalid string
  | AgentImageRequired
  | AgentImageNotPinned string
  | CriSocketRequired
  | CriSocketIsUri string
  | CriSocketNotAbsolute string
  | HubIngestRequired
  | AgentLogLevel level_error

text \<open>\<open>filepath.IsAbs\<close> on Unix.\<close>

definition is_abs :: "string \<Rightarrow> bool" where
  "is_abs p = has_prefix p ''/''"

definition agent_config_validate :: "'re ext_lib \<Rightarrow> agent_config \<Rightarrow> agent_config_error list" where
  "agent_config_validate L c =
     (if ac_namespace c = [] then [AgentNamespaceRequired]
      else if \<not> is_dns1123_label L (ac_namespace c) then [AgentNamespaceInvalid (ac_namespace c)]
      else [])
     @ (if ac_image c = [] then [AgentImageRequired]
        else if \<not> ac_allow_mutable_image c \<and> \<not> is_digest_pinned (ac_image c)
        then [AgentImageNotPinned (ac_image c)] else [])
     @ (if ac_cri_socket c = [] then [CriSocketRequired]
        else if contains (ac_cri_socket c) ''://'' then [CriSocketIsUri (ac_cri_socket c)]
        else if \<not> is_abs (ac_cri_socket c) then [CriSocketNotAbsolute (ac_cri_socket c)]
        else [])
     @ (if ac_hub_ingest_addr c = [] then [HubIngestRequired] else [])
     @ (if ac_log_level c \<noteq> [] then
          (case parse_level (ac_log_level c) of Inl e \<Rightarrow> [AgentLogLevel e] | Inr _ \<Rightarrow> [])
        else [])"

section \<open>Defaults\<close>

definition spec_complete :: "spec \<Rightarrow> bool" where
  "spec_complete s = (sp_snaplen s \<noteq> 0 \<and> sp_tls_mode s \<noteq> TLSModeUnspecified)"

definition sink_complete :: "sink_spec \<Rightarrow> bool" where
  "sink_complete s = (sk_out s \<noteq> [])"

definition agent_config_complete :: "string \<Rightarrow> agent_config \<Rightarrow> bool" where
  "agent_config_complete ref c =
     (ac_namespace c \<noteq> [] \<and> ac_cri_socket c \<noteq> [] \<and> (ac_image c = [] \<longrightarrow> ref = []))"

interpretation spec_defaults: defaulting spec_with_defaults spec_complete
  by unfold_locales
    (auto simp: spec_with_defaults_def spec_complete_def DefaultSnaplen_def DefaultTLSMode_def
      tls_mode_defs Let_def)

interpretation sink_defaults: defaulting sink_with_defaults sink_complete
  by unfold_locales (auto simp: sink_with_defaults_def sink_complete_def StdoutSink_def)

interpretation agent_defaults: defaulting "agent_config_with_defaults ref" "agent_config_complete ref"
  for ref
  by unfold_locales
    (auto simp: agent_config_with_defaults_def agent_config_complete_def default_agent_config_def
      DefaultAgentNamespace_def DefaultCRISocketPath_def Let_def)

text \<open>
  Filling in defaults is idempotent for the request, the sink and the agent
  configuration alike, so it does not matter that the CLI, the hub and the manifest builder
  each call \<open>WithDefaults\<close> again.
\<close>

theorem with_defaults_idempotent:
  "spec_with_defaults (spec_with_defaults s) = spec_with_defaults s \<and>
   sink_with_defaults (sink_with_defaults k) = sink_with_defaults k \<and>
   agent_config_with_defaults ref (agent_config_with_defaults ref c)
     = agent_config_with_defaults ref c"
  by (simp add: spec_defaults.fill_idem sink_defaults.fill_idem agent_defaults.fill_idem)

section \<open>Validation\<close>

lemma validate_patterns_Nil_iff:
  "validate_patterns L i ps = [] \<longleftrightarrow> (\<forall>p \<in> set ps. p \<noteq> [] \<and> regexp_compile L p \<noteq> None)"
  by (induction L i ps rule: validate_patterns.induct) auto

lemma compile_patterns_from_ok:
  assumes "\<forall>p \<in> set ps. regexp_compile L p \<noteq> None"
  shows "compile_patterns_from L i ps = Inr (map (the \<circ> regexp_compile L) ps)"
  using assms by (induction L i ps rule: compile_patterns_from.induct) auto

lemma compile_patterns_from_Inr:
  "compile_patterns_from L i ps = Inr res \<Longrightarrow> map Some res = map (regexp_compile L) ps"
  by (induction L i ps arbitrary: res rule: compile_patterns_from.induct)
    (auto split: option.splits sum.splits)

lemma tls_mode_known_iff:
  "tls_mode_known m \<longleftrightarrow> m \<in> {TLSModeOff, TLSModeEBPF, TLSModeKeylog, TLSModeAuto}"
  by (auto simp: tls_mode_known_def tls_mode_names_def tls_mode_defs split: if_splits)


text \<open>
  A request that \<open>Validate\<close> accepts always compiles, and into one expression per
  pattern: \<open>NewPodMatcher\<close> cannot fail on a validated request.
\<close>

theorem validated_patterns_compile:
  assumes "spec_validate L s = []"
  shows "compile_patterns L s = Inr (map (the \<circ> regexp_compile L) (sp_pod_patterns s))"
proof -
  from assms have "validate_patterns L 0 (sp_pod_patterns s) = []"
    by (simp add: spec_validate_def)
  then show ?thesis
    by (auto simp: compile_patterns_def validate_patterns_Nil_iff intro!: compile_patterns_from_ok)
qed

text \<open>Applying the defaults removes the two complaints about unset values.\<close>

lemma defaults_clear_unset:
  "TlsModeUnset \<notin> set (spec_validate L (spec_with_defaults s)) \<and>
   SnaplenTooSmall 0 \<notin> set (spec_validate L (spec_with_defaults s))"
proof -
  have "TlsModeUnset \<notin> set (validate_patterns L i ps) \<and>
        SnaplenTooSmall 0 \<notin> set (validate_patterns L i ps)" for i ps
    by (induction L i ps rule: validate_patterns.induct) auto
  then show ?thesis
    using spec_defaults.fill_complete [of s]
    by (auto simp: spec_validate_def spec_complete_def split: if_splits)
qed

text \<open>A concrete library, for the witnesses: every non-empty name is a label, every pattern is
  its own expression, and matching is by substring.\<close>

definition demo_lib :: "string ext_lib" where
  "demo_lib = \<lparr>is_dns1123_label = (\<lambda>s. s \<noteq> []), is_label_value = (\<lambda>s. s \<noteq> []),
     regexp_compile = Some, regexp_match = (\<lambda>re s. contains s re)\<rparr>"

definition demo_spec :: spec where
  "demo_spec = \<lparr>sp_namespace = ''prod'', sp_pod_patterns = [''pay'', ''web''],
     sp_bpf_filter = [], sp_duration = 5, sp_snaplen = 0, sp_tls_mode = TLSModeUnspecified\<rparr>"

lemma trim_space_Nil [simp]: "trim_space [] = []"
  by (simp add: trim_space_def trim_left.simps)

lemma demo_spec_valid: "spec_validate demo_lib (spec_with_defaults demo_spec) = []"
  by (simp add: spec_validate_def spec_with_defaults_def demo_spec_def demo_lib_def Let_def
      DefaultSnaplen_def MinSnaplen_def DefaultTLSMode_def tls_mode_implemented_def
      tls_mode_known_iff tls_mode_defs)

theorem validated_patterns_compile_witness:
  "compile_patterns demo_lib (spec_with_defaults demo_spec) = Inr [''pay'', ''web'']"
  by (subst validated_patterns_compile [OF demo_spec_valid])
    (simp add: demo_lib_def demo_spec_def spec_with_defaults_def Let_def)

section \<open>TLS mode names\<close>

lemma parse_tls_mode_over_perm:
  assumes "set names = set tls_mode_names"
  shows "parse_tls_mode_over names = parse_tls_mode"
proof
  fix name
  define P where "P = (\<lambda>(mode, n). mode \<noteq> TLSModeUnspecified \<and> n = to_lower (trim_space name))"
  have uniq: "\<And>a b. a \<in> set tls_mode_names \<Longrightarrow> b \<in> set tls_mode_names \<Longrightarrow> P a \<Longrightarrow> P b \<Longrightarrow> a = b"
    by (auto simp: P_def tls_mode_names_def tls_mode_defs)
  have "find P names = find P tls_mode_names"
  proof (cases "find P names")
    case None
    then have "\<not> (\<exists>x. x \<in> set tls_mode_names \<and> P x)" unfolding find_None_iff assms .
    then have "find P tls_mode_names = None" unfolding find_None_iff .
    with None show ?thesis by simp
  next
    case (Some a)
    then have "a \<in> set tls_mode_names" "P a"
      using assms by (auto simp: find_Some_iff)
    moreover then obtain b where b: "find P tls_mode_names = Some b"
      by (metis find_None_iff option.exhaust)
    moreover from b have "b \<in> set tls_mode_names" "P b" by (auto simp: find_Some_iff)
    ultimately show ?thesis using Some uniq by metis
  qed
  then show "parse_tls_mode_over names name = parse_tls_mode name"
    by (simp add: parse_tls_mode_def parse_tls_mode_over_def P_def)
qed

lemma find_mode_name:
  "(case find (\<lambda>(mode, n). mode \<noteq> TLSModeUnspecified \<and> n = v) tls_mode_names of
      Some (mode, _) \<Rightarrow> Inr mode | None \<Rightarrow> Inl e) = Inr m
    \<longleftrightarrow> tls_mode_known m \<and> v = tls_mode_string m"
  by (auto simp: tls_mode_names_def tls_mode_known_iff tls_mode_string_def tls_mode_defs)

text \<open>
  \<open>ParseTLSMode\<close> is deterministic although it ranges over a Go map, never yields
  \<open>unspecified\<close>, and accepts exactly the names of the known modes up to case and outer
  white space: parsing is the inverse of \<open>String\<close> on the four modes.
\<close>

theorem parse_tls_mode_inverse:
  assumes "set names = set tls_mode_names"
  shows "parse_tls_mode_over names w = Inr m \<longleftrightarrow>
           tls_mode_known m \<and> to_lower (trim_space w) = tls_mode_string m"
proof -
  have "parse_tls_mode w = Inr m \<longleftrightarrow>
      tls_mode_known m \<and> to_lower (trim_space w) = tls_mode_string m"
    unfolding parse_tls_mode_def parse_tls_mode_over_def Let_def by (rule find_mode_name)
  then show ?thesis by (simp add: parse_tls_mode_over_perm [OF assms])
qed

theorem parse_tls_mode_inverse_witness:
  "parse_tls_mode_over (rev tls_mode_names) '' EBPF'' = Inr TLSModeEBPF"
proof -
  have low: "to_lower (trim_space '' EBPF'') = ''ebpf''" by code_simp
  have names: "set (rev tls_mode_names) = set tls_mode_names" by simp
  have "tls_mode_known TLSModeEBPF \<and> ''ebpf'' = tls_mode_string TLSModeEBPF"
    by (simp add: tls_mode_known_iff tls_mode_string_def tls_mode_names_def tls_mode_defs)
  then show ?thesis unfolding parse_tls_mode_inverse [OF names] low .
qed

section \<open>Round trip\<close>

text \<open>
  The wire form loses nothing of a request but a negative duration, which it turns into
  zero: unknown TLS modes in particular survive to the hub's \<open>Validate\<close>.
\<close>

theorem spec_proto_roundtrip:
  "spec_from_proto (Some (to_proto s)) = s\<lparr>sp_duration := max 0 (sp_duration s)\<rparr>"
  by (simp add: to_proto_def)

section \<open>Digests\<close>

text \<open>
  \<open>IsDigestPinned\<close> holds exactly of the references \<open>name@algo:hex\<close> with the three
  parts non-empty, split at the last \<open>@\<close> and at the first colon after it.
\<close>

theorem is_digest_pinned_iff:
  "is_digest_pinned ref \<longleftrightarrow>
     (\<exists>name algo hex. ref = name @ ''@'' @ algo @ '':'' @ hex \<and> name \<noteq> [] \<and> algo \<noteq> [] \<and> hex \<noteq> [] \<and>
        CHR ''@'' \<notin> set (algo @ hex) \<and> CHR '':'' \<notin> set algo)"
  (is "_ \<longleftrightarrow> ?R")
proof
  assume pinned: "is_digest_pinned ref"
  then obtain at where at: "last_index ref CHR ''@'' = Some at" "at \<noteq> 0"
    by (auto simp: is_digest_pinned_def split: option.splits if_splits)
  obtain algo hex ok where c: "cut (drop (at + 1) ref) '':'' = (algo, hex, ok)"
    by (metis prod_cases3)
  from pinned at c have ok: "ok" "algo \<noteq> []" "hex \<noteq> []"
    by (simp_all add: is_digest_pinned_def)
  from last_index_Some [OF at(1)] have l: "at < length ref" "ref ! at = CHR ''@''"
      "CHR ''@'' \<notin> set (drop (Suc at) ref)" by auto
  from c ok have d: "drop (at + 1) ref = algo @ CHR '':'' # hex" by (auto intro: cut_found)
  from l(1) have "ref = take at ref @ ref ! at # drop (Suc at) ref"
    by (rule id_take_nth_drop)
  with l d have "ref = take at ref @ ''@'' @ algo @ '':'' @ hex" by simp
  moreover have "take at ref \<noteq> []" using at l by auto
  moreover have "CHR ''@'' \<notin> set (algo @ hex)" using l(3) d by auto
  moreover have "CHR '':'' \<notin> set algo"
  proof -
    from c ok obtain i where "index_of (drop (at + 1) ref) '':'' = Some i"
      "algo = take i (drop (at + 1) ref)"
      by (auto simp: cut_def split: option.splits)
    then show ?thesis by (auto dest: index_of_single_first)
  qed
  ultimately show ?R using ok by blast
next
  assume ?R
  then obtain name algo hex where r: "ref = name @ CHR ''@'' # algo @ CHR '':'' # hex"
    and ne: "name \<noteq> []" "algo \<noteq> []" "hex \<noteq> []"
    and at: "CHR ''@'' \<notin> set (algo @ CHR '':'' # hex)" and col: "CHR '':'' \<notin> set algo"
    by auto
  from at have "last_index ref CHR ''@'' = Some (length name)"
    unfolding r by (rule last_index_append)
  moreover have "cut (drop (length name + 1) ref) '':'' = (algo, hex, True)"
    using cut_single [OF col, of hex] by (simp add: r)
  ultimately show "is_digest_pinned ref" using ne by (simp add: is_digest_pinned_def)
qed

text \<open>
  A validated agent configuration pins its image by digest unless mutable images were
  allowed explicitly, names a valid namespace, an ingest address and an absolute socket path
  that is no URI.
\<close>

theorem agent_config_validate_pins_image:
  assumes "agent_config_validate L c = []"
  shows "(ac_allow_mutable_image c \<or> is_digest_pinned (ac_image c)) \<and> ac_image c \<noteq> [] \<and>
    is_dns1123_label L (ac_namespace c) \<and> ac_hub_ingest_addr c \<noteq> [] \<and>
    is_abs (ac_cri_socket c) \<and> \<not> contains (ac_cri_socket c) ''://''"
  using assms by (simp add: agent_config_validate_def split: if_splits)

definition demo_agent_config :: agent_config where
  "demo_agent_config = \<lparr>ac_namespace = ''k8s-sniffer'', ac_image = ''img@sha256:ab'',
     ac_cri_socket = ''/run/cri.sock'', ac_unprivileged = False, ac_allow_mutable_image = False,
     ac_hub_ingest_addr = ''10.0.0.1:30551'', ac_log_level = ''debug''\<rparr>"

lemma demo_agent_config_valid: "agent_config_validate demo_lib demo_agent_config = []"
  by code_simp

theorem agent_config_validate_pins_image_witness: "is_digest_pinned (ac_image demo_agent_config)"
  using agent_config_validate_pins_image [OF demo_agent_config_valid]
  by (simp add: demo_agent_config_def)

end
