(* ===== verification/Agent_Manifest.thy ===== *)
theory Agent_Manifest imports Kube Capture_Spec begin

text \<open>
  \<open>pkg/hub/agent/manifest.go\<close>: the pod the hub creates on a node.  Durations are
  nanoseconds; \<open>ref\<close> is the link-time agent image.
\<close>

definition EnvAgentSessionID :: string where "EnvAgentSessionID = ''K8S_SNIFFER_SESSION_ID''"
definition EnvAgentNode :: string where "EnvAgentNode = ''K8S_SNIFFER_NODE''"
definition EnvAgentPod :: string where "EnvAgentPod = ''K8S_SNIFFER_AGENT_POD''"
definition EnvAgentStreamID :: string where "EnvAgentStreamID = ''K8S_SNIFFER_STREAM_ID''"
definition EnvAgentHubAddr :: string where "EnvAgentHubAddr = ''K8S_SNIFFER_HUB_ADDR''"
definition EnvAgentCRISocket :: string where "EnvAgentCRISocket = ''K8S_SNIFFER_CRI_SOCKET''"
definition EnvAgentLogLevel :: string where "EnvAgentLogLevel = ''K8S_SNIFFER_LOG_LEVEL''"

lemmas env_name_defs =
  EnvAgentSessionID_def EnvAgentNode_def EnvAgentPod_def EnvAgentStreamID_def
  EnvAgentHubAddr_def EnvAgentCRISocket_def EnvAgentLogLevel_def

definition LabelAppKey :: string where "LabelAppKey = ''app''"
definition LabelAppValue :: string where "LabelAppValue = ''k8s-sniffer-agent''"
definition LabelSessionKey :: string where "LabelSessionKey = ''sniffer.session''"
definition LabelNodeKey :: string where "LabelNodeKey = ''sniffer.node''"
definition GenerateNamePrefix :: string where "GenerateNamePrefix = ''k8s-sniffer-''"
definition AgentContainerName :: string where "AgentContainerName = ''agent''"
definition CRISocketVolumeName :: string where "CRISocketVolumeName = ''cri-sock''"

lemmas label_defs =
  LabelAppKey_def LabelAppValue_def LabelSessionKey_def LabelNodeKey_def

definition unprivilegedCapabilities :: "string list" where
  "unprivilegedCapabilities = [''SYS_ADMIN'', ''NET_ADMIN'', ''NET_RAW'', ''BPF'', ''PERFMON'']"

datatype manifest_error =
    ManifestConfig "agent_config_error list"
  | ManifestSessionRequired
  | ManifestStreamRequired
  | ManifestNodeRequired
  | ManifestHubAddrRequired

definition agent_security_context :: "agent_config \<Rightarrow> security_context" where
  "agent_security_context cfg =
     (if privileged cfg then PrivilegedContext else CapabilitiesAdd unprivilegedCapabilities)"

definition env_value :: "string \<Rightarrow> string \<Rightarrow> env_var" where
  "env_value name v = \<lparr>ev_name = name, ev_value = v, ev_field_path = None\<rparr>"

definition manifest_env :: "string \<Rightarrow> string \<Rightarrow> string \<Rightarrow> agent_config \<Rightarrow> env_var list" where
  "manifest_env sessionID streamID nodeName cfg =
     [env_value EnvAgentSessionID sessionID, env_value EnvAgentNode nodeName,
      env_value EnvAgentStreamID streamID, env_value EnvAgentHubAddr (ac_hub_ingest_addr cfg),
      env_value EnvAgentCRISocket (ac_cri_socket cfg),
      \<lparr>ev_name = EnvAgentPod, ev_value = [], ev_field_path = Some ''metadata.name''\<rparr>]
     @ (if ac_log_level cfg \<noteq> [] then [env_value EnvAgentLogLevel (ac_log_level cfg)] else [])"

definition nanos_per_second :: int where "nanos_per_second = 1000000000"

text \<open>\<open>spec.activeDeadlineSeconds\<close>: whole seconds, at least one, none for no deadline.\<close>

definition active_deadline_seconds :: "int \<Rightarrow> int option" where
  "active_deadline_seconds activeDeadline =
     (if 0 < activeDeadline then
        let secs = activeDeadline div nanos_per_second in Some (if secs < 1 then 1 else secs)
      else None)"

definition pod_manifest ::
    "'re ext_lib \<Rightarrow> string \<Rightarrow> string \<Rightarrow> string \<Rightarrow> string \<Rightarrow> agent_config \<Rightarrow> int
       \<Rightarrow> manifest_error + kpod" where
  "pod_manifest L ref sessionID streamID nodeName cfg0 activeDeadline =
     (let cfg = agent_config_with_defaults ref cfg0 in
      if agent_config_validate L cfg \<noteq> [] then Inl (ManifestConfig (agent_config_validate L cfg))
      else if sessionID = [] then Inl ManifestSessionRequired
      else if streamID = [] then Inl ManifestStreamRequired
      else if nodeName = [] then Inl ManifestNodeRequired
      else if ac_hub_ingest_addr cfg = [] then Inl ManifestHubAddrRequired
      else Inr (empty_pod\<lparr>
        kp_generate_name := GenerateNamePrefix,
        kp_namespace := ac_namespace cfg,
        kp_labels := [(LabelAppKey, LabelAppValue), (LabelSessionKey, sessionID),
                      (LabelNodeKey, nodeName)],
        kp_node_name := nodeName,
        kp_host_pid := True,
        kp_restart_policy := ''Never'',
        kp_automount_token := Some False,
        kp_containers := [\<lparr>ct_name = AgentContainerName, ct_image = ac_image cfg,
           ct_pull_policy = ''IfNotPresent'',
           ct_security = Some (agent_security_context cfg),
           ct_env = manifest_env sessionID streamID nodeName cfg,
           ct_mounts = [\<lparr>vm_name = CRISocketVolumeName, vm_mount_path = ac_cri_socket cfg,
                         vm_read_only = True\<rparr>]\<rparr>],
        kp_volumes := [\<lparr>hv_name = CRISocketVolumeName, hv_path = ac_cri_socket cfg,
                        hv_type = ''Socket''\<rparr>],
        kp_active_deadline := active_deadline_seconds activeDeadline\<rparr>))"

datatype stream_id_error =
  StreamPodRequired | PodHasNoStreamID string | PodHasNoAgentContainer string

fun stream_id_from_env :: "env_var list \<Rightarrow> string option" where
  "stream_id_from_env [] = None"
| "stream_id_from_env (e # es) =
     (if ev_name e = EnvAgentStreamID \<and> ev_value e \<noteq> [] then Some (ev_value e)
      else stream_id_from_env es)"

fun stream_id_from_containers :: "string \<Rightarrow> container list \<Rightarrow> stream_id_error + string" where
  "stream_id_from_containers name [] = Inl (PodHasNoAgentContainer name)"
| "stream_id_from_containers name (c # cs) =
     (if ct_name c \<noteq> AgentContainerName then stream_id_from_containers name cs
      else (case stream_id_from_env (ct_env c) of
              Some v \<Rightarrow> Inr v
            | None \<Rightarrow> Inl (PodHasNoStreamID name)))"

fun stream_id_from_pod :: "kpod option \<Rightarrow> stream_id_error + string" where
  "stream_id_from_pod None = Inl StreamPodRequired"
| "stream_id_from_pod (Some pod) = stream_id_from_containers (kp_name pod) (kp_containers pod)"

section \<open>Facts\<close>

lemma pod_manifest_InrD:
  assumes "pod_manifest L ref sid str node cfg dl = Inr pod"
  shows "agent_config_validate L (agent_config_with_defaults ref cfg) = [] \<and> sid \<noteq> [] \<and> str \<noteq> []
     \<and> node \<noteq> []"
  using assms by (simp add: pod_manifest_def Let_def split: if_splits)

lemma pod_manifest_fields:
  assumes "pod_manifest L ref sid str node cfg dl = Inr pod"
  shows "kp_generate_name pod = GenerateNamePrefix \<and>
    kp_namespace pod = ac_namespace (agent_config_with_defaults ref cfg) \<and>
    kp_labels pod = [(LabelAppKey, LabelAppValue), (LabelSessionKey, sid), (LabelNodeKey, node)] \<and>
    map ct_name (kp_containers pod) = [AgentContainerName] \<and>
    kp_conditions pod = [] \<and> kp_active_deadline pod = active_deadline_seconds dl"
  using assms by (auto simp: pod_manifest_def Let_def empty_pod_def split: if_splits)

lemma pod_manifest_env:
  "pod_manifest L ref sid str node cfg dl = Inr pod \<Longrightarrow>
   ct_env (hd (kp_containers pod)) = manifest_env sid str node (agent_config_with_defaults ref cfg)"
  by (auto simp: pod_manifest_def Let_def split: if_splits)

text \<open>
  Round trip of the ingest credential: the stream ID the hub reads back from an agent
  pod is the one its manifest was built with, also after the server has named the pod and
  filled in its status.
\<close>

theorem manifest_stream_id_roundtrip:
  assumes "pod_manifest L ref sid str node cfg dl = Inr pod"
    and "kp_containers created = kp_containers pod"
  shows "stream_id_from_pod (Some created) = Inr str"
  using assms
  by (auto simp: pod_manifest_def Let_def manifest_env_def env_value_def env_name_defs
      AgentContainerName_def split: if_splits)

text \<open>
  Every agent pod the hub builds is pinned to its node, carries the three labels the
  hub's selectors use, runs an image that is digest-pinned unless mutable images were
  allowed, never mounts a service-account token, is never restarted, and is privileged only
  when the operator's configuration says so.
\<close>

theorem pod_manifest_hardening:
  assumes "pod_manifest L ref sid str node cfg dl = Inr pod"
  shows "kp_node_name pod = node \<and>
    map_of (kp_labels pod) LabelAppKey = Some LabelAppValue \<and>
    map_of (kp_labels pod) LabelSessionKey = Some sid \<and>
    map_of (kp_labels pod) LabelNodeKey = Some node \<and>
    kp_automount_token pod = Some False \<and> kp_restart_policy pod = ''Never'' \<and>
    list_all (\<lambda>c. ac_allow_mutable_image cfg \<or> is_digest_pinned (ct_image c)) (kp_containers pod) \<and>
    list_all (\<lambda>c. (ct_security c = Some PrivilegedContext) = privileged cfg) (kp_containers pod)"
proof -
  let ?cfg = "agent_config_with_defaults ref cfg"
  from pod_manifest_InrD [OF assms] have "agent_config_validate L ?cfg = []" by simp
  then have "ac_allow_mutable_image ?cfg \<or> is_digest_pinned (ac_image ?cfg)"
    by (simp add: agent_config_validate_def split: if_splits)
  moreover have "ac_allow_mutable_image ?cfg = ac_allow_mutable_image cfg"
    and "privileged ?cfg = privileged cfg"
    by (simp_all add: agent_config_with_defaults_def privileged_def Let_def)
  ultimately show ?thesis
    using assms
    by (auto simp: pod_manifest_def Let_def label_defs agent_security_context_def split: if_splits)
qed

text \<open>
  The deadline of an agent pod: none without a positive duration, otherwise whole
  seconds, at least one, never more than the duration unless that is below a second, and
  short of it by less than a second.
\<close>

theorem active_deadline_bounds:
  "(d \<le> 0 \<longrightarrow> active_deadline_seconds d = None) \<and>
   (0 < d \<longrightarrow> (\<exists>secs. active_deadline_seconds d = Some secs \<and> 1 \<le> secs \<and>
      secs * nanos_per_second \<le> max d nanos_per_second \<and> d < (secs + 1) * nanos_per_second))"
proof -
  have "d < (d div nanos_per_second + 1) * nanos_per_second"
    unfolding nanos_per_second_def by presburger
  moreover have "d div nanos_per_second * nanos_per_second \<le> d"
    unfolding nanos_per_second_def by presburger
  ultimately show ?thesis
    by (auto simp: active_deadline_seconds_def Let_def nanos_per_second_def)
qed

definition demo_manifest :: kpod where
  "demo_manifest = (case pod_manifest demo_lib [] ''s1'' ''str1'' ''n1'' demo_agent_config 1500000000 of
     Inr p \<Rightarrow> p | Inl _ \<Rightarrow> empty_pod)"

lemma demo_agent_config_defaults:
  "agent_config_with_defaults ref demo_agent_config = demo_agent_config"
  by (simp add: agent_config_with_defaults_def demo_agent_config_def Let_def)

lemma demo_manifest_ok:
  "pod_manifest demo_lib [] ''s1'' ''str1'' ''n1'' demo_agent_config 1500000000 = Inr demo_manifest"
  unfolding demo_manifest_def
  by (simp add: pod_manifest_def demo_agent_config_defaults demo_agent_config_valid Let_def)
    (simp add: demo_agent_config_def)

theorem manifest_stream_id_roundtrip_witness:
  "stream_id_from_pod (Some (demo_manifest\<lparr>kp_name := ''k8s-sniffer-x''\<rparr>)) = Inr ''str1''"
  by (rule manifest_stream_id_roundtrip [OF demo_manifest_ok]) simp

theorem pod_manifest_hardening_witness: "kp_node_name demo_manifest = ''n1''"
  using pod_manifest_hardening [OF demo_manifest_ok] by simp

theorem active_deadline_bounds_witness:
  "active_deadline_seconds 0 = None \<and> active_deadline_seconds 1500000000 = Some 1"
  using active_deadline_bounds [of 0] by (simp add: active_deadline_seconds_def nanos_per_second_def)

end
