(* ===== verification/Agent_Config.thy ===== *)
theory Agent_Config imports Agent_Manifest begin

text \<open>
  \<open>pkg/agent/config.go\<close>: the configuration the agent process reads from its environment.
  An error names the environment variable, as the texts of the code do; \<open>Validate\<close> joins
  every error, so it is a list here and success is the empty list.
\<close>

record config =
  cf_session_id :: string
  cf_node :: string
  cf_agent_pod :: string
  cf_stream_id :: string
  cf_hub_addr :: string
  cf_cri_socket :: string

datatype config_error =
  EnvRequired string | EnvNotAPath string string | EnvNotAbsolute string string

definition config_validate :: "config \<Rightarrow> config_error list" where
  "config_validate c =
     (if cf_session_id c = [] then [EnvRequired EnvAgentSessionID] else [])
     @ (if cf_node c = [] then [EnvRequired EnvAgentNode] else [])
     @ (if cf_agent_pod c = [] then [EnvRequired EnvAgentPod] else [])
     @ (if cf_stream_id c = [] then [EnvRequired EnvAgentStreamID] else [])
     @ (if cf_hub_addr c = [] then [EnvRequired EnvAgentHubAddr] else [])
     @ (if cf_cri_socket c = [] then [EnvRequired EnvAgentCRISocket]
        else if contains (cf_cri_socket c) ''://'' then [EnvNotAPath EnvAgentCRISocket (cf_cri_socket c)]
        else if \<not> is_abs (cf_cri_socket c) then [EnvNotAbsolute EnvAgentCRISocket (cf_cri_socket c)]
        else [])"

definition config_from_env :: "(string \<Rightarrow> string) \<Rightarrow> config \<times> config_error list" where
  "config_from_env getenv =
     (let cfg = \<lparr>cf_session_id = getenv EnvAgentSessionID, cf_node = getenv EnvAgentNode,
                 cf_agent_pod = getenv EnvAgentPod, cf_stream_id = getenv EnvAgentStreamID,
                 cf_hub_addr = getenv EnvAgentHubAddr, cf_cri_socket = getenv EnvAgentCRISocket\<rparr>
      in (cfg, config_validate cfg))"

lemma config_validate_Nil_iff:
  "config_validate c = [] \<longleftrightarrow>
     cf_session_id c \<noteq> [] \<and> cf_node c \<noteq> [] \<and> cf_agent_pod c \<noteq> [] \<and> cf_stream_id c \<noteq> [] \<and>
     cf_hub_addr c \<noteq> [] \<and> cf_cri_socket c \<noteq> [] \<and>
     \<not> contains (cf_cri_socket c) ''://'' \<and> is_abs (cf_cri_socket c)"
  by (simp add: config_validate_def)

definition demo_config :: config where
  "demo_config = \<lparr>cf_session_id = ''s1'', cf_node = ''n1'', cf_agent_pod = ''k8s-sniffer-x'',
     cf_stream_id = ''str1'', cf_hub_addr = ''hub:50051'', cf_cri_socket = ''/run/cri.sock''\<rparr>"

lemma demo_config_valid: "config_validate demo_config = []"
  by code_simp

end
