(* ===== verification/Go_Text.thy ===== *)
theory Go_Text imports Go_Prelude begin

text \<open>
  The text functions of Go's standard library that the agent, the sinks and the command line
  use beyond package \<open>strings\<close>: \<open>strconv\<close>, \<open>fmt.Sscanf("%d")\<close>, \<open>strings.Fields\<close>,
  \<open>strings.Trim\<close> of one byte, \<open>strings.IndexAny\<close> of ASCII bytes and
  \<open>bufio.Scanner\<close> with its line splitter.
\<close>

section \<open>Numbers\<close>

definition is_digit :: "char \<Rightarrow> bool" where
  "is_digit c = (48 \<le> byte c \<and> byte c \<le> 57)"

fun digits_value :: "nat \<Rightarrow> string \<Rightarrow> nat" where
  "digits_value acc [] = acc"
| "digits_value acc (c # cs) = digits_value (10 * acc + (byte c - 48)) cs"

text \<open>
  The value \<open>strconv.ParseUint(s, 10, 32)\<close> returns beside its error: zero for a text that is
  no number, the largest word as soon as the digits read so far exceed it.
\<close>

fun parse_uint_loop :: "nat \<Rightarrow> nat \<Rightarrow> string \<Rightarrow> nat" where
  "parse_uint_loop mx acc [] = acc"
| "parse_uint_loop mx acc (c # cs) =
     (if \<not> is_digit c then 0
      else let n = 10 * acc + (byte c - 48) in if n > mx then mx else parse_uint_loop mx n cs)"

definition parse_uint32 :: "string \<Rightarrow> u32" where
  "parse_uint32 s = of_nat (parse_uint_loop (2 ^ 32 - 1) 0 s)"

definition int64_range :: "int \<Rightarrow> bool" where
  "int64_range i = (- (2 ^ 63) \<le> i \<and> i < 2 ^ 63)"

fun sign_of :: "string \<Rightarrow> int \<times> string" where
  "sign_of (c # cs) = (if c = CHR ''-'' then (- 1, cs) else if c = CHR ''+'' then (1, cs) else (1, c # cs))"
| "sign_of [] = (1, [])"

text \<open>\<open>strconv.Atoi\<close>.\<close>

definition atoi :: "string \<Rightarrow> int option" where
  "atoi s = (case sign_of s of (sg, ds) \<Rightarrow>
     if ds = [] \<or> \<not> list_all is_digit ds then None
     else let n = sg * int (digits_value 0 ds) in if int64_range n then Some n else None)"

text \<open>\<open>fmt.Sscanf(s, "%d", &n)\<close>: white space, a sign, at least one digit; the rest is not read.\<close>

definition sscanf_d :: "string \<Rightarrow> int option" where
  "sscanf_d s = (case sign_of (trim_left (remove1 [CHR 0x0A] space_runes) s) of (sg, r) \<Rightarrow>
     let ds = takeWhile is_digit r in
     if ds = [] then None
     else let n = sg * int (digits_value 0 ds) in if int64_range n then Some n else None)"

section \<open>Splitting\<close>

definition trim_byte :: "char \<Rightarrow> string \<Rightarrow> string" where
  "trim_byte c s = rev (dropWhile (\<lambda>x. x = c) (rev (dropWhile (\<lambda>x. x = c) s)))"

fun index_any :: "string \<Rightarrow> string \<Rightarrow> nat option" where
  "index_any [] cs = None"
| "index_any (x # xs) cs = (if x \<in> set cs then Some 0 else map_option Suc (index_any xs cs))"

text \<open>
  \<open>strings.Fields\<close>: the maximal runs of runes that are no white space.  Scanning by bytes is
  the same as scanning by runes, since no white space encoding starts inside another encoding.
\<close>

function str_fields_acc :: "string \<Rightarrow> string \<Rightarrow> string list" where
  "str_fields_acc w s =
     (if s = [] then (if w = [] then [] else [w])
      else let n = leading_space space_runes s in
        if n > 0 then (if w = [] then str_fields_acc [] (drop n s) else w # str_fields_acc [] (drop n s))
        else str_fields_acc (w @ [hd s]) (tl s))"
  by pat_completeness auto
termination
  by (relation "measure (\<lambda>(w, s). length s)") auto

declare str_fields_acc.simps [simp del]

definition str_fields :: "string \<Rightarrow> string list" where
  "str_fields s = str_fields_acc [] s"

text \<open>
  \<open>bufio.Scanner\<close> splitting lines with a buffer of at most \<open>mx\<close> bytes: the lines without
  their terminator and one trailing carriage return, and whether a line that does not fit
  stopped it.
\<close>

abbreviation (input) newline :: char where "newline \<equiv> CHR 0x0A"

definition drop_cr :: "string \<Rightarrow> string" where
  "drop_cr l = (if l \<noteq> [] \<and> last l = CHR 0x0D then butlast l else l)"

fun scan_acc :: "nat \<Rightarrow> string \<Rightarrow> string \<Rightarrow> string list \<times> bool" where
  "scan_acc mx acc [] = (if acc = [] then [] else [drop_cr acc], False)"
| "scan_acc mx acc (c # cs) =
     (if c = newline then (case scan_acc mx [] cs of (ls, e) \<Rightarrow> (drop_cr acc # ls, e))
      else if Suc (length acc) \<ge> mx then ([], True)
      else scan_acc mx (acc @ [c]) cs)"

definition scan_lines :: "nat \<Rightarrow> string \<Rightarrow> string list \<times> bool" where
  "scan_lines mx s = scan_acc mx [] s"

section \<open>Facts\<close>

lemma digits_value_append: "digits_value acc (xs @ ys) = digits_value (digits_value acc xs) ys"
  by (induction xs arbitrary: acc) auto

lemma byte_digit: "d < 10 \<Longrightarrow> byte (char_of (48 + d)) = 48 + d"
  by (simp add: byte_def)

lemma is_digit_char: "(d :: nat) < 10 \<Longrightarrow> is_digit (char_of (48 + d))"
  by (simp add: is_digit_def byte_digit)

lemma show_nat_digits: "list_all is_digit (show_nat n)"
proof (induction n rule: show_nat.induct)
  case (1 n)
  have "is_digit (char_of (48 + n mod 10))" by (rule is_digit_char) simp
  with 1 show ?case by (subst show_nat.simps) (auto simp: is_digit_char)
qed

lemma show_nat_nonempty: "show_nat n \<noteq> []"
  by (subst show_nat.simps) simp

lemma digits_value_show_nat: "digits_value 0 (show_nat n) = n"
proof (induction n rule: show_nat.induct)
  case (1 n)
  have d: "n mod 10 < 10" by simp
  show ?case
    by (subst show_nat.simps) (use 1 in \<open>simp add: digits_value_append byte_digit\<close>)
qed

lemma not_digit_slash: "\<not> is_digit CHR ''/''"
  by code_simp

lemma digit_no_sign: "is_digit c \<Longrightarrow> c \<noteq> CHR ''-'' \<and> c \<noteq> CHR ''+''"
  by (auto simp: is_digit_def byte_def)

lemma sign_of_digits: "list_all is_digit ds \<Longrightarrow> ds \<noteq> [] \<Longrightarrow> sign_of ds = (1, ds)"
  by (cases ds) (auto dest: digit_no_sign)

lemma atoi_show_nat: "int n < 2 ^ 63 \<Longrightarrow> atoi (show_nat n) = Some (int n)"
  by (simp add: atoi_def sign_of_digits show_nat_digits show_nat_nonempty digits_value_show_nat
      int64_range_def Let_def)

lemma leading_space_digit:
  assumes "is_digit c" "list_all (\<lambda>p. p = [] \<longrightarrow> False) sps" "list_all (\<lambda>p. \<not> is_digit (hd p)) sps"
  shows "leading_space sps (c # cs) = 0"
proof -
  have "find (has_prefix (c # cs)) sps = None"
    unfolding find_None_iff
  proof clarsimp
    fix p assume p: "p \<in> set sps" "has_prefix (c # cs) p"
    with assms show False by (cases p) (auto simp: list_all_iff)
  qed
  then show ?thesis by (simp add: leading_space_def)
qed

lemma trim_left_digits:
  assumes "list_all is_digit ds" "ds \<noteq> []"
  shows "trim_left (remove1 [CHR 0x0A] space_runes) (ds @ r) = ds @ r"
proof -
  obtain c cs where ds: "ds = c # cs" using assms by (cases ds) auto
  have z: "leading_space (remove1 [CHR 0x0A] space_runes) (c # cs @ r) = 0"
    by (rule leading_space_digit, use assms ds in simp)
      (simp_all add: space_runes_def is_digit_def byte_def)
  show ?thesis by (subst trim_left.simps) (simp add: ds z)
qed

lemma takeWhile_show_nat: "takeWhile is_digit (show_nat n) = show_nat n"
  using show_nat_digits [of n] by (simp add: list_all_iff)

lemma sscanf_d_show_nat: "int n < 2 ^ 63 \<Longrightarrow> sscanf_d (show_nat n) = Some (int n)"
  using trim_left_digits [OF show_nat_digits show_nat_nonempty, of n "[]"]
  by (simp add: takeWhile_show_nat sscanf_d_def sign_of_digits show_nat_digits show_nat_nonempty
      digits_value_show_nat int64_range_def Let_def)

lemma parse_uint_loop_le: "acc \<le> mx \<Longrightarrow> parse_uint_loop mx acc s \<le> mx"
  by (induction mx acc s rule: parse_uint_loop.induct) (auto simp: Let_def)

lemma parse_uint_loop_small:
  "list_all is_digit s \<Longrightarrow> digits_value acc s \<le> mx \<Longrightarrow> parse_uint_loop mx acc s = digits_value acc s"
proof (induction mx acc s rule: parse_uint_loop.induct)
  case (2 mx acc c cs)
  have mono: "a \<le> digits_value a t" for a t
  proof (induction t arbitrary: a)
    case (Cons c t)
    have "a \<le> 10 * a + (byte c - 48)" by simp
    with Cons [of "10 * a + (byte c - 48)"] show ?case by (simp del: digits_value.simps(1))
  qed simp
  from 2 mono [of "10 * acc + (byte c - 48)" cs] show ?case by (auto simp: Let_def)
qed simp

lemma parse_uint32_show_nat: "n < 2 ^ 32 \<Longrightarrow> parse_uint32 (show_nat n) = of_nat n"
  by (simp add: parse_uint32_def parse_uint_loop_small show_nat_digits digits_value_show_nat)

lemma scan_acc_line:
  assumes "newline \<notin> set l" "length acc + length l < mx"
  shows "scan_acc mx acc (l @ newline # s) =
    (case scan_acc mx [] s of (ls, e) \<Rightarrow> (drop_cr (acc @ l) # ls, e))"
  using assms by (induction l arbitrary: acc) auto

lemma scan_lines_concat:
  assumes "list_all (\<lambda>l. newline \<notin> set l \<and> length l < mx \<and> drop_cr l = l) ls"
  shows "scan_lines mx (concat (map (\<lambda>l. l @ [newline]) ls)) = (ls, False)"
  unfolding scan_lines_def using assms
  by (induction ls) (simp_all add: scan_acc_line)

lemma split_on_free: "sep \<notin> set s \<Longrightarrow> split_on sep s = [s]"
  by (induction s) auto

lemma split_on_append: "sep \<notin> set a \<Longrightarrow> split_on sep (a @ sep # b) = a # split_on sep b"
  by (induction a) auto

end
