(* ===== verification/Bounded_Buffer.thy ===== *)
theory Bounded_Buffer imports Go_Prelude begin

text \<open>
  The contract of the two diagnostic buffers the agent hangs on a child process' stderr:
  what is kept after a write depends only on what was kept before it.  The client's lemma is
  that any sequence of writes keeps what one write of all the bytes would.
\<close>

locale bounded_buffer =
  fixes put :: "string \<Rightarrow> 'b \<Rightarrow> 'b"
    and kept :: "'b \<Rightarrow> string"
    and keep :: "string \<Rightarrow> string"
    and ok :: "'b \<Rightarrow> bool"
  assumes keep_idem: "keep (keep xs @ ys) = keep (xs @ ys)"
    and ok_put: "ok b \<Longrightarrow> ok (put p b)"
    and kept_put: "ok b \<Longrightarrow> kept (put p b) = keep (kept b @ p)"
begin

lemma ok_puts: "ok b \<Longrightarrow> ok (fold put ps b)"
  by (induction ps arbitrary: b) (simp_all add: ok_put)

lemma kept_writes_keep:
  "ok b \<Longrightarrow> keep (kept b) = kept b \<Longrightarrow> kept (fold put ps b) = keep (kept b @ concat ps)"
proof (induction ps arbitrary: b)
  case (Cons p ps)
  have "keep (kept (put p b)) = kept (put p b)"
    using keep_idem [of "kept b @ p" "[]"] Cons.prems by (simp add: kept_put)
  then have "kept (fold put ps (put p b)) = keep (kept (put p b) @ concat ps)"
    using Cons by (simp add: ok_put)
  then show ?case using Cons.prems keep_idem [of "kept b @ p" "concat ps"] by (simp add: kept_put)
qed simp

lemma kept_writes_chunking:
  "ok b \<Longrightarrow> keep (kept b) = kept b \<Longrightarrow> concat ps = concat qs \<Longrightarrow>
   kept (fold put ps b) = kept (fold put qs b)"
  by (simp add: kept_writes_keep)

end

end
