(* ===== verification/Wire_Capture.thy ===== *)
theory Wire_Capture imports Go_Text Sniffer_Api Bounded_Buffer begin

text \<open>
  \<open>pkg/agent/capture\<close>: the \<open>tcpdump\<close> child process (\<open>tcpdump.go\<close>) and the reader of its
  pcap output (\<open>pcap.go\<close>).  The process itself, \<open>pcapgo\<close> and \<open>timestamppb\<close> are not
  part of the repository: starting a process is a field of \<open>os_exec\<close>, what the pcap reader
  returns is a \<open>pcap_read\<close>, and the DLT numbers of \<open>gopacket/layers\<close> are \<open>dlt_codes\<close>.
\<close>

section \<open>Command line\<close>

record tcpdump_cfg =
  td_nsenter_path :: string
  td_tcpdump_path :: string

definition maxStderrBytes :: nat where "maxStderrBytes = 65536"

definition td_nsenter :: "tcpdump_cfg \<Rightarrow> string" where
  "td_nsenter t = (if td_nsenter_path t \<noteq> [] then td_nsenter_path t else ''nsenter'')"

definition td_tcpdump :: "tcpdump_cfg \<Rightarrow> string" where
  "td_tcpdump t = (if td_tcpdump_path t \<noteq> [] then td_tcpdump_path t else ''tcpdump'')"

datatype capture_start_error =
    NetnsPathRequired
  | MultipleInterfaces nat
  | BpfFilterDash
  | TcpdumpStdout string
  | StartTcpdump string

definition command_args ::
    "tcpdump_cfg \<Rightarrow> string \<Rightarrow> u32 \<Rightarrow> string \<Rightarrow> string list \<Rightarrow> capture_start_error + string list" where
  "command_args t netnsPath snaplen bpf0 interfaces =
     (if netnsPath = [] then Inl NetnsPathRequired
      else if length interfaces > 1 then Inl (MultipleInterfaces (length interfaces))
      else
        let iface = (if length interfaces > 0 \<and> trim_space (interfaces ! 0) \<noteq> []
                     then interfaces ! 0 else ''any'');
            bpf = trim_space bpf0 in
        if has_prefix bpf ''-'' then Inl BpfFilterDash
        else
          let args = [''--net='' @ netnsPath, td_tcpdump t, ''-i'', iface, ''-U'', ''-w'', ''-'',
                      ''-s'', show_nat (unat snaplen), ''-q''] in
          Inr (if bpf \<noteq> [] then args @ [''--'', bpf] else args))"

text \<open>What the operating system says: an error of the stdout pipe, and of starting a command.\<close>

record os_exec =
  ox_stdout_pipe :: "string option"
  ox_start :: "string \<Rightarrow> string list \<Rightarrow> string option"

section \<open>The capped stderr buffer\<close>

record capped_buffer =
  cb_buf :: string
  cb_remaining :: nat
  cb_truncated :: bool

definition new_capped_buffer :: "nat \<Rightarrow> capped_buffer" where
  "new_capped_buffer mx = \<lparr>cb_buf = [], cb_remaining = mx, cb_truncated = False\<rparr>"

definition capped_write :: "string \<Rightarrow> capped_buffer \<Rightarrow> capped_buffer" where
  "capped_write p b =
     (let available = cb_remaining b;
          b1 = (if cb_remaining b > 0 then
                  let n = (if length p > cb_remaining b then cb_remaining b else length p) in
                  b\<lparr>cb_buf := cb_buf b @ take n p, cb_remaining := cb_remaining b - n\<rparr>
                else b) in
      if length p > available then b1\<lparr>cb_truncated := True\<rparr> else b1)"

definition capped_string :: "capped_buffer option \<Rightarrow> string" where
  "capped_string mb = (case mb of None \<Rightarrow> []
     | Some b \<Rightarrow> if cb_truncated b then cb_buf b @ CHR 0x0A # ''[stderr truncated]'' else cb_buf b)"

record capture_proc =
  pp_command :: string
  pp_args :: "string list"
  pp_stderr :: capped_buffer

definition tcpdump_start ::
    "os_exec \<Rightarrow> tcpdump_cfg \<Rightarrow> string \<Rightarrow> u32 \<Rightarrow> string \<Rightarrow> string list \<Rightarrow> capture_start_error + capture_proc" where
  "tcpdump_start os t netnsPath snaplen bpf interfaces =
     (case command_args t netnsPath snaplen bpf interfaces of
        Inl e \<Rightarrow> Inl e
      | Inr args \<Rightarrow>
          (case ox_stdout_pipe os of
             Some e \<Rightarrow> Inl (TcpdumpStdout e)
           | None \<Rightarrow>
               (case ox_start os (td_nsenter t) args of
                  Some e \<Rightarrow> Inl (StartTcpdump e)
                | None \<Rightarrow> Inr \<lparr>pp_command = td_nsenter t, pp_args = args,
                                pp_stderr = new_capped_buffer maxStderrBytes\<rparr>)))"

text \<open>\<open>cmdReadCloser.Close\<close>: the error of \<open>Wait\<close>, with what the child said on stderr.\<close>

datatype close_error = TcpdumpExit string | TcpdumpExitMsg string string

definition capture_close :: "string option \<Rightarrow> capped_buffer option \<Rightarrow> close_error option" where
  "capture_close waitErr stderr =
     (case waitErr of None \<Rightarrow> None
      | Some err \<Rightarrow>
          let msg = trim_space (capped_string stderr) in
          Some (if msg \<noteq> [] then TcpdumpExitMsg err msg else TcpdumpExit err))"

section \<open>Reading frames\<close>

record dlt_codes =
  dlt_ethernet :: i32
  dlt_raw :: i32
  dlt_linux_sll :: i32
  dlt_linux_sll2 :: i32

definition link_type_from_dlt :: "dlt_codes \<Rightarrow> i32 \<Rightarrow> link_type" where
  "link_type_from_dlt D dlt =
     (if dlt = dlt_ethernet D then LINK_TYPE_ETHERNET
      else if dlt = dlt_raw D then LINK_TYPE_RAW
      else if dlt = dlt_linux_sll D then LINK_TYPE_LINUX_SLL
      else if dlt = dlt_linux_sll2 D then LINK_TYPE_LINUX_SLL2
      else LINK_TYPE_UNSPECIFIED)"

text \<open>What one \<open>ReadPacketData\<close> of the pcap library returns.\<close>

datatype pcap_read =
    ReadPacket (rp_data: string) (rp_length: int) (rp_time: int)
  | ReadEOF
  | ReadError string

text \<open>\<open>NewPCAPReader\<close> on the link type the library found in the header, or its error.\<close>

definition new_pcap_reader :: "dlt_codes \<Rightarrow> string + i32 \<Rightarrow> string + link_type" where
  "new_pcap_reader D header = (case header of Inl e \<Rightarrow> Inl e | Inr dlt \<Rightarrow> Inr (link_type_from_dlt D dlt))"

text \<open>\<open>ReadFrame\<close>; \<open>newts\<close> is \<open>timestamppb.New\<close>.\<close>

definition read_frame ::
    "(int \<Rightarrow> timestamp) \<Rightarrow> link_type \<Rightarrow> pod_ref option \<Rightarrow> pcap_read \<Rightarrow> pcap_read + packet_frame" where
  "read_frame newts lt pod r =
     (case r of
        ReadPacket data len t \<Rightarrow>
          Inr \<lparr>pf_pod = pod, pf_source = PACKET_SOURCE_WIRE, pf_timestamp = Some (newts t),
               pf_link_type = lt, pf_original_length = word_of_int len, pf_payload = data,
               pf_sequence = 0\<rparr>
      | _ \<Rightarrow> Inl r)"

section \<open>Facts\<close>

definition capped_ok :: "nat \<Rightarrow> capped_buffer \<Rightarrow> bool" where
  "capped_ok mx b = (length (cb_buf b) + cb_remaining b = mx)"

lemma take_take_append: "take n (take n xs @ ys) = take n (xs @ ys)"
  by (cases "length xs \<le> n") simp_all

lemma capped_ok_write: "capped_ok mx b \<Longrightarrow> capped_ok mx (capped_write p b)"
  by (auto simp: capped_ok_def capped_write_def Let_def)

lemma capped_write_buf: "capped_ok mx b \<Longrightarrow> cb_buf (capped_write p b) = take mx (cb_buf b @ p)"
  by (auto simp: capped_ok_def capped_write_def Let_def)

interpretation stderr_buffer: bounded_buffer capped_write cb_buf "take mx" "capped_ok mx" for mx
  by unfold_locales (rule take_take_append capped_ok_write capped_write_buf; assumption?)+

lemma capped_truncated:
  "capped_ok mx b \<Longrightarrow>
   cb_truncated (fold capped_write ps b) \<longleftrightarrow>
     cb_truncated b \<or> cb_remaining b < length (concat ps)"
proof (induction ps arbitrary: b)
  case (Cons p ps)
  have "cb_remaining (capped_write p b) = cb_remaining b - length p"
    "cb_truncated (capped_write p b) \<longleftrightarrow> cb_truncated b \<or> cb_remaining b < length p"
    by (auto simp: capped_write_def Let_def)
  with Cons show ?case by (auto simp: capped_ok_write)
qed simp

lemma new_capped_ok: "capped_ok mx (new_capped_buffer mx)"
  by (simp add: capped_ok_def new_capped_buffer_def)

text \<open>
  The stderr of \<open>tcpdump\<close> is kept up to 64 KiB however the child splits its writes: the
  text reported with the exit error is the first \<open>maxStderrBytes\<close> bytes of all it wrote, with
  the truncation marker exactly when it wrote more.
\<close>

theorem stderr_kept_to_the_cap:
  "capped_string (Some (fold capped_write ps (new_capped_buffer maxStderrBytes))) =
     take maxStderrBytes (concat ps) @
     (if length (concat ps) > maxStderrBytes then CHR 0x0A # ''[stderr truncated]'' else [])"
  using stderr_buffer.kept_writes_keep [OF new_capped_ok, where ps = ps and mx = maxStderrBytes]
    capped_truncated [OF new_capped_ok [of maxStderrBytes], of ps]
  by (simp add: capped_string_def new_capped_buffer_def)

text \<open>
  \<open>tcpdump\<close> cannot be made to read an option from the capture filter: when a command line is
  built it enters the given namespace, names one interface, and a filter comes last and after
  \<open>--\<close>; a filter that begins with a dash is refused.
\<close>

theorem filter_is_never_an_option:
  assumes "command_args t netns snaplen bpf ifs = Inr args"
  shows "hd args = ''--net='' @ netns \<and> netns \<noteq> [] \<and> length ifs \<le> 1 \<and>
    \<not> has_prefix (trim_space bpf) ''-'' \<and>
    (\<exists>iface. args = [''--net='' @ netns, td_tcpdump t, ''-i'', iface, ''-U'', ''-w'', ''-'',
        ''-s'', show_nat (unat snaplen), ''-q''] @
        (if trim_space bpf = [] then [] else [''--'', trim_space bpf]) \<and>
      (iface = ''any'' \<or> ifs = [iface] \<and> trim_space iface \<noteq> []))"
  using assms
  by (cases ifs) (auto simp: command_args_def Let_def split: if_splits)

definition demo_tcpdump :: tcpdump_cfg where
  "demo_tcpdump = \<lparr>td_nsenter_path = [], td_tcpdump_path = []\<rparr>"

definition demo_args :: "string list" where
  "demo_args = [''--net=/proc/42/ns/net'', ''tcpdump'', ''-i'', ''eth0'', ''-U'', ''-w'', ''-'', ''-s'',
     ''262144'', ''-q'', ''--'', ''port 80'']"

theorem filter_is_never_an_option_witness:
  "hd demo_args = ''--net=/proc/42/ns/net'' \<and> last demo_args = ''port 80''"
proof -
  have a: "command_args demo_tcpdump ''/proc/42/ns/net'' 262144 '' port 80 '' [''eth0''] = Inr demo_args"
  proof -
    have t: "trim_space '' port 80 '' = ''port 80''" "trim_space ''eth0'' = ''eth0''" by code_simp+
    have n: "show_nat 262144 = ''262144''" by (simp add: show_nat.simps, code_simp)
    show ?thesis
      by (simp add: command_args_def Let_def t n demo_args_def demo_tcpdump_def td_tcpdump_def)
  qed
  from filter_is_never_an_option [OF a, THEN conjunct1]
  have h: "hd demo_args = ''--net=/proc/42/ns/net''" by simp
  have "last demo_args = ''port 80''" by (simp add: demo_args_def)
  with h show ?thesis by (rule conjI)
qed

lemma read_frame_Inr:
  "read_frame newts lt pod r = Inr f \<Longrightarrow>
     pf_pod f = pod \<and> pf_source f = PACKET_SOURCE_WIRE \<and> pf_link_type f = lt \<and>
     pf_payload f = rp_data r \<and> pf_timestamp f = Some (newts (rp_time r)) \<and>
     pf_original_length f = word_of_int (rp_length r)"
  by (cases r) (auto simp: read_frame_def)

end
