(* ===== verification/Netns_Resolver.thy ===== *)
theory Netns_Resolver imports Go_Text Sniffer_Api "HOL-Library.Multiset" begin

text \<open>
  \<open>pkg/agent/netns\<close>: from a pod's identity to the path of its network namespace.  The CRI
  runtime service, \<open>url.Parse\<close>, the JSON decoder and \<open>sort.Slice\<close> are fields of \<open>cri\<close>; a
  deadline that passes during a call is one of the errors it returns.  \<open>proc_resolver\<close> is what
  the runner relies on.
\<close>

declare map_of_eq_Some_iff [simp del] Some_eq_map_of_iff [simp del]

record sandbox =
  sb_id :: string
  sb_uid :: string
  sb_created :: int

record cri_container =
  cc_id :: string
  cc_name :: string

record url =
  ur_scheme :: string
  ur_path :: string
  ur_opaque :: string
  ur_host :: string

record cri =
  cri_sandboxes :: "(string, string) gomap \<Rightarrow> string + sandbox list"
  cri_containers :: "string \<Rightarrow> string + cri_container list"
  cri_status :: "string \<Rightarrow> string + (string, string) gomap"
  cri_json_pid :: "string \<Rightarrow> string + 64 word"
  cri_sort_sandboxes :: "sandbox list \<Rightarrow> sandbox list"
  cri_sort_containers :: "cri_container list \<Rightarrow> cri_container list"

datatype netns_error =
    EndpointRequired | EndpointParse string | EndpointUnixPath | EndpointTcpHost
  | EndpointScheme string
  | ResolvePodRequired | PodNameRequired | ListSandbox string | NoSandbox string string
  | ListContainersErr string | ContainerNotRunning string string | NoContainer string
  | ContainerStatusErr string | OfContainer string netns_error
  | ParsePid string | ParseInfoJson string | PidNotAvailable
  | NoNetnsForPod string string

section \<open>Endpoints\<close>

definition parse_cri_endpoint ::
    "(string \<Rightarrow> string + url) \<Rightarrow> string \<Rightarrow> netns_error + (string \<times> string)" where
  "parse_cri_endpoint url_parse endpoint0 =
     (let endpoint = trim_space endpoint0 in
      if endpoint = [] then Inl EndpointRequired
      else if \<not> contains endpoint ''://'' then
        (if has_prefix endpoint ''/'' then Inr (''unix'', endpoint) else Inr (''tcp'', endpoint))
      else (case url_parse endpoint of
              Inl e \<Rightarrow> Inl (EndpointParse e)
            | Inr u \<Rightarrow>
                if ur_scheme u = ''unix'' then
                  (let path = (if ur_path u = [] then ur_opaque u else ur_path u) in
                   if path = [] then Inl EndpointUnixPath else Inr (''unix'', path))
                else if ur_scheme u = ''tcp'' then
                  (if ur_host u = [] then Inl EndpointTcpHost else Inr (''tcp'', ur_host u))
                else Inl (EndpointScheme (ur_scheme u))))"

text \<open>
  \<open>NewCRIResolver\<close>: \<open>dial\<close> is \<open>grpc.NewClient\<close> on the target, \<open>version\<close> the \<open>Version\<close>
  call of \<open>pingCRI\<close> on that connection, which is closed when the call fails.
\<close>

datatype cri_dial_error =
  CriEndpoint netns_error | DialCri string string | CriVersionCheck string string

definition new_cri_resolver ::
    "(string \<Rightarrow> string + url) \<Rightarrow> (string \<Rightarrow> string option) \<Rightarrow> (string \<Rightarrow> string option) \<Rightarrow> string
      \<Rightarrow> cri_dial_error + string" where
  "new_cri_resolver url_parse dial version endpoint =
     (case parse_cri_endpoint url_parse endpoint of
        Inl e \<Rightarrow> Inl (CriEndpoint e)
      | Inr (network, addr) \<Rightarrow>
          let target = (if network = ''unix'' then ''passthrough:///'' @ addr else addr) in
          case dial target of
            Some e \<Rightarrow> Inl (DialCri endpoint e)
          | None \<Rightarrow> (case version target of
              Some e \<Rightarrow> Inl (CriVersionCheck endpoint e)
            | None \<Rightarrow> Inr target))"

section \<open>The CRI resolver\<close>

definition sandbox_labels :: "pod_ref \<Rightarrow> (string, string) gomap" where
  "sandbox_labels pod =
     [(''io.kubernetes.pod.name'', pr_name pod), (''io.kubernetes.pod.namespace'', pr_namespace pod)]
     @ (if pr_uid pod \<noteq> [] then [(''io.kubernetes.pod.uid'', pr_uid pod)] else [])"

definition find_sandbox :: "cri \<Rightarrow> pod_ref \<Rightarrow> netns_error + string" where
  "find_sandbox R pod =
     (case cri_sandboxes R (sandbox_labels pod) of
        Inl e \<Rightarrow> Inl (ListSandbox e)
      | Inr items \<Rightarrow>
          (case find (\<lambda>sb. \<not> (pr_uid pod \<noteq> [] \<and> sb_uid sb \<noteq> pr_uid pod))
                  (cri_sort_sandboxes R items) of
             Some sb \<Rightarrow> Inr (sb_id sb)
           | None \<Rightarrow> Inl (NoSandbox (pr_namespace pod) (pr_name pod))))"

definition trim_runtime_prefix :: "string \<Rightarrow> string" where
  "trim_runtime_prefix containerID =
     (case cut containerID ''://'' of (_, cid, ok) \<Rightarrow> if ok then cid else containerID)"

definition workload_containers :: "cri_container list \<Rightarrow> cri_container list" where
  "workload_containers cs =
     (let out = filter (\<lambda>c. cc_name c \<noteq> ''POD'') cs in if length out > 0 then out else cs)"

definition find_workload_container :: "cri \<Rightarrow> string \<Rightarrow> pod_ref \<Rightarrow> netns_error + string" where
  "find_workload_container R sandboxID pod =
     (case cri_containers R sandboxID of
        Inl e \<Rightarrow> Inl (ListContainersErr e)
      | Inr containers \<Rightarrow>
          if pr_container_id pod \<noteq> [] then
            (let containerID = trim_runtime_prefix (pr_container_id pod) in
             case find (\<lambda>c. cc_id c = containerID) containers of
               Some c \<Rightarrow> Inr (cc_id c)
             | None \<Rightarrow> Inl (ContainerNotRunning containerID sandboxID))
          else
            (case cri_sort_containers R (workload_containers containers) of
               [] \<Rightarrow> Inl (NoContainer sandboxID)
             | c # _ \<Rightarrow> Inr (cc_id c)))"

definition parse_info_pid ::
    "(string \<Rightarrow> string + 64 word) \<Rightarrow> (string, string) gomap \<Rightarrow> netns_error + int" where
  "parse_info_pid json_pid info =
     (case map_of info ''info'' of
        None \<Rightarrow> Inl PidNotAvailable
      | Some raw \<Rightarrow>
          if raw = [] then Inl PidNotAvailable
          else (case json_pid raw of
                  Inl e \<Rightarrow> Inl (ParseInfoJson e)
                | Inr p \<Rightarrow> if 0 < sint p then Inr (sint p) else Inl PidNotAvailable))"

definition parse_container_pid ::
    "(string \<Rightarrow> string + 64 word) \<Rightarrow> (string, string) gomap \<Rightarrow> netns_error + int" where
  "parse_container_pid json_pid info =
     (case map_of info ''pid'' of
        None \<Rightarrow> parse_info_pid json_pid info
      | Some pidStr \<Rightarrow>
          if pidStr = [] then parse_info_pid json_pid info
          else (case atoi pidStr of
                  None \<Rightarrow> Inl (ParsePid pidStr)
                | Some pid \<Rightarrow> if 0 < pid then Inr pid else parse_info_pid json_pid info))"

definition container_pid :: "cri \<Rightarrow> string \<Rightarrow> netns_error + int" where
  "container_pid R containerID =
     (case cri_status R containerID of
        Inl e \<Rightarrow> Inl (ContainerStatusErr e)
      | Inr info \<Rightarrow>
          (case parse_container_pid (cri_json_pid R) info of
             Inl e \<Rightarrow> Inl (OfContainer containerID e)
           | Inr pid \<Rightarrow> Inr pid))"

definition netns_path :: "int \<Rightarrow> string" where
  "netns_path pid = ''/proc/'' @ show_int pid @ ''/ns/net''"

definition cri_resolve :: "cri \<Rightarrow> pod_ref option \<Rightarrow> netns_error + string" where
  "cri_resolve R mpod =
     (case mpod of
        None \<Rightarrow> Inl ResolvePodRequired
      | Some pod \<Rightarrow>
          if pr_namespace pod = [] \<or> pr_name pod = [] then Inl PodNameRequired
          else (case find_sandbox R pod of
                  Inl e \<Rightarrow> Inl e
                | Inr sandboxID \<Rightarrow>
                    (case find_workload_container R sandboxID pod of
                       Inl e \<Rightarrow> Inl e
                     | Inr containerID \<Rightarrow>
                         (case container_pid R containerID of
                            Inl e \<Rightarrow> Inl e
                          | Inr pid \<Rightarrow> Inr (netns_path pid)))))"

section \<open>The in-memory resolver\<close>

type_synonym map_resolver = "(string, string) gomap"

definition pod_key :: "pod_ref option \<Rightarrow> string" where
  "pod_key pod = pr_namespace (deref_pod pod) @ ''/'' @ pr_name (deref_pod pod)"

definition map_resolver_set :: "pod_ref option \<Rightarrow> string \<Rightarrow> map_resolver \<Rightarrow> map_resolver" where
  "map_resolver_set pod path m = AList.update (pod_key pod) path m"

definition map_resolve :: "map_resolver \<Rightarrow> pod_ref option \<Rightarrow> netns_error + string" where
  "map_resolve m pod =
     (case map_of m (pod_key pod) of
        None \<Rightarrow> Inl (NoNetnsForPod (pr_namespace (deref_pod pod)) (pr_name (deref_pod pod)))
      | Some path \<Rightarrow> Inr path)"

lemma map_resolve_set:
  "map_resolve (map_resolver_set pod path m) pod' =
     (if pod_key pod' = pod_key pod then Inr path else map_resolve m pod')"
  by (simp add: map_resolve_def map_resolver_set_def update_conv')

section \<open>The resolver interface\<close>

text \<open>A successful resolution is the namespace path of a process of the node.\<close>

locale proc_resolver =
  fixes resolve :: "pod_ref option \<Rightarrow> 'e + string"
  assumes resolve_path:
    "resolve pod = Inr path \<Longrightarrow> \<exists>pid. 0 < pid \<and> int64_range pid \<and> path = netns_path pid"

lemma parse_info_pid_pos: "parse_info_pid J info = Inr pid \<Longrightarrow> 0 < pid \<and> int64_range pid"
  using sint_lt [where 'a = 64] sint_ge [where 'a = 64]
  by (fastforce simp: parse_info_pid_def int64_range_def split: option.splits if_splits sum.splits)

lemma atoi_range: "atoi s = Some i \<Longrightarrow> int64_range i"
  by (auto simp: atoi_def Let_def split: prod.splits if_splits)

lemma parse_container_pid_pos:
  "parse_container_pid J info = Inr pid \<Longrightarrow> 0 < pid \<and> int64_range pid"
  by (auto simp: parse_container_pid_def dest: parse_info_pid_pos atoi_range
      split: option.splits if_splits)

lemma cri_resolve_InrD:
  assumes "cri_resolve R mpod = Inr path"
  obtains pod sid cid info pid where "mpod = Some pod" "pr_namespace pod \<noteq> []" "pr_name pod \<noteq> []"
    "find_sandbox R pod = Inr sid" "find_workload_container R sid pod = Inr cid"
    "cri_status R cid = Inr info" "parse_container_pid (cri_json_pid R) info = Inr pid"
    "path = netns_path pid"
  using assms
  by (auto simp: cri_resolve_def container_pid_def split: option.splits if_splits sum.splits)

interpretation cri_resolver: proc_resolver "cri_resolve R" for R
proof
  fix pod path assume "cri_resolve R pod = Inr path"
  then obtain info pid where "parse_container_pid (cri_json_pid R) info = Inr pid" "path = netns_path pid"
    by (rule cri_resolve_InrD)
  then show "\<exists>pid. 0 < pid \<and> int64_range pid \<and> path = netns_path pid"
    using parse_container_pid_pos by blast
qed

section \<open>Which process\<close>

definition cri_sorts :: "cri \<Rightarrow> bool" where
  "cri_sorts R \<longleftrightarrow>
     (\<forall>xs. mset (cri_sort_sandboxes R xs) = mset xs \<and>
           sorted_wrt (\<lambda>a b. sb_created a \<ge> sb_created b) (cri_sort_sandboxes R xs)) \<and>
     (\<forall>xs. mset (cri_sort_containers R xs) = mset xs)"

lemma find_Some_first:
  "find P xs = Some x \<Longrightarrow> sorted_wrt r xs \<Longrightarrow> x \<in> set xs \<and> P x \<and> (\<forall>y \<in> set xs. P y \<longrightarrow> y = x \<or> r x y)"
  by (induction xs) (auto split: if_splits)

lemma find_sandbox_newest:
  assumes "cri_sorts R" "find_sandbox R pod = Inr sid" "cri_sandboxes R (sandbox_labels pod) = Inr items"
  shows "\<exists>sb \<in> set items. sb_id sb = sid \<and> (pr_uid pod \<noteq> [] \<longrightarrow> sb_uid sb = pr_uid pod) \<and>
    (\<forall>sb' \<in> set items. (pr_uid pod \<noteq> [] \<longrightarrow> sb_uid sb' = pr_uid pod) \<longrightarrow> sb_created sb' \<le> sb_created sb)"
proof -
  let ?P = "\<lambda>sb. \<not> (pr_uid pod \<noteq> [] \<and> sb_uid sb \<noteq> pr_uid pod)"
  obtain sb where sb: "find ?P (cri_sort_sandboxes R items) = Some sb" "sb_id sb = sid"
    using assms(2,3) by (auto simp: find_sandbox_def split: option.splits)
  have srt: "sorted_wrt (\<lambda>a b. sb_created a \<ge> sb_created b) (cri_sort_sandboxes R items)"
    and st: "set (cri_sort_sandboxes R items) = set items"
    using assms(1) by (auto simp: cri_sorts_def dest: mset_eq_setD)
  from find_Some_first [OF sb(1) srt] sb(2) show ?thesis unfolding st by fastforce
qed

lemma workload_containers_subset: "set (workload_containers cs) \<subseteq> set cs"
  by (auto simp: workload_containers_def Let_def)

lemma find_workload_container_running:
  assumes "cri_sorts R" "find_workload_container R sid pod = Inr cid" "cri_containers R sid = Inr cs"
  shows "\<exists>c \<in> set cs. cc_id c = cid \<and>
    (pr_container_id pod = [] \<longrightarrow> cc_name c = ''POD'' \<longrightarrow> (\<forall>c' \<in> set cs. cc_name c' = ''POD''))"
proof (cases "pr_container_id pod = []")
  case True
  have st: "set (cri_sort_containers R (workload_containers cs)) = set (workload_containers cs)"
    using assms(1) by (auto simp: cri_sorts_def dest: mset_eq_setD)
  obtain c r where "cri_sort_containers R (workload_containers cs) = c # r" "cc_id c = cid"
    using assms(2,3) True by (auto simp: find_workload_container_def split: list.splits)
  with st have "c \<in> set (workload_containers cs)" "cc_id c = cid" by auto
  then show ?thesis
    by (intro bexI [of _ c])
      (auto simp: workload_containers_def Let_def filter_empty_conv split: if_splits)
next
  case False
  then show ?thesis using assms(2,3)
    by (auto simp: find_workload_container_def Let_def find_Some_iff split: option.splits
        intro!: bexI nth_mem)
qed


definition demo_pod_ref :: pod_ref where
  "demo_pod_ref = \<lparr>pr_namespace = ''shop'', pr_name = ''web-1'', pr_uid = ''u1'', pr_node = ''n1'',
     pr_container_id = []\<rparr>"

definition demo_cri :: cri where
  "demo_cri = \<lparr>
     cri_sandboxes = (\<lambda>_. Inr [\<lparr>sb_id = ''sb0'', sb_uid = ''u0'', sb_created = 9\<rparr>,
                                \<lparr>sb_id = ''sb1'', sb_uid = ''u1'', sb_created = 7\<rparr>]),
     cri_containers = (\<lambda>_. Inr [\<lparr>cc_id = ''p'', cc_name = ''POD''\<rparr>, \<lparr>cc_id = ''c'', cc_name = ''web''\<rparr>]),
     cri_status = (\<lambda>_. Inr [(''pid'', ''42'')]),
     cri_json_pid = (\<lambda>_. Inl ''no json''),
     cri_sort_sandboxes = rev \<circ> sort_key sb_created,
     cri_sort_containers = (\<lambda>xs. xs)\<rparr>"

lemma demo_cri_sorts: "cri_sorts demo_cri"
proof -
  have "sorted_wrt (\<lambda>a b. sb_created a \<le> sb_created b) (sort_key sb_created xs)" for xs :: "sandbox list"
    using sorted_sort_key [of sb_created xs] by (simp only: sorted_map)
  then show ?thesis by (simp add: cri_sorts_def demo_cri_def sorted_wrt_rev)
qed

lemma demo_cri_resolve: "cri_resolve demo_cri (Some demo_pod_ref) = Inr (netns_path 42)"
proof -
  have a: "atoi ''42'' = Some 42" by code_simp
  show ?thesis
    by (simp add: cri_resolve_def find_sandbox_def find_workload_container_def container_pid_def
        parse_container_pid_def workload_containers_def demo_cri_def demo_pod_ref_def a)
qed


end
