(* ===== verification/Tls_Parse.thy ===== *)
theory Tls_Parse imports Complex_Main Go_Text Sniffer_Api begin

text \<open>
  \<open>pkg/agent/tlsworker/parse.go\<close>: TLS plaintext records out of \<open>ecapture\<close>'s text or JSON
  output.  The JSON decoder and the conversion of a float beyond \<open>uint32\<close>, which Go leaves to
  the implementation, are fields of \<open>parse_lib\<close>.  The two regular expressions are written out:
  \<open>header_line\<close> is \<open>(?i)^(?:.*\s)?PID:\d+\<close> and \<open>pid_comm\<close> the leftmost match of
  \<open>(?i)PID:(\d+).*?Comm:([^\s,]+)\<close>.  A line comes with the time at which it is parsed, and a
  slice out of range, which would end the agent process, is \<open>None\<close>.
\<close>

datatype json = JNull | JBool bool | JNumber rat | JString string | JArray | JObject

record parse_lib =
  pl_json :: "string \<Rightarrow> (string, json) gomap option"
  pl_big_float :: "rat \<Rightarrow> u32"

record parsed_event =
  pe_pid :: u32
  pe_process :: string
  pe_direction :: direction
  pe_payload :: string
  pe_conn_id :: string
  pe_timestamp :: "int option"

definition zero_event :: parsed_event where
  "zero_event = \<lparr>pe_pid = 0, pe_process = [], pe_direction = DIRECTION_UNSPECIFIED,
     pe_payload = [], pe_conn_id = [], pe_timestamp = None\<rparr>"

section \<open>JSON lines\<close>

fun json_string :: "(string, json) gomap \<Rightarrow> string list \<Rightarrow> string" where
  "json_string raw [] = []"
| "json_string raw (k # ks) =
     (case map_of raw k of
        Some (JString s) \<Rightarrow> if s \<noteq> [] then s else json_string raw ks
      | _ \<Rightarrow> json_string raw ks)"

definition json_payload :: "(string, json) gomap \<Rightarrow> string" where
  "json_payload raw = json_string raw [''payload'', ''Payload'', ''data'', ''Data'']"

definition truncate_rat :: "rat \<Rightarrow> int" where
  "truncate_rat v = (if v < 0 then - \<lfloor>- v\<rfloor> else \<lfloor>v\<rfloor>)"

definition float_uint32 :: "parse_lib \<Rightarrow> rat \<Rightarrow> u32" where
  "float_uint32 L v =
     (if truncate_rat v < 2 ^ 32 then word_of_int (truncate_rat v) else pl_big_float L v)"

fun json_uint32 :: "parse_lib \<Rightarrow> (string, json) gomap \<Rightarrow> string list \<Rightarrow> u32" where
  "json_uint32 L raw [] = 0"
| "json_uint32 L raw (k # ks) =
     (case map_of raw k of
        Some (JNumber v) \<Rightarrow> if v > 0 then float_uint32 L v else json_uint32 L raw ks
      | Some (JString s) \<Rightarrow> parse_uint32 s
      | _ \<Rightarrow> json_uint32 L raw ks)"

fun json_direction_keys :: "(string, json) gomap \<Rightarrow> string list \<Rightarrow> direction" where
  "json_direction_keys raw [] = DIRECTION_UNSPECIFIED"
| "json_direction_keys raw (k # ks) =
     (case map_of raw k of
        Some (JNumber v) \<Rightarrow>
          if truncate_rat v = 1 then DIRECTION_INBOUND
          else if truncate_rat v = 0 then DIRECTION_OUTBOUND
          else json_direction_keys raw ks
      | Some (JString v) \<Rightarrow>
          (let s = to_lower v in
           if contains s ''read'' \<or> s = ''inbound'' \<or> s = ''received'' then DIRECTION_INBOUND
           else if contains s ''write'' \<or> s = ''outbound'' \<or> s = ''send'' then DIRECTION_OUTBOUND
           else json_direction_keys raw ks)
      | _ \<Rightarrow> json_direction_keys raw ks)"

definition json_direction :: "(string, json) gomap \<Rightarrow> direction" where
  "json_direction raw = json_direction_keys raw [''eventType'', ''dataType'', ''type'', ''direction'']"

definition parse_json_line :: "parse_lib \<Rightarrow> int \<Rightarrow> string \<Rightarrow> parsed_event option" where
  "parse_json_line L now line0 =
     (let line = trim_space line0 in
      if line = [] \<or> line ! 0 \<noteq> CHR 0x7B then None
      else (case pl_json L line of
              None \<Rightarrow> None
            | Some raw \<Rightarrow>
                let payload = json_payload raw in
                if length payload = 0 then None
                else Some \<lparr>pe_pid = json_uint32 L raw [''pid'', ''Pid'', ''PID''],
                           pe_process = json_string raw [''comm'', ''Comm'', ''process'', ''pname''],
                           pe_direction = json_direction raw,
                           pe_payload = payload,
                           pe_conn_id = json_string raw [''tuple'', ''Tuple'', ''connection_id''],
                           pe_timestamp = Some now\<rparr>))"

section \<open>Text headers\<close>

definition re_space :: "char \<Rightarrow> bool" where
  "re_space c = (c \<in> {CHR 0x09, CHR 0x0A, CHR 0x0C, CHR 0x0D, CHR 0x20})"

definition fold_prefix :: "string \<Rightarrow> string \<Rightarrow> bool" where
  "fold_prefix p s = (map lower_char (take (length p) s) = p)"

definition pid_at :: "string \<Rightarrow> bool" where
  "pid_at s = (fold_prefix ''pid:'' s \<and> (case drop 4 s of [] \<Rightarrow> False | c # _ \<Rightarrow> is_digit c))"

fun header_from :: "bool \<Rightarrow> string \<Rightarrow> bool" where
  "header_from b [] = False"
| "header_from b (c # cs) = (b \<and> pid_at (c # cs) \<or> header_from (re_space c) cs)"

definition header_line :: "string \<Rightarrow> bool" where
  "header_line line = header_from True line"

definition comm_char :: "char \<Rightarrow> bool" where
  "comm_char c = (\<not> re_space c \<and> c \<noteq> CHR '','')"

fun comm_from :: "string \<Rightarrow> string option" where
  "comm_from [] = None"
| "comm_from (c # cs) =
     (if fold_prefix ''comm:'' (c # cs) \<and> takeWhile comm_char (drop 5 (c # cs)) \<noteq> []
      then Some (takeWhile comm_char (drop 5 (c # cs))) else comm_from cs)"

fun pid_comm :: "string \<Rightarrow> (string \<times> string) option" where
  "pid_comm [] = None"
| "pid_comm (c # cs) =
     (if pid_at (c # cs) then
        (let s = drop 4 (c # cs); ds = takeWhile is_digit s in
         case comm_from (dropWhile is_digit s) of
           Some w \<Rightarrow> Some (ds, w)
         | None \<Rightarrow> pid_comm cs)
      else pid_comm cs)"

definition header_pid :: "string \<Rightarrow> parsed_event \<Rightarrow> parsed_event" where
  "header_pid line ev =
     (case pid_comm line of
        Some (ds, w) \<Rightarrow> ev\<lparr>pe_pid := parse_uint32 ds, pe_process := trim_space w\<rparr>
      | None \<Rightarrow> ev)"

definition header_direction :: "string \<Rightarrow> parsed_event \<Rightarrow> parsed_event" where
  "header_direction lower ev =
     (if contains lower ''received'' \<or> contains lower ''ssl_read'' then ev\<lparr>pe_direction := DIRECTION_INBOUND\<rparr>
      else if contains lower ''send'' \<or> contains lower ''ssl_write'' then ev\<lparr>pe_direction := DIRECTION_OUTBOUND\<rparr>
      else ev)"

definition parse_text_header :: "int \<Rightarrow> string \<Rightarrow> parsed_event option" where
  "parse_text_header now line =
     (let lower = to_lower line;
          ev = header_direction lower (header_pid line (zero_event\<lparr>pe_timestamp := Some now\<rparr>)) in
      case index_of lower ''tuple:'' of
        None \<Rightarrow> Some ev
      | Some i \<Rightarrow>
          if length line < i + 6 then None
          else
            let rest = drop (i + 6) line in
            Some (ev\<lparr>pe_conn_id := (case index_any rest '', '' of
                                      Some j \<Rightarrow> trim_space (take j rest)
                                    | None \<Rightarrow> trim_space rest)\<rparr>))"

section \<open>The stream\<close>

text \<open>The header branch of the loop: the new event, with a payload that begins on its line.\<close>

definition inline_payload :: "string \<Rightarrow> parsed_event \<Rightarrow> parsed_event" where
  "inline_payload line ev =
     (case index_of line ''Payload:'' of
        None \<Rightarrow> ev
      | Some i \<Rightarrow>
          let rest = trim_space (drop (i + 8) line) in
          if rest \<noteq> [] then ev\<lparr>pe_payload := rest @ [newline]\<rparr> else ev)"

fun flush_event :: "parsed_event option \<Rightarrow> parsed_event list" where
  "flush_event None = []"
| "flush_event (Some ev) = (if trim_space (pe_payload ev) = [] then [] else [ev])"

definition is_header :: "string \<Rightarrow> bool" where
  "is_header line = (header_line line \<and> contains (to_lower line) ''pid:'')"

definition parse_line ::
    "parse_lib \<Rightarrow> parsed_event option \<Rightarrow> int \<Rightarrow> string \<Rightarrow> (parsed_event list \<times> parsed_event option) option" where
  "parse_line L cur now line =
     (case parse_json_line L now line of
        Some ev \<Rightarrow> Some (flush_event cur @ [ev], None)
      | None \<Rightarrow>
          if is_header line then
            (case parse_text_header now line of
               None \<Rightarrow> None
             | Some ev \<Rightarrow> Some (flush_event cur, Some (inline_payload line ev)))
          else
            Some ([], map_option (\<lambda>ev. ev\<lparr>pe_payload := pe_payload ev @ line @ [newline]\<rparr>) cur))"

fun parse_lines ::
    "parse_lib \<Rightarrow> parsed_event option \<Rightarrow> (int \<times> string) list \<Rightarrow> parsed_event list option" where
  "parse_lines L cur [] = Some (flush_event cur)"
| "parse_lines L cur ((now, line) # ls) =
     (case parse_line L cur now line of
        None \<Rightarrow> None
      | Some (evs, cur') \<Rightarrow> map_option ((@) evs) (parse_lines L cur' ls))"

text \<open>\<open>parseStream\<close> on a stream of these bytes, the \<open>i\<close>-th line parsed at \<open>clock i\<close>.\<close>

definition maxLineBytes :: nat where "maxLineBytes = 2 * 2 ^ 20"

definition parse_stream :: "parse_lib \<Rightarrow> (nat \<Rightarrow> int) \<Rightarrow> string \<Rightarrow> parsed_event list option" where
  "parse_stream L clock data =
     parse_lines L None (map (\<lambda>(i, l). (clock i, l)) (enumerate 0 (fst (scan_lines maxLineBytes data))))"

definition to_proto_event :: "(int \<Rightarrow> timestamp) \<Rightarrow> int \<Rightarrow> pod_ref option \<Rightarrow> parsed_event \<Rightarrow> u64 \<Rightarrow> tls_event" where
  "to_proto_event newts now pod ev seqno =
     (let ts = (case pe_timestamp ev of None \<Rightarrow> now | Some t \<Rightarrow> t) in
      \<lparr>te_pod = pod, te_timestamp = Some (newts ts), te_direction = pe_direction ev,
       te_payload = pe_payload ev, te_connection_id = pe_conn_id ev, te_pid = pe_pid ev,
       te_process = pe_process ev, te_tls_library = ''openssl'', te_sequence = seqno\<rparr>)"

section \<open>Facts\<close>

lemma lower_ascii:
  assumes "list_all (\<lambda>c. byte c < 128) s"
  shows "to_lower s = map lower_char s"
  using assms
proof (induction s)
  case (Cons c s)
  have "map_of lower_resized [c] = None" by (simp add: lower_resized_def)
  with Cons show ?case by (subst to_lower.simps) (simp add: utf8_width_ascii lower_rune_def)
qed (simp add: to_lower.simps)

lemma ascii_header_parses:
  assumes "list_all (\<lambda>c. byte c < 128) line"
  shows "parse_text_header now line \<noteq> None"
  using index_of_Some [of "map lower_char line" "''tuple:''"]
  by (auto simp: parse_text_header_def Let_def lower_ascii [OF assms] split: option.splits)

definition bad_header :: string where
  "bad_header = ''PID:1 '' @ CHR 0xFF # ''tuple:''"

text \<open>
  A header line can end the agent: the index of \<open>tuple:\<close> is found in the lowered line, where
  a byte that is no UTF-8 takes three bytes, and used to slice the line itself, so that one
  such byte before a final \<open>tuple:\<close> slices out of range, whatever the reader and the time.
\<close>

theorem text_header_panics:
  "is_header bad_header \<and> parse_text_header now bad_header = None \<and>
   parse_line L cur now bad_header = None"
proof -
  have "trim_space bad_header ! 0 \<noteq> CHR 0x7B" by code_simp
  then have j: "parse_json_line L now bad_header = None" by (simp add: parse_json_line_def Let_def)
  have h: "is_header bad_header" by code_simp
  have l: "index_of (to_lower bad_header) ''tuple:'' = Some 9" by code_simp
  have n: "length bad_header = 13" by (simp add: bad_header_def)
  have p: "parse_text_header now bad_header = None" by (simp add: parse_text_header_def Let_def l n)
  with h j show ?thesis by (simp add: parse_line_def)
qed

section \<open>Reassembly\<close>

text \<open>A line that belongs to the event before it.\<close>

definition body_line :: "parse_lib \<Rightarrow> int \<times> string \<Rightarrow> bool" where
  "body_line L = (\<lambda>(now, line). parse_json_line L now line = None \<and> \<not> is_header line)"

definition header_event :: "parse_lib \<Rightarrow> int \<times> string \<Rightarrow> parsed_event option" where
  "header_event L = (\<lambda>(now, line).
     if parse_json_line L now line = None \<and> is_header line
     then map_option (inline_payload line) (parse_text_header now line) else None)"

definition body_text :: "(int \<times> string) list \<Rightarrow> string" where
  "body_text ls = concat (map (\<lambda>(_, l). l @ [newline]) ls)"

lemma map_option_append_Nil [simp]: "map_option ((@) []) x = x"
  by (cases x) auto

lemma parse_lines_body:
  assumes "list_all (body_line L) ls"
  shows "parse_lines L (Some ev) (ls @ rest) =
    parse_lines L (Some (ev\<lparr>pe_payload := pe_payload ev @ body_text ls\<rparr>)) rest"
  using assms
proof (induction ls arbitrary: ev)
  case (Cons l ls)
  obtain now line where l: "l = (now, line)" by (cases l)
  with Cons.prems have "parse_line L (Some ev) now line =
      Some ([], Some (ev\<lparr>pe_payload := pe_payload ev @ line @ [newline]\<rparr>))"
    by (simp add: parse_line_def body_line_def)
  with Cons l show ?case by (simp add: body_text_def)
qed (simp add: body_text_def)

lemma parse_lines_header:
  assumes "header_event L h = Some ev"
  shows "parse_lines L cur (h # rest) = map_option ((@) (flush_event cur)) (parse_lines L (Some ev) rest)"
  using assms by (cases h) (auto simp: header_event_def parse_line_def split: if_splits)

text \<open>
  No payload is lost or given to another record: on blocks of a header line and the lines
  that follow it (no JSON records, no headers, none that panics), the records parsed are, in
  order, the header's with the payload of its own block, every line closed by its newline -
  except for blocks of white space only, which yield none.
\<close>

theorem blocks_are_reassembled:
  assumes "list_all (\<lambda>(h, ls). header_event L h \<noteq> None \<and> list_all (body_line L) ls) blocks"
  shows "parse_lines L None (concat (map (\<lambda>(h, ls). h # ls) blocks)) =
    Some (concat (map (\<lambda>(h, ls).
      flush_event (map_option (\<lambda>ev. ev\<lparr>pe_payload := pe_payload ev @ body_text ls\<rparr>) (header_event L h))) blocks))"
proof -
  let ?in = "\<lambda>bs. concat (map (\<lambda>(h, ls). h # ls) bs)"
  let ?out = "\<lambda>bs. concat (map (\<lambda>(h, ls).
    flush_event (map_option (\<lambda>ev. ev\<lparr>pe_payload := pe_payload ev @ body_text ls\<rparr>) (header_event L h))) bs)"
  have "parse_lines L cur (?in blocks) = Some (flush_event cur @ ?out blocks)" for cur
    using assms
  proof (induction blocks arbitrary: cur)
    case (Cons b blocks)
    obtain h ls ev where b: "b = (h, ls)" "header_event L h = Some ev" "list_all (body_line L) ls"
      using Cons.prems by (cases b) auto
    with Cons show ?case by (simp add: parse_lines_header parse_lines_body)
  qed simp
  from this [of None] show ?thesis by simp
qed

section \<open>The reference definition\<close>

text \<open>
  What the records of a stream are, without the record under construction: a JSON line is a
  record of its own, a header line begins one whose payload ends where the body lines after it
  end, and body lines that follow no header are dropped.
\<close>

function block_records :: "parse_lib \<Rightarrow> (int \<times> string) list \<Rightarrow> parsed_event list" where
  "block_records L [] = []"
| "block_records L (l # ls) =
     (case parse_json_line L (fst l) (snd l) of
        Some ev \<Rightarrow> ev # block_records L ls
      | None \<Rightarrow>
          if is_header (snd l)
          then flush_event (map_option (\<lambda>ev. ev\<lparr>pe_payload := pe_payload ev @ body_text (takeWhile (body_line L) ls)\<rparr>)
                 (header_event L l)) @ block_records L (dropWhile (body_line L) ls)
          else block_records L ls)"
  by pat_completeness auto
termination
  by (relation "measure (\<lambda>(L, ls). length ls)") (auto simp: length_dropWhile_le le_imp_less_Suc)

definition line_panics :: "parse_lib \<Rightarrow> int \<times> string \<Rightarrow> bool" where
  "line_panics L l \<longleftrightarrow> parse_json_line L (fst l) (snd l) = None \<and> is_header (snd l) \<and>
     parse_text_header (fst l) (snd l) = None"

lemma block_records_body: "block_records L (dropWhile (body_line L) ls) = block_records L ls"
  by (induction ls) (auto simp: body_line_def split: prod.split)

lemma line_kind:
  "body_line L (now, line) \<longleftrightarrow> parse_json_line L now line = None \<and> \<not> is_header line"
  "line_panics L (now, line) \<longleftrightarrow>
     parse_json_line L now line = None \<and> is_header line \<and> parse_text_header now line = None"
  by (simp_all add: body_line_def line_panics_def)

lemma parse_lines_blocks:
  "parse_lines L cur ls =
     (if list_ex (line_panics L) ls then None
      else Some (flush_event (map_option (\<lambda>ev. ev\<lparr>pe_payload := pe_payload ev @ body_text (takeWhile (body_line L) ls)\<rparr>) cur)
             @ block_records L ls))"
proof (induction ls arbitrary: cur)
  case Nil
  show ?case by (cases cur) (simp_all add: body_text_def)
next
  case (Cons l ls)
  obtain now line where l: "l = (now, line)" by (cases l)
  show ?case
  proof (cases "parse_json_line L now line")
    case (Some ev)
    then show ?thesis
      by (cases cur) (simp_all add: l Cons parse_line_def line_kind body_text_def)
  next
    case None
    show ?thesis
    proof (cases "is_header line")
      case True
      show ?thesis
      proof (cases "parse_text_header now line")
        case None': None
        with None True show ?thesis by (simp add: l parse_line_def line_kind)
      next
        case (Some ev)
        with None True show ?thesis
          by (cases cur) (simp_all add: l Cons parse_line_def line_kind body_text_def
              header_event_def block_records_body)
      qed
    next
      case False
      with None show ?thesis
        by (cases cur) (simp_all add: l Cons parse_line_def line_kind body_text_def)
    qed
  qed
qed

text \<open>The lines of the stream, the \<open>i\<close>-th with the time \<open>clock i\<close> at which it is parsed.\<close>

definition timed_lines :: "(nat \<Rightarrow> int) \<Rightarrow> string \<Rightarrow> (int \<times> string) list" where
  "timed_lines clock data = map (\<lambda>(i, l). (clock i, l)) (enumerate 0 (fst (scan_lines maxLineBytes data)))"


definition demo_parse_lib :: parse_lib where
  "demo_parse_lib = \<lparr>pl_json = (\<lambda>_. None), pl_big_float = (\<lambda>_. 0)\<rparr>"

lemma demo_no_json: "parse_json_line demo_parse_lib now line = None"
  by (simp add: parse_json_line_def demo_parse_lib_def Let_def)

definition demo_header :: string where
  "demo_header = ''UUID:7_7_curl PID:77, Comm:curl, TID:77, Tuple:10.0.0.1:443-10.0.0.2:555, SSL_write''"

theorem blocks_are_reassembled_witness:
  "\<exists>ev. header_event demo_parse_lib (3, demo_header) = Some ev \<and>
     parse_lines demo_parse_lib None [(3, demo_header), (4, ''GET / HTTP/1.1''), (5, '''')] =
       Some (flush_event (Some (ev\<lparr>pe_payload := pe_payload ev @ body_text [(4, ''GET / HTTP/1.1''), (5, '''')]\<rparr>)))"
proof -
  have a: "list_all (\<lambda>c. byte c < 128) demo_header" by code_simp
  have "is_header demo_header" by code_simp
  then obtain ev where ev: "header_event demo_parse_lib (3, demo_header) = Some ev"
    using ascii_header_parses [OF a, of 3]
    by (auto simp: header_event_def demo_no_json)
  have n: "\<not> is_header ''GET / HTTP/1.1''" "\<not> is_header []" by code_simp+
  have b: "list_all (body_line demo_parse_lib) [(4, ''GET / HTTP/1.1''), (5, '''')]"
    by (simp add: body_line_def demo_no_json n)
  have "parse_lines demo_parse_lib None (concat (map (\<lambda>(h, ls). h # ls)
      [((3, demo_header), [(4, ''GET / HTTP/1.1''), (5, '''')])])) =
    Some (concat (map (\<lambda>(h, ls). flush_event (map_option (\<lambda>ev. ev\<lparr>pe_payload := pe_payload ev @ body_text ls\<rparr>)
      (header_event demo_parse_lib h))) [((3, demo_header), [(4, ''GET / HTTP/1.1''), (5, '''')])]))"
    by (rule blocks_are_reassembled) (use ev b in simp)
  with ev show ?thesis by simp
qed

end
