(* ===== verification/Tls_Proc.thy ===== *)
theory Tls_Proc imports Go_Text begin

text \<open>
  \<open>pkg/agent/tlsworker/proc.go\<close>: what the TLS worker reads from the node's \<open>/proc\<close>: the
  OpenSSL library a container maps, the processes of its mount namespace, its cgroup, and the
  process a namespace path names.  The file system is a \<open>proc_fs\<close>.
\<close>

record proc_fs =
  px_readlink :: "string \<Rightarrow> string option"
  px_readdir :: "(string \<times> bool) list option"
  px_readfile :: "string \<Rightarrow> string + string"
  px_exists :: "string \<Rightarrow> bool"

datatype libssl_error =
  SslPidRequired | ReadMaps string | LibsslNotMapped int | MapsLineTooLong

definition proc_file :: "int \<Rightarrow> string \<Rightarrow> string" where
  "proc_file pid name = ''/proc/'' @ show_int pid @ ''/'' @ name"

section \<open>Namespaces\<close>

fun pids_loop ::
    "proc_fs \<Rightarrow> string \<Rightarrow> string \<Rightarrow> int list \<Rightarrow> (string \<times> bool) list \<Rightarrow> int list" where
  "pids_loop fs kind want out [] = out"
| "pids_loop fs kind want out ((name, isdir) # es) =
     (if \<not> isdir then pids_loop fs kind want out es
      else (case sscanf_d name of
              None \<Rightarrow> pids_loop fs kind want out es
            | Some other \<Rightarrow>
                if other \<le> 0 \<or> other \<in> set out then pids_loop fs kind want out es
                else if px_readlink fs (proc_file other (''ns/'' @ kind)) \<noteq> Some want
                then pids_loop fs kind want out es
                else pids_loop fs kind want (out @ [other]) es))"

definition pids_sharing_ns :: "proc_fs \<Rightarrow> int \<Rightarrow> string \<Rightarrow> int list" where
  "pids_sharing_ns fs pid kind =
     (case px_readlink fs (proc_file pid (''ns/'' @ kind)) of
        None \<Rightarrow> [pid]
      | Some want \<Rightarrow>
          (case px_readdir fs of
             None \<Rightarrow> [pid]
           | Some entries \<Rightarrow> pids_loop fs kind want [pid] entries))"

section \<open>The OpenSSL library\<close>

text \<open>\<open>filepath.Join\<close> below a rooted directory, which cleans the result.\<close>

fun clean_parts :: "string list \<Rightarrow> string list \<Rightarrow> string list" where
  "clean_parts acc [] = rev acc"
| "clean_parts acc (p # ps) =
     (if p = [] \<or> p = ''.'' then clean_parts acc ps
      else if p = ''..'' then clean_parts (drop 1 acc) ps
      else clean_parts (p # acc) ps)"

definition join_path :: "string \<Rightarrow> string \<Rightarrow> string" where
  "join_path root p =
     (case clean_parts [] (split_on CHR ''/'' (root @ ''/'' @ p)) of
        [] \<Rightarrow> ''/''
      | ps \<Rightarrow> concat (map (\<lambda>s. CHR ''/'' # s) ps))"

fun maps_loop :: "proc_fs \<Rightarrow> string \<Rightarrow> string list \<Rightarrow> string list \<Rightarrow> string option" where
  "maps_loop fs root seen [] = None"
| "maps_loop fs root seen (line # ls) =
     (if \<not> contains line ''libssl.so'' \<and> \<not> contains line ''libssl-'' then maps_loop fs root seen ls
      else
        let fds = str_fields line in
        if length fds < 6 then maps_loop fs root seen ls
        else
          let mapped = last fds in
          if \<not> has_prefix mapped ''/'' \<or> mapped \<in> set seen then maps_loop fs root seen ls
          else if px_exists fs (join_path root mapped) then Some (join_path root mapped)
          else maps_loop fs root (mapped # seen) ls)"

definition maxTokenSize :: nat where "maxTokenSize = 65536"

definition find_lib_ssl :: "proc_fs \<Rightarrow> int \<Rightarrow> libssl_error + string" where
  "find_lib_ssl fs pid =
     (if pid \<le> 0 then Inl SslPidRequired
      else (case px_readfile fs (proc_file pid ''maps'') of
              Inl e \<Rightarrow> Inl (ReadMaps e)
            | Inr data \<Rightarrow>
                (case scan_lines maxTokenSize data of
                   (ls, tooLong) \<Rightarrow>
                     (case maps_loop fs (proc_file pid ''root'') [] ls of
                        Some p \<Rightarrow> Inr p
                      | None \<Rightarrow> Inl (if tooLong then MapsLineTooLong else LibsslNotMapped pid)))))"

fun first_lib_ssl :: "proc_fs \<Rightarrow> int \<Rightarrow> libssl_error \<Rightarrow> int list \<Rightarrow> libssl_error + string" where
  "first_lib_ssl fs pid firstErr [] = Inl firstErr"
| "first_lib_ssl fs pid firstErr (p # ps) =
     (if p = pid then first_lib_ssl fs pid firstErr ps
      else (case find_lib_ssl fs p of
              Inr lib \<Rightarrow> Inr lib
            | Inl _ \<Rightarrow> first_lib_ssl fs pid firstErr ps))"

definition find_lib_ssl_in_container :: "proc_fs \<Rightarrow> int \<Rightarrow> libssl_error + string" where
  "find_lib_ssl_in_container fs pid =
     (if pid \<le> 0 then Inl SslPidRequired
      else (case find_lib_ssl fs pid of
              Inr lib \<Rightarrow> Inr lib
            | Inl e \<Rightarrow> first_lib_ssl fs pid e (pids_sharing_ns fs pid ''mnt'')))"

section \<open>Cgroup and namespace paths\<close>

fun cgroup_lines :: "string list \<Rightarrow> string" where
  "cgroup_lines [] = []"
| "cgroup_lines (l # ls) =
     (let line = trim_space l in
      if line = [] then cgroup_lines ls
      else if has_prefix line ''0::'' then
        (let p = drop 3 line in
         if p = [] \<or> p = ''/'' then [] else ''/sys/fs/cgroup'' @ p)
      else cgroup_lines ls)"

definition cgroup_path :: "proc_fs \<Rightarrow> int \<Rightarrow> string" where
  "cgroup_path fs pid =
     (case px_readfile fs (proc_file pid ''cgroup'') of
        Inl _ \<Rightarrow> []
      | Inr data \<Rightarrow> cgroup_lines (split_on newline data))"

definition pid_from_netns_path :: "string \<Rightarrow> int" where
  "pid_from_netns_path path =
     (let parts = split_on CHR ''/'' (trim_byte CHR ''/'' path) in
      if length parts \<ge> 3 \<and> parts ! 0 = ''proc'' \<and> parts ! 2 = ''ns'' then
        (if list_all is_digit (parts ! 1) then
           (case sscanf_d (parts ! 1) of Some pid \<Rightarrow> pid | None \<Rightarrow> 0)
         else 0)
      else 0)"

section \<open>Facts\<close>

definition ns_pids :: "proc_fs \<Rightarrow> string \<Rightarrow> string \<Rightarrow> int list \<Rightarrow> bool" where
  "ns_pids fs kind want ps \<longleftrightarrow>
     distinct ps \<and> list_all (\<lambda>p. px_readlink fs (proc_file p (''ns/'' @ kind)) = Some want) ps"

lemma ns_pids_snoc:
  "ns_pids fs kind want ps \<Longrightarrow> p \<notin> set ps \<Longrightarrow>
   px_readlink fs (proc_file p (''ns/'' @ kind)) = Some want \<Longrightarrow> ns_pids fs kind want (ps @ [p])"
  by (simp add: ns_pids_def)

lemma pids_loop_sound:
  "ns_pids fs kind want out \<Longrightarrow> ns_pids fs kind want (pids_loop fs kind want out es)"
proof (induction es arbitrary: out)
  case (Cons e es)
  obtain name isdir where e: "e = (name, isdir)" by (cases e)
  show ?case
  proof (cases "\<exists>p. isdir \<and> sscanf_d name = Some p \<and> 0 < p \<and> p \<notin> set out \<and>
      px_readlink fs (proc_file p (''ns/'' @ kind)) = Some want")
    case True
    then obtain p where p: "isdir" "sscanf_d name = Some p" "0 < p" "p \<notin> set out"
      "px_readlink fs (proc_file p (''ns/'' @ kind)) = Some want" by blast
    have "pids_loop fs kind want out (e # es) = pids_loop fs kind want (out @ [p]) es"
      by (simp only: e pids_loop.simps p option.case) (use p in simp)
    with Cons.IH [OF ns_pids_snoc [OF Cons.prems p(4,5)]] show ?thesis by simp
  next
    case False
    then have "pids_loop fs kind want out (e # es) = pids_loop fs kind want out es"
      by (cases isdir; cases "sscanf_d name") (auto simp only: e pids_loop.simps option.case not_less split: if_split)
    with Cons show ?thesis by simp
  qed
qed simp

lemma maps_loop_exists:
  "maps_loop fs root seen ls = Some p \<Longrightarrow> px_exists fs p \<and> (\<exists>m. p = join_path root m)"
  by (induction fs root seen ls rule: maps_loop.induct) (auto simp: Let_def split: if_splits)

lemma find_lib_ssl_exists:
  "find_lib_ssl fs p = Inr lib \<Longrightarrow> 0 < p \<and> px_exists fs lib \<and> (\<exists>m. lib = join_path (proc_file p ''root'') m)"
  by (auto simp: find_lib_ssl_def dest!: maps_loop_exists split: if_splits sum.splits prod.splits option.splits)

lemma first_lib_ssl_from:
  "first_lib_ssl fs pid e ps = Inr lib \<Longrightarrow> \<exists>p \<in> set ps. find_lib_ssl fs p = Inr lib"
  by (induction fs pid e ps rule: first_lib_ssl.induct) (auto split: if_splits sum.splits)

text \<open>
  The library the uprobes attach to belongs to the container: it exists, below the root
  directory of the target process or of a process in the same mount namespace.
\<close>

theorem libssl_of_the_container:
  assumes "find_lib_ssl_in_container fs pid = Inr lib"
  shows "0 < pid \<and> px_exists fs lib \<and>
    (\<exists>p m. 0 < p \<and> lib = join_path (proc_file p ''root'') m \<and>
       (p = pid \<or> px_readlink fs (proc_file p ''ns/mnt'') = px_readlink fs (proc_file pid ''ns/mnt'')))"
proof (cases "find_lib_ssl fs pid")
  case (Inr l)
  with assms have "l = lib" "0 < pid" by (auto simp: find_lib_ssl_in_container_def split: if_splits)
  with find_lib_ssl_exists [of fs pid lib] Inr show ?thesis by blast
next
  case (Inl e)
  with assms have pos: "0 < pid" and f: "first_lib_ssl fs pid e (pids_sharing_ns fs pid ''mnt'') = Inr lib"
    by (auto simp: find_lib_ssl_in_container_def split: if_splits)
  from first_lib_ssl_from [OF f] obtain p where p: "p \<in> set (pids_sharing_ns fs pid ''mnt'')"
    "find_lib_ssl fs p = Inr lib" by blast
  have "p = pid \<or> px_readlink fs (proc_file p ''ns/mnt'') = px_readlink fs (proc_file pid ''ns/mnt'')"
  proof (cases "px_readlink fs (proc_file pid ''ns/mnt'')")
    case None
    with p(1) show ?thesis by (simp add: pids_sharing_ns_def)
  next
    case (Some want)
    note want = Some
    show ?thesis
    proof (cases "px_readdir fs")
      case None
      with want p(1) show ?thesis by (simp add: pids_sharing_ns_def)
    next
      case (Some es)
      from Some want p(1) have "p \<in> set (pids_loop fs ''mnt'' want [pid] es)"
        by (simp add: pids_sharing_ns_def)
      moreover have "ns_pids fs ''mnt'' want (pids_loop fs ''mnt'' want [pid] es)"
        using want by (intro pids_loop_sound) (simp add: ns_pids_def)
      ultimately have "px_readlink fs (proc_file p ''ns/mnt'') = Some want"
        by (simp add: ns_pids_def list_all_iff)
      with want show ?thesis by simp
    qed
  qed
  with find_lib_ssl_exists [OF p(2)] pos show ?thesis by blast
qed

definition demo_fs :: proc_fs where
  "demo_fs = \<lparr>px_readlink = (\<lambda>p. if p \<in> {''/proc/7/ns/mnt'', ''/proc/8/ns/mnt''} then Some ''mnt:[1]'' else None),
     px_readdir = Some [(''7'', True), (''8'', True), (''fs'', True)],
     px_readfile = (\<lambda>p. if p = ''/proc/8/maps''
        then Inr ''7f-8f r-xp 0 08:01 9 /usr/lib/libssl.so.3'' else Inr []),
     px_exists = (\<lambda>p. p = ''/proc/8/root/usr/lib/libssl.so.3'')\<rparr>"

lemma demo_libssl: "find_lib_ssl_in_container demo_fs 7 = Inr ''/proc/8/root/usr/lib/libssl.so.3''"
proof -
  have f: "proc_file 7 s = ''/proc/7/'' @ s" "proc_file 8 s = ''/proc/8/'' @ s" for s
    by (simp_all add: proc_file_def show_int_def show_nat.simps, code_simp+)
  have sc: "sscanf_d ''7'' = Some 7" "sscanf_d ''8'' = Some 8" "sscanf_d ''fs'' = None" by code_simp+
  have ls: "scan_lines maxTokenSize ''7f-8f r-xp 0 08:01 9 /usr/lib/libssl.so.3'' =
    ([''7f-8f r-xp 0 08:01 9 /usr/lib/libssl.so.3''], False)" "scan_lines maxTokenSize [] = ([], False)"
    by (simp_all add: scan_lines_def maxTokenSize_def drop_cr_def)
  have fd: "str_fields ''7f-8f r-xp 0 08:01 9 /usr/lib/libssl.so.3'' =
    [''7f-8f'', ''r-xp'', ''0'', ''08:01'', ''9'', ''/usr/lib/libssl.so.3'']" by code_simp
  have c: "contains ''7f-8f r-xp 0 08:01 9 /usr/lib/libssl.so.3'' ''libssl.so''" by code_simp
  have j: "join_path ''/proc/8/root'' ''/usr/lib/libssl.so.3'' = ''/proc/8/root/usr/lib/libssl.so.3''" by code_simp
  show ?thesis
    by (simp add: find_lib_ssl_in_container_def find_lib_ssl_def pids_sharing_ns_def demo_fs_def f sc ls fd c j Let_def)
qed

theorem libssl_of_the_container_witness:
  "px_exists demo_fs ''/proc/8/root/usr/lib/libssl.so.3''"
  using libssl_of_the_container [OF demo_libssl] by (rule conjunct1 [OF conjunct2])

end
