(* ===== verification/Tls_Worker.thy ===== *)
theory Tls_Worker imports Tls_Parse Tls_Proc Bounded_Buffer begin

text \<open>
  \<open>pkg/agent/tlsworker/worker.go\<close> and \<open>ecapture.go\<close>: whether and how \<open>ecapture\<close> is started
  for a target, the status each failure is reported as, and the loop that turns parsed
  records into events.  The operating system is \<open>worker_os\<close>; what the loop's \<open>select\<close> can
  receive is \<open>worker_input\<close>, so that a run is any sequence of inputs.
\<close>

section \<open>Targets and statuses\<close>

record tls_target =
  tt_pod :: "pod_ref option"
  tt_pid :: int
  tt_mode :: tls_mode
  tt_session_id :: string

type_synonym worker_status = "tls_status \<times> string"

definition wants_attach :: "tls_mode \<Rightarrow> bool" where
  "wants_attach mode = (mode = TLSModeEBPF \<or> mode = TLSModeAuto \<or> mode = TLSModeKeylog)"

definition classify_exec_error :: "tls_mode \<Rightarrow> string option \<Rightarrow> tls_status" where
  "classify_exec_error mode err =
     (case err of
        None \<Rightarrow> Tls_Unsupported
      | Some e \<Rightarrow>
          let msg = to_lower e in
          if contains msg ''permission'' \<or> contains msg ''operation not permitted'' \<or>
             contains msg ''eperm'' \<or> contains msg ''btf'' \<or> contains msg ''capability''
          then (if mode = TLSModeAuto then Tls_Fallback else Tls_Denied)
          else (if mode = TLSModeAuto then Tls_Fallback else Tls_Unsupported))"

text \<open>
  \<open>sendLatestStatus\<close> on a channel of this capacity; \<open>taken\<close> tells whether the consumer took
  the oldest status before the second and before the third \<open>select\<close>.
\<close>

definition send_latest_status ::
    "nat \<Rightarrow> bool \<times> bool \<Rightarrow> worker_status \<Rightarrow> worker_status list \<Rightarrow> worker_status list" where
  "send_latest_status cap taken st buf =
     (if length buf < cap then buf @ [st]
      else
        let buf1 = (if fst taken then tl buf else buf);
            buf2 = (if buf1 = [] then buf1 else tl buf1);
            buf3 = (if snd taken then tl buf2 else buf2) in
        if length buf3 < cap then buf3 @ [st] else buf3)"

section \<open>The stderr tail\<close>

record limited_buffer =
  lb_max :: int
  lb_buf :: string

definition limited_write :: "string \<Rightarrow> limited_buffer \<Rightarrow> limited_buffer" where
  "limited_write p b =
     (let buf = lb_buf b @ p in
      if lb_max b > 0 \<and> int (length buf) > lb_max b
      then b\<lparr>lb_buf := drop (nat (int (length buf) - lb_max b)) buf\<rparr>
      else b\<lparr>lb_buf := buf\<rparr>)"

definition stderr_tail :: int where "stderr_tail = 4096"

definition suffix_of :: "int \<Rightarrow> string \<Rightarrow> string" where
  "suffix_of mx s = (if mx > 0 then drop (nat (int (length s) - mx)) s else s)"

lemma suffix_of_nat: "suffix_of mx s = (if mx > 0 then drop (length s - nat mx) s else s)"
  by (auto simp: suffix_of_def nat_diff_distrib')

lemma drop_suffix_append:
  "drop (length (drop (length xs - m) xs @ ys) - m) (drop (length xs - m) xs @ ys) =
   drop (length (xs @ ys) - m) (xs @ ys)"
  by (cases "length xs \<le> m") (simp_all add: add.commute)

lemma suffix_of_append: "suffix_of mx (suffix_of mx xs @ ys) = suffix_of mx (xs @ ys)"
  using drop_suffix_append [of xs "nat mx" ys] by (simp add: suffix_of_nat del: length_append length_drop)

interpretation exit_buffer: bounded_buffer limited_write lb_buf "suffix_of mx" "\<lambda>b. lb_max b = mx" for mx
  by unfold_locales (rule suffix_of_append, auto simp: limited_write_def suffix_of_def Let_def)

section \<open>Starting\<close>

record ecapture =
  ec_binary :: string
  ec_look_libssl :: "int \<Rightarrow> string + string"
  ec_cgroup_path :: "int \<Rightarrow> string"

record worker_os =
  wo_look_path :: "string \<Rightarrow> bool"
  wo_stdout_pipe :: "string option"
  wo_stderr_pipe :: "string option"
  wo_start :: "string \<Rightarrow> string list \<Rightarrow> string option"

definition ec_command :: "ecapture \<Rightarrow> string" where
  "ec_command e = (if ec_binary e \<noteq> [] then ec_binary e else ''ecapture'')"

text \<open>
  What \<open>Attach\<close> does: no worker and no status, no worker and one status, or a running child.
\<close>

datatype attach_plan =
    AttachNothing
  | AttachStatus worker_status
  | AttachRunning string "string list"

definition ecapture_args :: "ecapture \<Rightarrow> int \<Rightarrow> string \<Rightarrow> string list" where
  "ecapture_args e pid libssl =
     [''tls'', ''-m'', ''text'', ''--libssl'', libssl]
     @ (if ec_cgroup_path e pid \<noteq> [] then [''--cgroup_path'', ec_cgroup_path e pid] else [])"

definition launch :: "worker_os \<Rightarrow> tls_mode \<Rightarrow> string \<Rightarrow> string list \<Rightarrow> attach_plan" where
  "launch os mode bin args =
     (case wo_stdout_pipe os of
        Some err \<Rightarrow> AttachStatus (classify_exec_error mode (Some err), err)
      | None \<Rightarrow>
          (case wo_stderr_pipe os of
             Some err \<Rightarrow> AttachStatus (classify_exec_error mode (Some err), err)
           | None \<Rightarrow>
               (case wo_start os bin args of
                  Some err \<Rightarrow> AttachStatus (classify_exec_error mode (Some err), err)
                | None \<Rightarrow> AttachRunning bin args)))"

definition keylog_detail :: string where
  "keylog_detail = ''keylog mode: provide SSLKEYLOGFILE / --keylog-file for Wireshark''"

definition attach :: "worker_os \<Rightarrow> ecapture \<Rightarrow> tls_target \<Rightarrow> attach_plan" where
  "attach os e t =
     (if tt_mode t = TLSModeKeylog then AttachStatus (Tls_Fallback, keylog_detail)
      else if \<not> (tt_mode t = TLSModeEBPF \<or> tt_mode t = TLSModeAuto) then AttachNothing
      else if tt_pid t \<le> 0 then AttachStatus (Tls_Unsupported, ''container pid unknown'')
      else if \<not> wo_look_path os (ec_command e) then
        AttachStatus (if tt_mode t = TLSModeAuto then Tls_Fallback else Tls_Unsupported,
                      ''ecapture binary not found'')
      else (case ec_look_libssl e (tt_pid t) of
              Inl err \<Rightarrow> AttachStatus (Tls_Unsupported, err)
            | Inr libssl \<Rightarrow>
                launch os (tt_mode t) (ec_command e) (ecapture_args e (tt_pid t) libssl)))"

text \<open>The defaults of \<open>LookLibSSL\<close> and \<open>CgroupPath\<close>, with the text of each error.\<close>

fun libssl_error_text :: "libssl_error \<Rightarrow> string" where
  "libssl_error_text SslPidRequired = ''pid: required''"
| "libssl_error_text (ReadMaps e) = ''read maps: '' @ e"
| "libssl_error_text (LibsslNotMapped pid) = ''libssl.so not mapped in pid '' @ show_int pid"
| "libssl_error_text MapsLineTooLong = ''bufio.Scanner: token too long''"

definition default_ecapture :: "proc_fs \<Rightarrow> string \<Rightarrow> ecapture" where
  "default_ecapture fs bin =
     \<lparr>ec_binary = bin,
      ec_look_libssl = (\<lambda>pid. map_sum libssl_error_text id (find_lib_ssl_in_container fs pid)),
      ec_cgroup_path = cgroup_path fs\<rparr>"

section \<open>The event loop\<close>

text \<open>
  One turn of the \<open>select\<close>: the context ended, the child exited (its error, the context's
  state then), a parsed record (whether the consumer takes the event before the context ends),
  or the parsers are done.
\<close>

datatype worker_input =
    WorkerCtxDone
  | WorkerExit "string option" bool
  | WorkerParsed parsed_event bool
  | WorkerParsersDone

record worker_state =
  wk_active :: bool
  wk_seq :: u64
  wk_events :: "tls_event list"
  wk_statuses :: "worker_status list"
  wk_done :: bool

definition worker_init :: worker_state where
  "worker_init = \<lparr>wk_active = False, wk_seq = 0, wk_events = [], wk_statuses = [], wk_done = False\<rparr>"

definition exit_status :: "tls_mode \<Rightarrow> string option \<Rightarrow> string \<Rightarrow> worker_status" where
  "exit_status mode err stderr =
     (let extra = trim_space stderr;
          detail0 = (case err of None \<Rightarrow> ''ecapture exited'' | Some e \<Rightarrow> e) in
      if extra \<noteq> [] then
        (classify_exec_error mode
           (Some (case err of Some e \<Rightarrow> e @ '': '' @ extra | None \<Rightarrow> extra)), extra)
      else (classify_exec_error mode err, detail0))"

text \<open>
  \<open>newts\<close> is \<open>timestamppb.New\<close>, \<open>stderr\<close> what the exit buffer holds; \<open>wk_statuses\<close> lists
  the statuses handed to \<open>sendLatestStatus\<close>, \<open>wk_events\<close> the events sent.
\<close>

fun worker_step ::
    "(int \<Rightarrow> timestamp) \<Rightarrow> int \<Rightarrow> string \<Rightarrow> tls_target \<Rightarrow> worker_input \<Rightarrow> worker_state \<Rightarrow> worker_state" where
  "worker_step newts now stderr t WorkerCtxDone s =
     (if wk_done s then s else s\<lparr>wk_done := True\<rparr>)"
| "worker_step newts now stderr t (WorkerExit err ctxDone) s =
     (if wk_done s then s
      else if ctxDone then s\<lparr>wk_done := True\<rparr>
      else s\<lparr>wk_done := True, wk_statuses := wk_statuses s @ [exit_status (tt_mode t) err stderr]\<rparr>)"
| "worker_step newts now stderr t (WorkerParsed ev sent) s =
     (if wk_done s then s
      else
        let s1 = (if wk_active s then s
                  else s\<lparr>wk_active := True, wk_statuses := wk_statuses s @ [(Tls_Active, ''ecapture attached'')]\<rparr>);
            s2 = s1\<lparr>wk_seq := wk_seq s1 + 1\<rparr>;
            ev1 = (if pe_pid ev = 0 then ev\<lparr>pe_pid := word_of_int (tt_pid t)\<rparr> else ev) in
        if sent then s2\<lparr>wk_events := wk_events s2 @ [to_proto_event newts now (tt_pod t) ev1 (wk_seq s2)]\<rparr>
        else s2\<lparr>wk_done := True\<rparr>)"
| "worker_step newts now stderr t WorkerParsersDone s = s"

definition worker_run ::
    "(int \<Rightarrow> timestamp) \<Rightarrow> int \<Rightarrow> string \<Rightarrow> tls_target \<Rightarrow> worker_input list \<Rightarrow> worker_state" where
  "worker_run newts now stderr t ins = fold (worker_step newts now stderr t) ins worker_init"

section \<open>Facts\<close>

lemma send_latest_keeps_newest:
  assumes "0 < cap" "length buf \<le> cap"
  shows "last (send_latest_status cap taken st buf) = st \<and>
    length (send_latest_status cap taken st buf) \<le> cap"
  using assms by (cases buf) (auto simp: send_latest_status_def Let_def)

lemma classify_not_active: "classify_exec_error mode err \<noteq> Tls_Active"
  by (simp add: classify_exec_error_def Let_def split: option.split)

lemma exit_not_active: "fst (exit_status mode err stderr) \<noteq> Tls_Active"
  by (simp add: exit_status_def Let_def classify_not_active)

definition active_status :: "bool \<Rightarrow> worker_status list" where
  "active_status active = (if active then [(Tls_Active, ''ecapture attached'')] else [])"

definition worker_inv :: "tls_target \<Rightarrow> worker_state \<Rightarrow> bool" where
  "worker_inv t s \<longleftrightarrow>
     map te_sequence (wk_events s) = map of_nat [1..<Suc (length (wk_events s))] \<and>
     list_all (\<lambda>e. te_pod e = tt_pod t) (wk_events s) \<and>
     (wk_events s \<noteq> [] \<longrightarrow> wk_active s) \<and>
     (\<not> wk_done s \<longrightarrow> wk_seq s = of_nat (length (wk_events s)) \<and> wk_statuses s = active_status (wk_active s)) \<and>
     (\<exists>final. wk_statuses s = active_status (wk_active s) @ final \<and> length final \<le> 1 \<and>
        list_all (\<lambda>st. fst st \<noteq> Tls_Active) final)"

lemma worker_init_inv: "worker_inv t worker_init"
  by (simp add: worker_inv_def worker_init_def active_status_def)

lemma worker_done_inv: "worker_inv t s \<Longrightarrow> worker_inv t (s\<lparr>wk_done := True\<rparr>)"
  by (auto simp: worker_inv_def)

lemma worker_exit_inv:
  assumes "worker_inv t s" "\<not> wk_done s" "fst st \<noteq> Tls_Active"
  shows "worker_inv t (s\<lparr>wk_done := True, wk_statuses := wk_statuses s @ [st]\<rparr>)"
  using assms by (auto simp: worker_inv_def)

lemma worker_activate_inv:
  assumes "worker_inv t s" "\<not> wk_done s" "\<not> wk_active s"
  shows "worker_inv t (s\<lparr>wk_active := True, wk_statuses := wk_statuses s @ active_status True\<rparr>)"
  using assms by (auto simp: worker_inv_def active_status_def)

lemma worker_event_inv:
  assumes "worker_inv t s" "\<not> wk_done s" "wk_active s" "te_pod e = tt_pod t" "te_sequence e = wk_seq s + 1"
  shows "worker_inv t (s\<lparr>wk_seq := wk_seq s + 1, wk_events := wk_events s @ [e]\<rparr>)"
  using assms by (auto simp: worker_inv_def add.commute)

lemma worker_unsent_inv:
  assumes "worker_inv t s" "\<not> wk_done s"
  shows "worker_inv t (s\<lparr>wk_seq := wk_seq s + 1, wk_done := True\<rparr>)"
  using assms by (auto simp: worker_inv_def)

lemma worker_step_inv:
  assumes "worker_inv t s"
  shows "worker_inv t (worker_step newts now stderr t i s)"
proof (cases "wk_done s")
  case True
  with assms show ?thesis by (cases i) simp_all
next
  case False
  show ?thesis
  proof (cases i)
    case (WorkerParsed ev sent)
    define s1 where "s1 = (if wk_active s then s
      else s\<lparr>wk_active := True, wk_statuses := wk_statuses s @ active_status True\<rparr>)"
    have s1: "worker_inv t s1" "\<not> wk_done s1" "wk_active s1"
      using worker_activate_inv [OF assms False] assms False by (simp_all add: s1_def)
    have s1': "s1 = (if wk_active s then s
      else s\<lparr>wk_active := True, wk_statuses := wk_statuses s @ [(Tls_Active, ''ecapture attached'')]\<rparr>)"
      by (simp add: s1_def active_status_def)
    show ?thesis
      using worker_unsent_inv [OF s1(1,2)] worker_event_inv [OF s1]
      by (simp add: WorkerParsed False Let_def to_proto_event_def flip: s1')
  qed (use assms False in \<open>simp_all add: worker_done_inv worker_exit_inv exit_not_active\<close>)
qed

inductive worker_next :: "tls_target \<Rightarrow> worker_state \<Rightarrow> worker_state \<Rightarrow> bool" for t where
  worker_next: "worker_next t s (worker_step newts now stderr t i s)"

interpretation worker_sys: invariant_system "\<lambda>s. s = worker_init" "worker_next t" "worker_inv t" for t
  by unfold_locales (auto simp: worker_init_inv elim!: worker_next.cases intro: worker_step_inv)

lemma worker_run_reachable: "(worker_next t)\<^sup>*\<^sup>* s (fold (worker_step newts now stderr t) ins s)"
proof (induction ins arbitrary: s)
  case (Cons i ins)
  show ?case unfolding fold.simps o_apply
    by (rule converse_rtranclp_into_rtranclp [OF worker_next Cons.IH])
qed simp

text \<open>
  C32. What a TLS worker reports, whatever its \<open>select\<close> receives and in whatever order: the
  events it sent are numbered 1, 2, ... without a gap and name the target's pod; the statuses
  are ACTIVE first exactly when a record was parsed, then at most one more, which is not
  ACTIVE - so no event is sent before ACTIVE and none after the final status.
\<close>

theorem worker_reports_consistent:
  "\<exists>active final.
     wk_statuses (worker_run newts now stderr t ins) = active_status active @ final \<and> length final \<le> 1 \<and>
     list_all (\<lambda>st. fst st \<noteq> Tls_Active) final \<and>
     (wk_events (worker_run newts now stderr t ins) = [] \<or> active) \<and>
     map te_sequence (wk_events (worker_run newts now stderr t ins)) =
       map of_nat [1..<Suc (length (wk_events (worker_run newts now stderr t ins)))] \<and>
     list_all (\<lambda>e. te_pod e = tt_pod t) (wk_events (worker_run newts now stderr t ins))"
proof -
  have "worker_inv t (worker_run newts now stderr t ins)"
    unfolding worker_run_def by (rule worker_sys.reachable_inv [OF refl worker_run_reachable])
  then show ?thesis by (auto simp: worker_inv_def)
qed

text \<open>
  Attaching never fails the wire capture and never guesses: a child is started only in
  eBPF or auto mode, for a known pid, with a binary that exists and a library found for that
  pid; every other outcome is no status (TLS off) or one status that is not ACTIVE, and in auto
  mode a missing binary or an execution error is reported as fallback.
\<close>

theorem attach_outcomes:
  "case attach os e t of
     AttachNothing \<Rightarrow> tt_mode t \<notin> {TLSModeEBPF, TLSModeAuto, TLSModeKeylog} \<and> \<not> wants_attach (tt_mode t)
   | AttachStatus st \<Rightarrow> fst st \<in> {Tls_Fallback, Tls_Unsupported, Tls_Denied} \<and>
       (fst st = Tls_Denied \<longrightarrow> tt_mode t = TLSModeEBPF) \<and> wants_attach (tt_mode t)
   | AttachRunning bin args \<Rightarrow> tt_mode t \<in> {TLSModeEBPF, TLSModeAuto} \<and> 0 < tt_pid t \<and>
       bin = ec_command e \<and> wo_look_path os bin \<and>
       (\<exists>lib. ec_look_libssl e (tt_pid t) = Inr lib \<and> args = ecapture_args e (tt_pid t) lib) \<and>
       wo_start os bin args = None"
  by (auto simp: attach_def launch_def wants_attach_def classify_exec_error_def Let_def tls_mode_defs
      split: sum.splits option.splits)

definition demo_target :: tls_target where
  "demo_target = \<lparr>tt_pod = None, tt_pid = 7, tt_mode = TLSModeAuto, tt_session_id = ''s1''\<rparr>"

definition demo_os :: worker_os where
  "demo_os = \<lparr>wo_look_path = (\<lambda>_. True), wo_stdout_pipe = None, wo_stderr_pipe = None,
     wo_start = (\<lambda>_ _. None)\<rparr>"

theorem attach_outcomes_witness:
  "attach demo_os (default_ecapture demo_fs []) demo_target =
     AttachRunning ''ecapture'' [''tls'', ''-m'', ''text'', ''--libssl'', ''/proc/8/root/usr/lib/libssl.so.3''] \<and>
   (\<exists>lib. ec_look_libssl (default_ecapture demo_fs []) 7 = Inr lib)"
proof -
  have cg: "cgroup_path demo_fs 7 = []"
    by (simp add: cgroup_path_def demo_fs_def proc_file_def show_int_def show_nat.simps trim_space_def trim_left.simps)
  have a: "attach demo_os (default_ecapture demo_fs []) demo_target =
     AttachRunning ''ecapture'' [''tls'', ''-m'', ''text'', ''--libssl'', ''/proc/8/root/usr/lib/libssl.so.3'']"
    by (simp add: attach_def demo_target_def demo_os_def default_ecapture_def demo_libssl launch_def
        ec_command_def ecapture_args_def cg tls_mode_defs)
  then show ?thesis
    using attach_outcomes [where os = demo_os and e = "default_ecapture demo_fs []" and t = demo_target]
    by (auto simp: demo_target_def)
qed

end
