(* ===== verification/Discovery.thy ===== *)
theory Discovery imports Kube Capture_Spec "HOL-Library.Multiset" begin

text \<open>
  \<open>pkg/hub/discovery\<close>: which pods of a namespace a session captures, and their grouping by
  node.  \<open>byNode\<close> and \<open>order\<close> of \<open>GroupByNode\<close> are the state of the loop; the
  reference is the specification \<open>group_spec\<close>, one group per node in order of first
  appearance with exactly that node's pods.
\<close>

section \<open>Matching\<close>

definition new_pod_matcher :: "'re ext_lib \<Rightarrow> spec \<Rightarrow> spec_error + 're list" where
  "new_pod_matcher L s =
     (case compile_patterns L s of Inl e \<Rightarrow> Inl e | Inr patterns \<Rightarrow> Inr patterns)"

fun match_name :: "'re ext_lib \<Rightarrow> 're list \<Rightarrow> string \<Rightarrow> bool" where
  "match_name L [] name = False"
| "match_name L (re # res) name = (if regexp_match L re name then True else match_name L res name)"

definition is_running :: "kpod option \<Rightarrow> bool" where
  "is_running pod = (case pod of None \<Rightarrow> False | Some p \<Rightarrow> kp_phase p = PodRunning)"

definition pod_ref_from_pod :: "kpod \<Rightarrow> pod_ref" where
  "pod_ref_from_pod p =
     \<lparr>pr_namespace = kp_namespace p, pr_name = kp_name p, pr_uid = kp_uid p,
      pr_node = kp_node_name p, pr_container_id = []\<rparr>"

datatype discovery_error =
  MatcherRequired | DiscoveryNamespaceRequired | ListPods string api_error

fun keep_matching :: "'re ext_lib \<Rightarrow> 're list \<Rightarrow> kpod list \<Rightarrow> kpod list" where
  "keep_matching L m [] = []"
| "keep_matching L m (p # ps) =
     (if \<not> is_running (Some p) then keep_matching L m ps
      else if kp_deleting p then keep_matching L m ps
      else if \<not> match_name L m (kp_name p) then keep_matching L m ps
      else p # keep_matching L m ps)"

definition list_matching_pods ::
    "'re ext_lib \<Rightarrow> 'w kube \<Rightarrow> string \<Rightarrow> 're list option \<Rightarrow> 'w
       \<Rightarrow> (discovery_error + kpod list) \<times> 'w" where
  "list_matching_pods L K ns matcher w =
     (case matcher of
        None \<Rightarrow> (Inl MatcherRequired, w)
      | Some m \<Rightarrow>
          if ns = [] then (Inl DiscoveryNamespaceRequired, w)
          else (case k_list K ns [] w of
                  (Inl e, w') \<Rightarrow> (Inl (ListPods ns e), w')
                | (Inr items, w') \<Rightarrow> (Inr (keep_matching L m items), w')))"

section \<open>Grouping\<close>

record skipped_pod =
  sk_pod :: pod_ref
  sk_reason :: string

record node_group =
  ng_node :: string
  ng_targets :: "pod_ref list"

definition SkipReasonNoNode :: string where
  "SkipReasonNoNode = ''pod has no nodeName assigned''"

fun group_loop ::
    "kpod list \<Rightarrow> (string, pod_ref list) gomap \<Rightarrow> string list \<Rightarrow> skipped_pod list
       \<Rightarrow> (string, pod_ref list) gomap \<times> string list \<times> skipped_pod list" where
  "group_loop [] byNode order skipped = (byNode, order, skipped)"
| "group_loop (pod # pods) byNode order skipped =
     (let ref = pod_ref_from_pod pod; node = kp_node_name pod in
      if node = [] then
        group_loop pods byNode order (skipped @ [\<lparr>sk_pod = ref, sk_reason = SkipReasonNoNode\<rparr>])
      else
        let ref' = ref\<lparr>pr_node := node\<rparr>;
            order' = (if map_of byNode node = None then order @ [node] else order);
            old = (case map_of byNode node of None \<Rightarrow> [] | Some ts \<Rightarrow> ts)
        in group_loop pods (AList.update node (old @ [ref']) byNode) order' skipped)"

definition group_by_node :: "kpod list \<Rightarrow> node_group list \<times> skipped_pod list" where
  "group_by_node pods =
     (case group_loop pods [] [] [] of
        (byNode, order, skipped) \<Rightarrow>
          (map (\<lambda>node. \<lparr>ng_node = node,
                   ng_targets = (case map_of byNode node of None \<Rightarrow> [] | Some ts \<Rightarrow> ts)\<rparr>) order,
           skipped))"

definition group_matching_pods ::
    "'re ext_lib \<Rightarrow> kpod list \<Rightarrow> 're list \<Rightarrow> node_group list \<times> skipped_pod list" where
  "group_matching_pods L pods m =
     group_by_node
       (filter (\<lambda>p. \<not> (\<not> is_running (Some p) \<or> kp_deleting p \<or> \<not> match_name L m (kp_name p))) pods)"

section \<open>Facts\<close>

lemma match_name_iff: "match_name L res name \<longleftrightarrow> (\<exists>re \<in> set res. regexp_match L re name)"
  by (induction L res name rule: match_name.induct) auto

lemma keep_matching_filter:
  "keep_matching L m ps =
     filter (\<lambda>p. kp_phase p = PodRunning \<and> \<not> kp_deleting p \<and> match_name L m (kp_name p)) ps"
  by (induction ps) (auto simp: is_running_def)

text \<open>
  What \<open>ListMatchingPods\<close> returns is, in the server's order, exactly the pods of the
  listed namespace that are Running, not being deleted, and whose name some pattern matches.
\<close>

theorem list_matching_pods_selects:
  assumes "k_list K ns [] w = (Inr items, w')" and "ns \<noteq> []"
    and "new_pod_matcher L s = Inr m"
  shows "list_matching_pods L K ns (Some m) w =
    (Inr (filter (\<lambda>p. kp_phase p = PodRunning \<and> \<not> kp_deleting p \<and>
        list_ex (\<lambda>pat. case regexp_compile L pat of None \<Rightarrow> False
           | Some re \<Rightarrow> regexp_match L re (kp_name p)) (sp_pod_patterns s)) items), w')"
proof -
  from assms(3) have "map Some m = map (regexp_compile L) (sp_pod_patterns s)"
    by (auto simp: new_pod_matcher_def compile_patterns_def split: sum.splits
        dest: compile_patterns_from_Inr)
  then have "list_all2 (\<lambda>re pat. regexp_compile L pat = Some re) m (sp_pod_patterns s)"
    by (simp add: list_all2_conv_all_nth list_eq_iff_nth_eq)
  then have "match_name L m n = list_ex (\<lambda>pat. case regexp_compile L pat of None \<Rightarrow> False
           | Some re \<Rightarrow> regexp_match L re n) (sp_pod_patterns s)" for n
    by (induction rule: list_all2_induct) auto
  with assms(1,2) show ?thesis
    by (simp add: list_matching_pods_def keep_matching_filter)
qed

definition demo_pod :: "string \<Rightarrow> string \<Rightarrow> kpod" where
  "demo_pod name node = empty_pod\<lparr>kp_name := name, kp_namespace := ''prod'', kp_uid := ''u-'' @ name,
     kp_node_name := node, kp_phase := PodRunning\<rparr>"

definition demo_cluster0 :: demo_cluster where
  "demo_cluster0 = \<lparr>dc_pods = [demo_pod ''pay-1'' ''n1'', demo_pod ''web-1'' ''n2'',
     demo_pod ''db-1'' ''n1'', demo_pod ''pay-2'' ''n1''], dc_next = 0\<rparr>"

theorem list_matching_pods_selects_witness:
  "fst (list_matching_pods demo_lib demo_kube ''prod'' (Some [''pay'', ''web'']) demo_cluster0)
     = Inr [demo_pod ''pay-1'' ''n1'', demo_pod ''web-1'' ''n2'', demo_pod ''pay-2'' ''n1'']"
proof -
  have l: "k_list demo_kube ''prod'' [] demo_cluster0 = (Inr (dc_pods demo_cluster0), demo_cluster0)"
    by (simp add: demo_kube_def demo_list_def demo_cluster0_def demo_pod_def selects_def)
  have m: "new_pod_matcher demo_lib demo_spec = Inr [''pay'', ''web'']"
    by (simp add: new_pod_matcher_def compile_patterns_def demo_lib_def demo_spec_def)
  show ?thesis
    by (subst list_matching_pods_selects [OF l _ m])
      (simp_all add: demo_lib_def demo_spec_def demo_cluster0_def demo_pod_def contains_def
        empty_pod_def)
qed

text \<open>The loop's state, and the specification of the grouping.\<close>

definition firsts :: "'a list \<Rightarrow> 'a list" where
  "firsts xs = rev (remdups (rev xs))"

lemma firsts_snoc: "firsts (xs @ [x]) = (if x \<in> set xs then firsts xs else firsts xs @ [x])"
  by (simp add: firsts_def)

lemma firsts_Nil [simp]: "firsts [] = []"
  by (simp add: firsts_def)

lemma set_firsts [simp]: "set (firsts xs) = set xs"
  by (simp add: firsts_def)

lemma distinct_firsts [simp]: "distinct (firsts xs)"
  by (simp add: firsts_def)

definition scheduled :: "kpod list \<Rightarrow> kpod list" where
  "scheduled pods = filter (\<lambda>p. kp_node_name p \<noteq> []) pods"

definition on_node :: "string \<Rightarrow> kpod list \<Rightarrow> pod_ref list" where
  "on_node n pods = map pod_ref_from_pod (filter (\<lambda>p. kp_node_name p = n) pods)"

definition group_spec :: "kpod list \<Rightarrow> node_group list \<times> skipped_pod list" where
  "group_spec pods =
     (map (\<lambda>n. \<lparr>ng_node = n, ng_targets = on_node n pods\<rparr>) (firsts (map kp_node_name (scheduled pods))),
      map (\<lambda>p. \<lparr>sk_pod = pod_ref_from_pod p, sk_reason = SkipReasonNoNode\<rparr>)
        (filter (\<lambda>p. kp_node_name p = []) pods))"

definition loop_inv where
  "loop_inv seen byNode order skipped \<longleftrightarrow>
     order = firsts (map kp_node_name (scheduled seen)) \<and>
     skipped = snd (group_spec seen) \<and>
     (\<forall>n. map_of byNode n =
        (if n \<noteq> [] \<and> n \<in> set (map kp_node_name seen) then Some (on_node n seen) else None))"

lemma loop_inv_Nil: "loop_inv [] [] [] []"
  by (simp add: loop_inv_def group_spec_def scheduled_def)

lemma group_loop_inv:
  assumes "loop_inv seen byNode order skipped"
  shows "case group_loop pods byNode order skipped of
           (byNode', order', skipped') \<Rightarrow> loop_inv (seen @ pods) byNode' order' skipped'"
  using assms
proof (induction pods arbitrary: seen byNode order skipped)
  case Nil
  then show ?case by simp
next
  case (Cons pod pods)
  let ?node = "kp_node_name pod" and ?ref = "pod_ref_from_pod pod"
  let ?old = "case map_of byNode ?node of None \<Rightarrow> [] | Some ts \<Rightarrow> ts"
  let ?order = "if map_of byNode ?node = None then order @ [?node] else order"
  show ?case
  proof (cases "?node = []")
    case True
    with Cons.prems have "loop_inv (seen @ [pod]) byNode order
        (skipped @ [\<lparr>sk_pod = ?ref, sk_reason = SkipReasonNoNode\<rparr>])"
      by (auto simp: loop_inv_def group_spec_def scheduled_def on_node_def)
    from Cons.IH [OF this] True show ?thesis by simp
  next
    case False
    have ref: "?ref\<lparr>pr_node := ?node\<rparr> = ?ref" by (simp add: pod_ref_from_pod_def)
    have mem: "?node \<in> set (map kp_node_name (scheduled seen)) \<longleftrightarrow> ?node \<in> set (map kp_node_name seen)"
      using False by (auto simp: scheduled_def)
    have old: "?old = on_node ?node seen"
      using Cons.prems False
      by (auto simp: loop_inv_def on_node_def filter_empty_conv) (metis rev_image_eqI)
    have ord: "?order = firsts (map kp_node_name (scheduled (seen @ [pod])))"
      using Cons.prems False mem by (auto simp: loop_inv_def scheduled_def firsts_snoc)
    have "loop_inv (seen @ [pod]) (AList.update ?node (?old @ [?ref]) byNode) ?order skipped"
      using Cons.prems False unfolding loop_inv_def old ord
      by (auto simp: group_spec_def on_node_def)
    from Cons.IH [OF this] False ref show ?thesis by (simp add: Let_def)
  qed
qed

lemma group_by_node_eq_spec: "group_by_node pods = group_spec pods"
proof -
  obtain byNode order skipped where g: "group_loop pods [] [] [] = (byNode, order, skipped)"
    by (metis prod_cases3)
  with group_loop_inv [OF loop_inv_Nil, of pods] have inv: "loop_inv pods byNode order skipped"
    by simp
  have "(case map_of byNode n of None \<Rightarrow> [] | Some ts \<Rightarrow> ts) = on_node n pods" if "n \<in> set order" for n
    using inv that by (auto simp: loop_inv_def scheduled_def)
  with inv show ?thesis
    by (simp add: group_by_node_def g loop_inv_def group_spec_def)
qed

text \<open>
  \<open>GroupByNode\<close> implements its specification: the skipped pods are those without a
  node, in order; there is one group per node, in the order in which nodes first appear, and
  a group's targets are exactly the pods of that node, in order.
\<close>

theorem group_by_node_refines: "group_by_node pods = group_spec pods"
  by (rule group_by_node_eq_spec)

lemma group_spec_nodes_distinct: "distinct (map ng_node (fst (group_spec pods)))"
  by (simp add: group_spec_def comp_def)

text \<open>
  Grouping loses no pod and duplicates none: groups have distinct nodes, no group is
  empty, every target carries its group's node, and the targets of all groups together with
  the skipped pods are a permutation of the input.
\<close>

theorem group_by_node_partition:
  "case group_by_node pods of (groups, skipped) \<Rightarrow>
     distinct (map ng_node groups) \<and>
     list_all (\<lambda>g. ng_targets g \<noteq> [] \<and> ng_node g \<noteq> [] \<and>
        list_all (\<lambda>t. pr_node t = ng_node g) (ng_targets g)) groups \<and>
     mset (concat (map ng_targets groups)) + mset (map sk_pod skipped)
       = mset (map pod_ref_from_pod pods)"
proof -
  have count: "mset (concat (map (\<lambda>n. on_node n ps) ns))
      = mset (map pod_ref_from_pod (filter (\<lambda>p. kp_node_name p \<in> set ns) ps))"
    if "distinct ns" for ns ps
    using that
  proof (induction ns)
    case (Cons n ns)
    have "filter (\<lambda>p. kp_node_name p \<in> set (n # ns)) ps
        = filter (\<lambda>p. kp_node_name p = n \<or> kp_node_name p \<in> set ns) ps" by simp
    also have "mset \<dots> = mset (filter (\<lambda>p. kp_node_name p = n) ps)
        + mset (filter (\<lambda>p. kp_node_name p \<in> set ns) ps)"
      using Cons.prems by (induction ps) auto
    finally show ?case using Cons by (simp add: on_node_def)
  qed simp
  have "mset (concat (map (\<lambda>n. on_node n pods) (firsts (map kp_node_name (scheduled pods)))))
      = mset (map pod_ref_from_pod (filter (\<lambda>p. kp_node_name p \<noteq> []) pods))"
  proof -
    have "filter (\<lambda>p. kp_node_name p \<in> set (firsts (map kp_node_name (scheduled pods)))) pods
        = filter (\<lambda>p. kp_node_name p \<noteq> []) pods"
      by (rule filter_cong) (auto simp: scheduled_def)
    then show ?thesis by (simp only: count [OF distinct_firsts])
  qed
  moreover have "mset (map pod_ref_from_pod (filter (\<lambda>p. kp_node_name p \<noteq> []) pods))
      + mset (map pod_ref_from_pod (filter (\<lambda>p. kp_node_name p = []) pods))
      = mset (map pod_ref_from_pod pods)"
    by (induction pods) auto
  ultimately have parts: "mset (concat (map ng_targets (fst (group_spec pods))))
      + mset (map sk_pod (snd (group_spec pods))) = mset (map pod_ref_from_pod pods)"
    by (simp add: group_spec_def comp_def)
  have groups: "list_all (\<lambda>g. ng_targets g \<noteq> [] \<and> ng_node g \<noteq> [] \<and>
      list_all (\<lambda>t. pr_node t = ng_node g) (ng_targets g)) (fst (group_spec pods))"
    by (auto simp: group_spec_def list_all_iff scheduled_def on_node_def pod_ref_from_pod_def
        filter_empty_conv)
  obtain gs sk where g: "group_spec pods = (gs, sk)" by (metis surj_pair)
  show ?thesis
    using parts groups group_spec_nodes_distinct [of pods]
    by (simp add: group_by_node_eq_spec g)
qed

lemma group_matching_pods_eq:
  "group_matching_pods L pods m = group_by_node (keep_matching L m pods)"
  by (simp add: group_matching_pods_def keep_matching_filter is_running_def)

end
