(* ===== verification/Agent_Lifecycle.thy ===== *)
theory Agent_Lifecycle imports Agent_Manifest begin

text \<open>
  \<open>pkg/hub/agent/lifecycle.go\<close>: creating, awaiting and deleting agent pods.  Every
  operation takes the Kubernetes client \<open>K\<close> and the cluster state, and returns its result
  with the state after its calls.  A polling loop (\<open>wait.PollUntilContextCancel\<close>) takes
  the number of polls its context allows: the timeout divided by the 200 ms interval, plus the
  immediate first one; when they are used up the context's error is returned.
\<close>

section \<open>Manager\<close>

record manager =
  mg_cfg :: agent_config
  mg_ready_timeout :: int

definition DefaultReadyTimeout :: int where "DefaultReadyTimeout = 120 * nanos_per_second"
definition defaultDeleteTimeout :: int where "defaultDeleteTimeout = 30 * nanos_per_second"
definition poll_interval :: int where "poll_interval = 200000000"

definition polls_within :: "int \<Rightarrow> nat" where
  "polls_within timeout = nat (timeout div poll_interval) + 1"

record create_options =
  op_active_deadline :: int
  op_stream_id :: string

definition new_manager :: "string \<Rightarrow> agent_config \<Rightarrow> manager" where
  "new_manager ref cfg =
     \<lparr>mg_cfg = agent_config_with_defaults ref cfg, mg_ready_timeout = DefaultReadyTimeout\<rparr>"

definition with_ready_timeout :: "manager \<Rightarrow> int \<Rightarrow> manager" where
  "with_ready_timeout m d = m\<lparr>mg_ready_timeout := d\<rparr>"

section \<open>Errors\<close>

datatype label_field = FieldSessionID | FieldNodeName

datatype label_error = LabelRequired label_field | LabelInvalid label_field string

datatype terminal_reason =
    NoReason
  | Unschedulable string
  | Disrupted string
  | ContainerWaiting string string string
  | ContainerExited string int string

datatype lifecycle_error =
    LabelErr label_error
  | ListAgentOnNode string api_error
  | StreamIdRequired
  | ManifestErr manifest_error
  | CreateAgentPod string api_error
  | PodRequired
  | AgentPodNotFound string string
  | ApiErr api_error
  | AgentPodTerminal string string terminal_reason
  | AgentPodPhase string string pod_phase
  | PollContextDone
  | ListSessionPods string api_error
  | DeleteCollectionErr api_error
  | DeleteAgentPod string string api_error
  | JoinedErrs "lifecycle_error list"
  | StreamIdErr stream_id_error

section \<open>Selectors\<close>

definition validate_label_value ::
    "'re ext_lib \<Rightarrow> label_field \<Rightarrow> string \<Rightarrow> label_error option" where
  "validate_label_value L field v =
     (if v = [] then Some (LabelRequired field)
      else if \<not> is_label_value L v then Some (LabelInvalid field v)
      else None)"

definition session_label_selector :: "'re ext_lib \<Rightarrow> string \<Rightarrow> lifecycle_error + string" where
  "session_label_selector L sessionID =
     (case validate_label_value L FieldSessionID sessionID of
        Some e \<Rightarrow> Inl (LabelErr e)
      | None \<Rightarrow> Inr (LabelAppKey @ ''='' @ LabelAppValue @ '','' @ LabelSessionKey @ ''='' @ sessionID))"

definition session_node_label_selector ::
    "'re ext_lib \<Rightarrow> string \<Rightarrow> string \<Rightarrow> lifecycle_error + string" where
  "session_node_label_selector L sessionID nodeName =
     (case session_label_selector L sessionID of
        Inl e \<Rightarrow> Inl e
      | Inr base \<Rightarrow>
          (case validate_label_value L FieldNodeName nodeName of
             Some e \<Rightarrow> Inl (LabelErr e)
           | None \<Rightarrow> Inr (base @ '','' @ LabelNodeKey @ ''='' @ nodeName)))"

section \<open>Pod status\<close>

definition pod_reusable :: "kpod \<Rightarrow> bool" where
  "pod_reusable pod =
     (if kp_deleting pod then False
      else (case kp_phase pod of PodFailed \<Rightarrow> False | PodSucceeded \<Rightarrow> False | _ \<Rightarrow> True))"

definition fatal_waiting_reasons :: "string list" where
  "fatal_waiting_reasons =
     [''ImagePullBackOff'', ''ErrImagePull'', ''InvalidImageName'', ''CreateContainerConfigError'',
      ''CreateContainerError'', ''CrashLoopBackOff'', ''RunContainerError'']"

definition container_terminal_reason :: "container_status \<Rightarrow> terminal_reason" where
  "container_terminal_reason cs =
     (case (case cst_waiting cs of
              Some w \<Rightarrow> if wt_reason w \<in> set fatal_waiting_reasons
                        then Some (ContainerWaiting (cst_name cs) (wt_reason w) (wt_message w))
                        else None
            | None \<Rightarrow> None) of
        Some r \<Rightarrow> r
      | None \<Rightarrow>
          (case cst_terminated cs of
             Some t \<Rightarrow> if tm_exit_code t \<noteq> 0
                       then ContainerExited (cst_name cs) (tm_exit_code t) (tm_reason t)
                       else NoReason
           | None \<Rightarrow> NoReason))"

fun condition_reason :: "pod_condition list \<Rightarrow> terminal_reason" where
  "condition_reason [] = NoReason"
| "condition_reason (cond # conds) =
     (if co_status cond \<noteq> ConditionFalse then condition_reason conds
      else (case co_type cond of
              PodScheduled \<Rightarrow> Unschedulable (co_message cond)
            | DisruptionTarget \<Rightarrow> Disrupted (co_message cond)
            | OtherCondition _ \<Rightarrow> condition_reason conds))"

fun statuses_reason :: "container_status list \<Rightarrow> terminal_reason" where
  "statuses_reason [] = NoReason"
| "statuses_reason (cs # css) =
     (let r = container_terminal_reason cs in if r \<noteq> NoReason then r else statuses_reason css)"

definition pod_terminal_reason :: "kpod \<Rightarrow> terminal_reason" where
  "pod_terminal_reason pod =
     (case condition_reason (kp_conditions pod) of
        NoReason \<Rightarrow> statuses_reason (kp_container_statuses pod)
      | r \<Rightarrow> r)"

definition is_retriable_api_error :: "api_error \<Rightarrow> bool" where
  "is_retriable_api_error e =
     (ae_reason e \<in> {Api_Timeout, Api_ServerTimeout, Api_ServiceUnavailable,
                     Api_TooManyRequests, Api_InternalError})"

section \<open>Polling\<close>

fun poll :: "nat \<Rightarrow> ('w \<Rightarrow> (lifecycle_error + bool) \<times> 'w) \<Rightarrow> 'w \<Rightarrow> lifecycle_error option \<times> 'w" where
  "poll 0 cond w = (Some PollContextDone, w)"
| "poll (Suc n) cond w =
     (case cond w of
        (Inl e, w') \<Rightarrow> (Some e, w')
      | (Inr True, w') \<Rightarrow> (None, w')
      | (Inr False, w') \<Rightarrow> poll n cond w')"

section \<open>Creating\<close>

definition agent_on_node ::
    "'re ext_lib \<Rightarrow> 'w kube \<Rightarrow> manager \<Rightarrow> string \<Rightarrow> string \<Rightarrow> 'w
       \<Rightarrow> (lifecycle_error + kpod option) \<times> 'w" where
  "agent_on_node L K m sessionID nodeName w =
     (case session_node_label_selector L sessionID nodeName of
        Inl e \<Rightarrow> (Inl e, w)
      | Inr selector \<Rightarrow>
          (case k_list K (ac_namespace (mg_cfg m)) selector w of
             (Inl e, w') \<Rightarrow> (Inl (ListAgentOnNode nodeName e), w')
           | (Inr items, w') \<Rightarrow> (Inr (find pod_reusable items), w')))"

definition wait_selector_gone ::
    "'w kube \<Rightarrow> manager \<Rightarrow> string \<Rightarrow> 'w \<Rightarrow> lifecycle_error option \<times> 'w" where
  "wait_selector_gone K m selector =
     poll (polls_within defaultDeleteTimeout)
       (\<lambda>w. case k_list K (ac_namespace (mg_cfg m)) selector w of
              (Inl e, w') \<Rightarrow>
                (if is_retriable_api_error e then (Inr False, w') else (Inl (ApiErr e), w'))
            | (Inr items, w') \<Rightarrow> (Inr (items = []), w'))"

fun delete_pods ::
    "'w kube \<Rightarrow> kpod list \<Rightarrow> lifecycle_error list \<Rightarrow> 'w \<Rightarrow> lifecycle_error list \<times> 'w" where
  "delete_pods K [] errs w = (errs, w)"
| "delete_pods K (pod # pods) errs w =
     (case k_delete K (kp_namespace pod) (kp_name pod) 5 w of
        (Some e, w') \<Rightarrow>
          (if ae_reason e \<noteq> Api_NotFound
           then delete_pods K pods (errs @ [DeleteAgentPod (kp_namespace pod) (kp_name pod) e]) w'
           else delete_pods K pods errs w')
      | (None, w') \<Rightarrow> delete_pods K pods errs w')"

definition delete_agent_on_node ::
    "'re ext_lib \<Rightarrow> 'w kube \<Rightarrow> manager \<Rightarrow> string \<Rightarrow> string \<Rightarrow> 'w \<Rightarrow> lifecycle_error option \<times> 'w" where
  "delete_agent_on_node L K m sessionID nodeName w =
     (case session_node_label_selector L sessionID nodeName of
        Inl e \<Rightarrow> (Some e, w)
      | Inr selector \<Rightarrow>
          (case k_list K (ac_namespace (mg_cfg m)) selector w of
             (Inl e, w1) \<Rightarrow> (Some (ListAgentOnNode nodeName e), w1)
           | (Inr items, w1) \<Rightarrow>
               (case delete_pods K items [] w1 of
                  (errs, w2) \<Rightarrow>
                    if errs \<noteq> [] then (Some (JoinedErrs errs), w2)
                    else wait_selector_gone K m selector w2)))"

definition create_for_node ::
    "'re ext_lib \<Rightarrow> string \<Rightarrow> 'w kube \<Rightarrow> manager \<Rightarrow> string \<Rightarrow> string \<Rightarrow> create_options \<Rightarrow> 'w
       \<Rightarrow> (lifecycle_error + kpod) \<times> 'w" where
  "create_for_node L ref K m sessionID nodeName opts w =
     (if op_stream_id opts = [] then (Inl StreamIdRequired, w)
      else (case agent_on_node L K m sessionID nodeName w of
        (Inl e, w1) \<Rightarrow> (Inl e, w1)
      | (Inr (Some existing), w1) \<Rightarrow> (Inr existing, w1)
      | (Inr None, w1) \<Rightarrow>
          (case delete_agent_on_node L K m sessionID nodeName w1 of
             (Some e, w2) \<Rightarrow> (Inl e, w2)
           | (None, w2) \<Rightarrow>
               (case pod_manifest L ref sessionID (op_stream_id opts) nodeName (mg_cfg m)
                       (op_active_deadline opts) of
                  Inl e \<Rightarrow> (Inl (ManifestErr e), w2)
                | Inr pod \<Rightarrow>
                    (case k_create K (ac_namespace (mg_cfg m)) pod w2 of
                       (Inl e, w3) \<Rightarrow> (Inl (CreateAgentPod nodeName e), w3)
                     | (Inr created, w3) \<Rightarrow> (Inr created, w3))))))"

section \<open>Waiting\<close>

fun all_ready :: "string \<Rightarrow> string \<Rightarrow> container_status list \<Rightarrow> lifecycle_error + bool" where
  "all_ready ns name [] = Inr True"
| "all_ready ns name (cs # css) =
     (if \<not> cst_ready cs then
        (let reason = container_terminal_reason cs in
         if reason \<noteq> NoReason then Inl (AgentPodTerminal ns name reason) else Inr False)
      else all_ready ns name css)"

definition ready_check :: "string \<Rightarrow> string \<Rightarrow> kpod \<Rightarrow> lifecycle_error + bool" where
  "ready_check ns name current =
     (if pod_terminal_reason current \<noteq> NoReason
      then Inl (AgentPodTerminal ns name (pod_terminal_reason current))
      else (case kp_phase current of
              PodFailed \<Rightarrow> Inl (AgentPodPhase ns name PodFailed)
            | PodSucceeded \<Rightarrow> Inl (AgentPodPhase ns name PodSucceeded)
            | PodRunning \<Rightarrow>
                (if kp_container_statuses current = [] then Inr False
                 else all_ready ns name (kp_container_statuses current))
            | _ \<Rightarrow> Inr False))"

text \<open>
  \<open>WaitReady\<close>; \<open>remaining\<close> is the time to the caller's deadline, if its context has one.
\<close>

definition wait_ready ::
    "'w kube \<Rightarrow> manager \<Rightarrow> int option \<Rightarrow> kpod option \<Rightarrow> 'w \<Rightarrow> lifecycle_error option \<times> 'w" where
  "wait_ready K m remaining pod w =
     (case pod of
        None \<Rightarrow> (Some PodRequired, w)
      | Some p \<Rightarrow>
          (let timeout = (case remaining of
                 Some r \<Rightarrow> if r < mg_ready_timeout m then r else mg_ready_timeout m
               | None \<Rightarrow> mg_ready_timeout m) in
           poll (polls_within timeout)
             (\<lambda>w. case k_get K (kp_namespace p) (kp_name p) w of
                    (Inl e, w') \<Rightarrow>
                      ((if ae_reason e = Api_NotFound
                        then Inl (AgentPodNotFound (kp_namespace p) (kp_name p))
                        else if is_retriable_api_error e then Inr False
                        else Inl (ApiErr e)), w')
                  | (Inr current, w') \<Rightarrow>
                      (ready_check (kp_namespace p) (kp_name p) current, w'))
             w))"

section \<open>Deleting a session's agents\<close>

definition list_session_agents ::
    "'re ext_lib \<Rightarrow> 'w kube \<Rightarrow> manager \<Rightarrow> string \<Rightarrow> 'w \<Rightarrow> (lifecycle_error + kpod list) \<times> 'w" where
  "list_session_agents L K m sessionID w =
     (case session_label_selector L sessionID of
        Inl e \<Rightarrow> (Inl e, w)
      | Inr selector \<Rightarrow>
          (case k_list K (ac_namespace (mg_cfg m)) selector w of
             (Inl e, w') \<Rightarrow> (Inl (ListSessionPods sessionID e), w')
           | (Inr items, w') \<Rightarrow> (Inr items, w')))"

text \<open>
  \<open>isRetriableAPIError\<close> looks through the \<open>%w\<close> wrapping of \<open>ListSessionAgents\<close>.
\<close>

fun retriable_list_error :: "lifecycle_error \<Rightarrow> bool" where
  "retriable_list_error (ListSessionPods _ e) = is_retriable_api_error e"
| "retriable_list_error _ = False"

definition wait_session_agents_gone ::
    "'re ext_lib \<Rightarrow> 'w kube \<Rightarrow> manager \<Rightarrow> string \<Rightarrow> 'w \<Rightarrow> lifecycle_error option \<times> 'w" where
  "wait_session_agents_gone L K m sessionID =
     poll (polls_within defaultDeleteTimeout)
       (\<lambda>w. case list_session_agents L K m sessionID w of
              (Inl e, w') \<Rightarrow> (if retriable_list_error e then (Inr False, w') else (Inl e, w'))
            | (Inr pods, w') \<Rightarrow> (Inr (pods = []), w'))"

text \<open>The second half of \<open>DeleteSessionAgents\<close>: one by one, after the collection delete
  returned \<open>err\<close>.\<close>

definition delete_individually ::
    "'re ext_lib \<Rightarrow> 'w kube \<Rightarrow> manager \<Rightarrow> string \<Rightarrow> api_error option \<Rightarrow> 'w
       \<Rightarrow> lifecycle_error option \<times> 'w" where
  "delete_individually L K m sessionID err w =
     (case list_session_agents L K m sessionID w of
        (Inl listErr, w1) \<Rightarrow>
          (Some (JoinedErrs ((case err of None \<Rightarrow> [] | Some e \<Rightarrow> [ApiErr e]) @ [listErr])), w1)
      | (Inr pods, w1) \<Rightarrow>
          (let errs0 = (case err of
                 Some e \<Rightarrow> if ae_reason e \<noteq> Api_NotFound then [DeleteCollectionErr e] else []
               | None \<Rightarrow> []) in
           (case delete_pods K pods errs0 w1 of
              (errs, w2) \<Rightarrow>
                if errs \<noteq> [] then (Some (JoinedErrs errs), w2)
                else wait_session_agents_gone L K m sessionID w2)))"

definition delete_session_agents ::
    "'re ext_lib \<Rightarrow> 'w kube \<Rightarrow> manager \<Rightarrow> string \<Rightarrow> 'w \<Rightarrow> lifecycle_error option \<times> 'w" where
  "delete_session_agents L K m sessionID w =
     (case session_label_selector L sessionID of
        Inl e \<Rightarrow> (Some e, w)
      | Inr selector \<Rightarrow>
          (case k_delete_collection K (ac_namespace (mg_cfg m)) selector 5 w of
             (None, w1) \<Rightarrow>
               (case list_session_agents L K m sessionID w1 of
                  (Inl listErr, w2) \<Rightarrow> (Some listErr, w2)
                | (Inr remaining, w2) \<Rightarrow>
                    if remaining = [] then (None, w2)
                    else delete_individually L K m sessionID None w2)
           | (Some e, w1) \<Rightarrow> delete_individually L K m sessionID (Some e) w1))"

section \<open>Facts\<close>

lemma poll_success: "poll n cond w = (None, w') \<Longrightarrow> \<exists>w0. cond w0 = (Inr True, w')"
proof (induction n arbitrary: w)
  case (Suc n)
  obtain r w1 where "cond w = (r, w1)" by (metis surj_pair)
  with Suc show ?case by (cases r) (auto split: if_splits bool.splits)
qed simp

lemma poll_first: "cond w = (Inr True, w') \<Longrightarrow> poll (polls_within t) cond w = (None, w')"
  by (simp add: polls_within_def)

lemma all_ready_InrTrue: "all_ready ns name css = Inr True \<longleftrightarrow> list_all cst_ready css"
  by (induction css) (auto simp: Let_def)

lemma ready_check_True_iff:
  "ready_check ns name p = Inr True \<longleftrightarrow>
     kp_phase p = PodRunning \<and> kp_container_statuses p \<noteq> [] \<and>
     list_all cst_ready (kp_container_statuses p) \<and> pod_terminal_reason p = NoReason"
  by (auto simp: ready_check_def all_ready_InrTrue split: pod_phase.splits)

lemma session_node_selector_Inr:
  assumes "session_node_label_selector L sid node = Inr sel"
  shows "sid \<noteq> [] \<and> node \<noteq> [] \<and> is_label_value L sid \<and> is_label_value L node"
  using assms
  by (auto simp: session_node_label_selector_def session_label_selector_def
      validate_label_value_def split: if_splits)

text \<open>
  \<open>WaitReady\<close> returns nil only after the server reported the pod Running, with at least
  one container status, every container ready and no terminal reason.
\<close>

theorem wait_ready_sound:
  assumes "wait_ready K m remaining (Some p) w = (None, w')"
  shows "\<exists>w0 current. k_get K (kp_namespace p) (kp_name p) w0 = (Inr current, w') \<and>
    kp_phase current = PodRunning \<and> kp_container_statuses current \<noteq> [] \<and>
    list_all cst_ready (kp_container_statuses current) \<and> pod_terminal_reason current = NoReason"
proof -
  from assms obtain w0 where
    "(case k_get K (kp_namespace p) (kp_name p) w0 of
        (Inl e, w') \<Rightarrow>
          ((if ae_reason e = Api_NotFound
            then Inl (AgentPodNotFound (kp_namespace p) (kp_name p))
            else if is_retriable_api_error e then Inr False
            else Inl (ApiErr e)), w')
      | (Inr current, w') \<Rightarrow> (ready_check (kp_namespace p) (kp_name p) current, w'))
     = (Inr True, w')"
    by (auto simp: wait_ready_def Let_def dest!: poll_success)
  then show ?thesis
    by (auto simp: ready_check_True_iff split: prod.splits sum.splits if_splits
        intro!: exI [of _ w0])
qed

lemma delete_individually_gone:
  assumes "delete_individually L K m sid err w = (None, w')"
  shows "\<exists>w0. list_session_agents L K m sid w0 = (Inr [], w')"
proof -
  from assms obtain w2 where "wait_session_agents_gone L K m sid w2 = (None, w')"
    by (auto simp: delete_individually_def Let_def split: prod.splits sum.splits if_splits)
  then obtain w0 where "(case list_session_agents L K m sid w0 of
      (Inl e, w') \<Rightarrow> (if retriable_list_error e then (Inr False, w') else (Inl e, w'))
    | (Inr pods, w') \<Rightarrow> (Inr (pods = []), w')) = (Inr True, w')"
    by (auto simp: wait_session_agents_gone_def dest!: poll_success)
  then show ?thesis
    by (auto split: prod.splits sum.splits if_splits intro!: exI [of _ w0])
qed

text \<open>
  C31. \<open>DeleteSessionAgents\<close> returns nil only when its last call listed the agents of the
  session and found none: success means the server has confirmed that they are gone, on the
  collection path and on the one-by-one path alike.
\<close>

theorem delete_session_agents_confirmed:
  assumes "delete_session_agents L K m sid w = (None, w')"
  shows "\<exists>sel w0. session_label_selector L sid = Inr sel \<and>
    k_list K (ac_namespace (mg_cfg m)) sel w0 = (Inr [], w')"
proof -
  from assms obtain sel where sel: "session_label_selector L sid = Inr sel"
    by (auto simp: delete_session_agents_def split: sum.splits)
  have "\<exists>w0. list_session_agents L K m sid w0 = (Inr [], w')"
    using assms sel
    by (auto simp: delete_session_agents_def dest: delete_individually_gone
        split: prod.splits sum.splits option.splits if_splits)
  then obtain w0 where "list_session_agents L K m sid w0 = (Inr [], w')" ..
  with sel show ?thesis
    by (cases "k_list K (ac_namespace (mg_cfg m)) sel w0")
      (auto simp: list_session_agents_def split: sum.splits)
qed

lemma delete_agent_on_node_gone:
  assumes "delete_agent_on_node L K m sid node w = (None, w')"
  shows "\<exists>sel w0. session_node_label_selector L sid node = Inr sel \<and>
    k_list K (ac_namespace (mg_cfg m)) sel w0 = (Inr [], w')"
proof -
  from assms obtain sel w2 where sel: "session_node_label_selector L sid node = Inr sel"
    and "wait_selector_gone K m sel w2 = (None, w')"
    by (auto simp: delete_agent_on_node_def split: prod.splits sum.splits if_splits)
  then obtain w0 where "(case k_list K (ac_namespace (mg_cfg m)) sel w0 of
      (Inl e, w') \<Rightarrow> (if is_retriable_api_error e then (Inr False, w') else (Inl (ApiErr e), w'))
    | (Inr items, w') \<Rightarrow> (Inr (items = []), w')) = (Inr True, w')"
    by (auto simp: wait_selector_gone_def dest!: poll_success)
  with sel show ?thesis
    by (auto split: prod.splits sum.splits if_splits intro!: exI [of _ w0])
qed

text \<open>
  \<open>CreateForNode\<close> keeps at most one agent per session and node.  When it returns a pod,
  either that pod was already there, reusable, in the listing for this session and node, and
  nothing was created; or nothing reusable was listed, the server then confirmed that no
  agent of this session and node is left, and the pod is what the server made of the manifest
  carrying the requested stream ID.
\<close>

theorem create_for_node_unique:
  assumes "create_for_node L ref K m sid node opts w = (Inr pod, w')"
  shows "\<exists>sel items w1. session_node_label_selector L sid node = Inr sel \<and>
    k_list K (ac_namespace (mg_cfg m)) sel w = (Inr items, w1) \<and>
    (if list_ex pod_reusable items
     then pod \<in> set items \<and> pod_reusable pod \<and> w' = w1
     else (\<exists>w0 w2 manifest. k_list K (ac_namespace (mg_cfg m)) sel w0 = (Inr [], w2) \<and>
        pod_manifest L ref sid (op_stream_id opts) node (mg_cfg m) (op_active_deadline opts)
          = Inr manifest \<and>
        k_create K (ac_namespace (mg_cfg m)) manifest w2 = (Inr pod, w')))"
proof -
  from assms obtain found w1 where
    found: "agent_on_node L K m sid node w = (Inr found, w1)"
    by (auto simp: create_for_node_def split: prod.splits sum.splits if_splits)
  then obtain sel items where sel: "session_node_label_selector L sid node = Inr sel"
    and items: "k_list K (ac_namespace (mg_cfg m)) sel w = (Inr items, w1)"
    and f: "found = find pod_reusable items"
    by (auto simp: agent_on_node_def split: prod.splits sum.splits)
  show ?thesis
  proof (cases found)
    case (Some existing)
    with assms found have "pod = existing" "w' = w1"
      by (auto simp: create_for_node_def split: if_splits)
    moreover from Some f have "existing \<in> set items" "pod_reusable existing"
      by (auto simp: find_Some_iff)
    ultimately show ?thesis using sel items by (auto simp: list_ex_iff)
  next
    case None
    from None f have none: "\<not> list_ex pod_reusable items"
      by (metis find_None_iff list_ex_iff)
    from None assms found obtain w2 manifest where
      del: "delete_agent_on_node L K m sid node w1 = (None, w2)" and
      man: "pod_manifest L ref sid (op_stream_id opts) node (mg_cfg m) (op_active_deadline opts)
        = Inr manifest" and
      cr: "k_create K (ac_namespace (mg_cfg m)) manifest w2 = (Inr pod, w')"
      by (auto simp: create_for_node_def split: if_splits prod.splits option.splits sum.splits)
    from delete_agent_on_node_gone [OF del] sel obtain w0 where
      "k_list K (ac_namespace (mg_cfg m)) sel w0 = (Inr [], w2)" by auto
    with sel items none man cr show ?thesis by auto
  qed
qed

text \<open>
  The disruption test of \<open>podTerminalReason\<close> is inverted: Kubernetes sets the
  condition \<open>DisruptionTarget\<close> to True on a pod about to be evicted, and that pod is let
  through, while a pod on which the condition is explicitly False is reported as disrupted
  and fails \<open>WaitReady\<close>.
\<close>

theorem disruption_condition_inverted:
  "pod_terminal_reason (p\<lparr>kp_conditions :=
      [\<lparr>co_type = DisruptionTarget, co_status = ConditionTrue, co_message = msg\<rparr>],
      kp_container_statuses := []\<rparr>) = NoReason \<and>
   pod_terminal_reason (p\<lparr>kp_conditions :=
      [\<lparr>co_type = DisruptionTarget, co_status = ConditionFalse, co_message = msg\<rparr>]\<rparr>) = Disrupted msg"
  by (simp add: pod_terminal_reason_def)

section \<open>Examples on the small cluster\<close>

definition demo_manager :: manager where
  "demo_manager = new_manager [] demo_agent_config"

definition demo_opts :: create_options where
  "demo_opts = \<lparr>op_active_deadline = 1500000000, op_stream_id = ''str1''\<rparr>"

definition demo_created :: kpod where
  "demo_created = demo_manifest\<lparr>kp_namespace := ''k8s-sniffer'', kp_name := ''k8s-sniffer-0'',
     kp_uid := ''uid0'', kp_phase := PodRunning,
     kp_container_statuses := [\<lparr>cst_name = ''agent'', cst_ready = True, cst_waiting = None,
       cst_terminated = None\<rparr>]\<rparr>"

definition demo_empty :: demo_cluster where
  "demo_empty = \<lparr>dc_pods = [], dc_next = 0\<rparr>"

definition demo_one :: demo_cluster where
  "demo_one = \<lparr>dc_pods = [demo_created], dc_next = 1\<rparr>"

lemma demo_node_selector:
  "session_node_label_selector demo_lib ''s1'' ''n1''
     = Inr ''app=k8s-sniffer-agent,sniffer.session=s1,sniffer.node=n1''"
  by (simp add: session_node_label_selector_def session_label_selector_def
      validate_label_value_def demo_lib_def label_defs)

lemma demo_session_selector:
  "session_label_selector demo_lib ''s1'' = Inr ''app=k8s-sniffer-agent,sniffer.session=s1''"
  by (simp add: session_label_selector_def validate_label_value_def demo_lib_def label_defs)

lemma demo_manager_cfg [simp]: "mg_cfg demo_manager = demo_agent_config"
  by (simp add: demo_manager_def new_manager_def demo_agent_config_defaults)

lemma demo_created_labels: "kp_labels demo_created =
   [(''app'', ''k8s-sniffer-agent''), (''sniffer.session'', ''s1''), (''sniffer.node'', ''n1'')]"
  using pod_manifest_fields [OF demo_manifest_ok] by (simp add: demo_created_def label_defs)

lemma demo_create:
  "create_for_node demo_lib [] demo_kube demo_manager ''s1'' ''n1'' demo_opts demo_empty
     = (Inr demo_created, demo_one)"
proof -
  have man: "pod_manifest demo_lib [] ''s1'' (op_stream_id demo_opts) ''n1'' demo_agent_config
      (op_active_deadline demo_opts) = Inr demo_manifest"
    using demo_manifest_ok by (simp add: demo_opts_def)
  have gen: "kp_generate_name demo_manifest = ''k8s-sniffer-''"
    and cts: "map ct_name (kp_containers demo_manifest) = [''agent'']"
    using pod_manifest_fields [OF demo_manifest_ok]
    by (simp_all add: GenerateNamePrefix_def AgentContainerName_def)
  from cts have cs: "map (\<lambda>c. \<lparr>cst_name = ct_name c, cst_ready = True, cst_waiting = None,
        cst_terminated = None\<rparr>) (kp_containers demo_manifest)
      = [\<lparr>cst_name = ''agent'', cst_ready = True, cst_waiting = None, cst_terminated = None\<rparr>]"
    by auto
  have ns: "ac_namespace demo_agent_config = ''k8s-sniffer''" by (simp add: demo_agent_config_def)
  have zero: "show_nat 0 = ''0''" by code_simp
  have create: "k_create demo_kube ''k8s-sniffer'' demo_manifest demo_empty = (Inr demo_created, demo_one)"
    by (simp add: demo_kube_def demo_create_def demo_empty_def demo_one_def demo_created_def gen cs
        Let_def zero)
  have l: "k_list demo_kube ns sel demo_empty = (Inr [], demo_empty)" for ns sel
    by (simp add: demo_kube_def demo_list_def demo_empty_def)
  have gone: "wait_selector_gone demo_kube demo_manager sel demo_empty = (None, demo_empty)" for sel
    unfolding wait_selector_gone_def by (rule poll_first) (simp add: l)
  have id: "op_stream_id demo_opts \<noteq> []" by (simp add: demo_opts_def)
  show ?thesis
    by (simp add: create_for_node_def agent_on_node_def delete_agent_on_node_def
        demo_node_selector l gone man ns create id)
qed

theorem create_for_node_unique_witness:
  "\<exists>manifest w2. pod_manifest demo_lib [] ''s1'' ''str1'' ''n1'' demo_agent_config 1500000000 = Inr manifest
     \<and> k_create demo_kube ''k8s-sniffer'' manifest w2 = (Inr demo_created, demo_one)"
proof -
  have l: "k_list demo_kube ns sel demo_empty = (Inr [], demo_empty)" for ns sel
    by (simp add: demo_kube_def demo_list_def demo_empty_def)
  have ns: "ac_namespace demo_agent_config = ''k8s-sniffer''" by (simp add: demo_agent_config_def)
  from create_for_node_unique [OF demo_create] show ?thesis
    by (auto simp: l demo_opts_def ns)
qed

lemma demo_wait_ready:
  "wait_ready demo_kube demo_manager None (Some demo_created) demo_one = (None, demo_one)"
proof -
  have cond: "kp_conditions demo_manifest = []"
    using pod_manifest_fields [OF demo_manifest_ok] by simp
  have get: "k_get demo_kube (kp_namespace demo_created) (kp_name demo_created) demo_one
      = (Inr demo_created, demo_one)"
    by (simp add: demo_kube_def demo_get_def demo_one_def)
  have "ready_check ns name demo_created = Inr True" for ns name
    by (simp add: ready_check_True_iff demo_created_def pod_terminal_reason_def cond
        container_terminal_reason_def)
  with get show ?thesis
    by (simp add: wait_ready_def poll_first)
qed

theorem wait_ready_sound_witness:
  "\<exists>w0 current. k_get demo_kube ''k8s-sniffer'' ''k8s-sniffer-0'' w0 = (Inr current, demo_one) \<and>
     list_all cst_ready (kp_container_statuses current)"
  using wait_ready_sound [OF demo_wait_ready] by (auto simp: demo_created_def)

lemma demo_delete_session:
  "delete_session_agents demo_lib demo_kube demo_manager ''s1'' demo_one
     = (None, \<lparr>dc_pods = [], dc_next = 1\<rparr>)"
proof -
  have ns: "ac_namespace demo_agent_config = ''k8s-sniffer''" by (simp add: demo_agent_config_def)
  have sel: "selects ''app=k8s-sniffer-agent,sniffer.session=s1'' demo_created"
    by (simp add: selects_def demo_created_labels cut_def)
  have kns: "kp_namespace demo_created = ''k8s-sniffer''" by (simp add: demo_created_def)
  show ?thesis
    by (simp add: delete_session_agents_def demo_session_selector list_session_agents_def ns
        demo_kube_def demo_delete_collection_def demo_list_def demo_one_def sel kns)
qed

theorem delete_session_agents_confirmed_witness:
  "\<exists>sel w0. k_list demo_kube ''k8s-sniffer'' sel w0 = (Inr [], \<lparr>dc_pods = [], dc_next = 1\<rparr>)"
  using delete_session_agents_confirmed [OF demo_delete_session]
  by (auto simp: demo_agent_config_def)

end
