(* ===== verification/Hub_Types.thy ===== *)
theory Hub_Types imports Discovery Agent_Lifecycle begin

text \<open>
  What the parts of \<open>pkg/hub\<close> exchange: the errors of the session and of the handlers, and
  the session events.  An error or a message is a constructor per format string of the code,
  with the values the code prints into it as arguments, so that two different texts are two
  different values.
\<close>

datatype hub_error =
    SessionIdMismatch
  | NotAccepting session_phase
  | EnteredState session_phase
  | NoAgentForNode string
  | NoAssignmentForNode string
  | IdentityRequired
  | AgentIdentityMismatch
  | StreamIdMismatch
  | TooManyRecords nat
  | InRecord nat hub_error
  | BadSequence u64 u64
  | PayloadBytesExceed
  | CaptureStreamActive
  | SessionStopping
  | AgentRemoved
  | SessionStoppedErr
  | RecordRequired
  | InvalidSource packet_source
  | InvalidTimestamp
  | PayloadExceedsLength
  | RecordPayloadRequired
  | TlsEventsDisabled
  | ContextEnded
  | PacketLogClosedErr
  | PodMatcherErr spec_error
  | ListPodsErr discovery_error
  | NoPodsMatched string
  | StoppedDuringScheduling
  | AgentErr lifecycle_error
  | StreamIdErr stream_id_error
  | WaitForAgent string lifecycle_error
  | StoppedWhileWaiting string
  | SessionNotActive
  | OfSession string hub_error

datatype message =
    MsgText string
  | MsgErr hub_error
  | MsgState session_phase
  | MsgStats u64 u64 u64
  | MsgSkippedPod string string
  | MsgAgentDropped u64
  | MsgStatsUpdated
  | MsgAgentState agent_phase
  | MsgTls string tls_status string
  | MsgDrainTimedOut
  | MsgDetached string string
  | MsgMatched string string
  | MsgLiveUpdate string hub_error
  | MsgTargetsUpdated string
  | MsgScheduling string string
  | MsgReady string string
  | MsgRemoving string
  | MsgGone string

record capture_error =
  ce_stage :: error_stage
  ce_reason :: error_reason
  ce_detail :: message
  ce_retryable :: bool
  ce_pod :: "pod_ref option"
  ce_node :: string
  ce_agent_pod :: string
  ce_stream_id :: string

definition empty_error :: capture_error where
  "empty_error = \<lparr>ce_stage = Stage_Unspecified, ce_reason = Reason_Unspecified,
     ce_detail = MsgText [], ce_retryable = False, ce_pod = None, ce_node = [],
     ce_agent_pod = [], ce_stream_id = []\<rparr>"

datatype event_payload =
    SessionStateEvent session_phase
  | StatsEvent session_stats
  | ErrorEvent capture_error
  | AgentStateEvent agent_state_changed
  | TlsStateEvent tls_state_changed
  | PodAttached "pod_ref option"
  | PodDetached pod_ref string

record session_event =
  se_session_id :: string
  se_timestamp :: "int option"
  se_severity :: severity
  se_message :: message
  se_payload :: event_payload

text \<open>
  A \<open>ReportStatusRequest\<close>: what the getters of its oneof payload return, at most one of them set.
\<close>

record status_report =
  sr_session_id :: string
  sr_node :: string
  sr_stream_id :: string
  sr_error :: "capture_error option"
  sr_stats :: "session_stats option"
  sr_agent_state :: "agent_state_changed option"
  sr_tls_state :: "tls_state_changed option"

text \<open>The proto \<open>Session\<close>, what \<open>snapshot\<close> returns.\<close>

record session_proto =
  sn_id :: string
  sn_spec :: capture_spec
  sn_state :: session_phase
  sn_failure :: "hub_error option"
  sn_created_at :: "int option"
  sn_stopped_at :: "int option"
  sn_nodes :: "string list"

definition isTerminalState :: "session_phase \<Rightarrow> bool" where
  "isTerminalState st = (st = Session_Stopped \<or> st = Session_Failed)"

definition sessionScheduling :: "session_phase \<Rightarrow> bool" where
  "sessionScheduling st = (st = Session_Starting \<or> st = Session_Running)"

end
