(* ===== verification/Agent_Runner.thy ===== *)
theory Agent_Runner imports Agent_Config Wire_Capture Netns_Resolver Tls_Worker Hub_Types begin

text \<open>
  \<open>pkg/agent/runner.go\<close> and the metadata of \<open>pkg/agent/hubclient\<close>: the node agent.  \<open>captures\<close> is
  the map of running captures by pod UID; \<open>capture_loop\<close> is one capture's reading loop,
  \<open>send_batches\<close> the single sender behind the channel of batches, \<open>run_start\<close> and \<open>run_finish\<close>
  the two ends of \<open>Run\<close>.  What the hub, the resolver, \<open>tcpdump\<close> and the contexts do at each step
  is an argument; the goroutines that call these functions are interleaved in \<open>Agent_Run\<close>.  An
  error of a library is its text with the verdict of
  \<open>errors.Is(err, context.Canceled)\<close>.
\<close>

datatype go_err = GoErr (ge_text: string) (ge_canceled: bool)

section \<open>Errors of a capture\<close>

datatype target_error =
    CaptureFailure error_stage error_reason go_err
  | PlainErr go_err
  | JoinErr target_error target_error

fun te_text :: "target_error \<Rightarrow> string" where
  "te_text (CaptureFailure st re e) = ge_text e"
| "te_text (PlainErr e) = ge_text e"
| "te_text (JoinErr a b) = te_text a @ newline # te_text b"

fun te_canceled :: "target_error \<Rightarrow> bool" where
  "te_canceled (CaptureFailure st re e) = ge_canceled e"
| "te_canceled (PlainErr e) = ge_canceled e"
| "te_canceled (JoinErr a b) = (te_canceled a \<or> te_canceled b)"

text \<open>\<open>errors.As(err, &captureFailure)\<close>: the first one in the error tree.\<close>

fun te_failure :: "target_error \<Rightarrow> (error_stage \<times> error_reason) option" where
  "te_failure (CaptureFailure st re e) = Some (st, re)"
| "te_failure (PlainErr e) = None"
| "te_failure (JoinErr a b) = (case te_failure a of Some f \<Rightarrow> Some f | None \<Rightarrow> te_failure b)"

fun join_errors :: "target_error option \<Rightarrow> target_error \<Rightarrow> target_error" where
  "join_errors None b = b"
| "join_errors (Some a) b = JoinErr a b"

section \<open>Assignments\<close>

datatype assignment_error =
    AssignmentRequired | AssignmentSession | AssignmentNode | AssignmentStream
  | AssignmentNoTargets | TargetIdentity nat | TargetNode nat

fun validate_targets :: "string \<Rightarrow> nat \<Rightarrow> target list \<Rightarrow> assignment_error option" where
  "validate_targets node i [] = None"
| "validate_targets node i (t # ts) =
     (let pod = deref_pod (tg_pod t) in
      if pr_namespace pod = [] \<or> pr_name pod = [] \<or> pr_uid pod = [] then Some (TargetIdentity i)
      else if pr_node pod \<noteq> node then Some (TargetNode i)
      else validate_targets node (Suc i) ts)"

definition validate_assignment :: "config \<Rightarrow> agent_assignment option \<Rightarrow> assignment_error option" where
  "validate_assignment cfg assignment =
     (case assignment of
        None \<Rightarrow> Some AssignmentRequired
      | Some a \<Rightarrow>
          if as_session_id a \<noteq> cf_session_id cfg then Some AssignmentSession
          else if as_node a \<noteq> cf_node cfg then Some AssignmentNode
          else if as_stream_id a = [] \<or> as_stream_id a \<noteq> cf_stream_id cfg then Some AssignmentStream
          else if length (as_targets a) = 0 then Some AssignmentNoTargets
          else validate_targets (cf_node cfg) 0 (as_targets a))"

text \<open>The running captures: each with the assignment it was started under.\<close>

type_synonym captures = "(string, agent_assignment \<times> target) gomap"

definition tgt_uid :: "target \<Rightarrow> string" where
  "tgt_uid t = pr_uid (deref_pod (tg_pod t))"

definition start_target :: "agent_assignment \<Rightarrow> target \<Rightarrow> captures \<Rightarrow> captures" where
  "start_target asg t caps =
     (case map_of caps (tgt_uid t) of
        Some _ \<Rightarrow> caps
      | None \<Rightarrow> AList.update (tgt_uid t) (asg, t) caps)"

definition stop_target :: "string \<Rightarrow> captures \<Rightarrow> captures" where
  "stop_target uid caps = AList.delete uid caps"

definition desired_targets :: "agent_assignment \<Rightarrow> (string, target) gomap" where
  "desired_targets asg = fold (\<lambda>t m. AList.update (tgt_uid t) t m) (as_targets asg) []"

definition apply_assignment :: "config \<Rightarrow> agent_assignment \<Rightarrow> captures \<Rightarrow> captures" where
  "apply_assignment cfg asg caps =
     (case validate_assignment cfg (Some asg) of
        Some e \<Rightarrow> caps
      | None \<Rightarrow>
          let desired = desired_targets asg;
              removed = filter (\<lambda>uid. map_of desired uid = None) (keys caps) in
          fold (\<lambda>(uid, t). start_target asg t) desired (fold stop_target removed caps))"

section \<open>One capture\<close>

definition defaultBatchSize :: nat where "defaultBatchSize = 1"

definition empty_batch :: "agent_assignment \<Rightarrow> capture_batch" where
  "empty_batch a = \<lparr>cb_session_id = as_session_id a, cb_node = as_node a, cb_stream_id = as_stream_id a,
     cb_records = [], cb_dropped = 0\<rparr>"

definition clone_batch :: "capture_batch \<Rightarrow> capture_batch" where
  "clone_batch b = \<lparr>cb_session_id = cb_session_id b, cb_node = cb_node b, cb_stream_id = cb_stream_id b,
     cb_records = cb_records b, cb_dropped = cb_dropped b\<rparr>"

text \<open>
  One turn of the reading loop: what the pcap reader returns, the context's error when a read
  fails, and the error of \<open>sendBatch\<close> if this turn sends.
\<close>

record capture_turn =
  ct_read :: pcap_read
  ct_ctx :: "go_err option"
  ct_send :: "go_err option"

datatype loop_end = LoopRunning | LoopReturned "target_error option"

definition flush_batch :: "capture_turn \<Rightarrow> capture_batch \<Rightarrow> capture_batch list \<times> target_error option" where
  "flush_batch t b =
     (if length (cb_records b) = 0 then ([], None)
      else (case ct_send t of
              Some e \<Rightarrow> ([], Some (PlainErr e))
            | None \<Rightarrow> ([clone_batch b], None)))"

fun capture_loop ::
    "(int \<Rightarrow> timestamp) \<Rightarrow> link_type \<Rightarrow> pod_ref option \<Rightarrow> capture_turn list \<Rightarrow> capture_batch
       \<Rightarrow> capture_batch list \<times> loop_end" where
  "capture_loop newts lt pod [] b = ([], LoopRunning)"
| "capture_loop newts lt pod (t # ts) b =
     (case read_frame newts lt pod (ct_read t) of
        Inl (ReadError e) \<Rightarrow>
          (case ct_ctx t of
             Some ctxErr \<Rightarrow>
               (case flush_batch t b of
                  (bs, Some flushErr) \<Rightarrow> (bs, LoopReturned (Some flushErr))
                | (bs, None) \<Rightarrow> (bs, LoopReturned (Some (PlainErr ctxErr))))
           | None \<Rightarrow> ([], LoopReturned (Some (CaptureFailure Stage_Capture_Stream Reason_Tool_Failed (GoErr e False)))))
      | Inl _ \<Rightarrow> (case flush_batch t b of (bs, err) \<Rightarrow> (bs, LoopReturned err))
      | Inr frame \<Rightarrow>
          (let b1 = b\<lparr>cb_records := cb_records b @ [WireFrame frame]\<rparr> in
           if length (cb_records b1) \<ge> defaultBatchSize then
             (case ct_send t of
                Some e \<Rightarrow> ([], LoopReturned (Some (PlainErr e)))
              | None \<Rightarrow>
                  (case capture_loop newts lt pod ts (b1\<lparr>cb_records := []\<rparr>) of
                     (bs, r) \<Rightarrow> (clone_batch b1 # bs, r)))
           else capture_loop newts lt pod ts b1))"

text \<open>The deferred close of the pcap stream, with the context's and the child's verdict.\<close>

definition deferred_close :: "go_err option \<Rightarrow> go_err option \<Rightarrow> target_error option \<Rightarrow> target_error option" where
  "deferred_close ctxErr closeErr ret =
     (case ctxErr of
        Some ce \<Rightarrow>
          (case ret of
             None \<Rightarrow> Some (PlainErr ce)
           | Some e \<Rightarrow> if te_canceled e then Some (PlainErr ce) else ret)
      | None \<Rightarrow>
          (case closeErr of
             None \<Rightarrow> ret
           | Some e \<Rightarrow> Some (join_errors ret (CaptureFailure Stage_Capture_Stream Reason_Tool_Failed e))))"

record capture_world =
  cw_resolve :: "pod_ref option \<Rightarrow> go_err + string"
  cw_start :: "string \<Rightarrow> u32 \<Rightarrow> string \<Rightarrow> string list \<Rightarrow> go_err option"
  cw_header :: "go_err + link_type"
  cw_turns :: "capture_turn list"
  cw_ctx_end :: "go_err option"
  cw_close :: "go_err option"
  cw_has_tls :: bool
  cw_newts :: "int \<Rightarrow> timestamp"

text \<open>
  \<open>captureTarget\<close>: the pid the TLS worker is started for, if any, the batches put on the
  channel and how it ended.
\<close>

definition target_snaplen :: "target \<Rightarrow> u32" where
  "target_snaplen t = (if tg_snaplen t = 0 then 262144 else tg_snaplen t)"

definition read_target ::
    "capture_world \<Rightarrow> agent_assignment \<Rightarrow> target \<Rightarrow> capture_batch list \<times> loop_end" where
  "read_target W asg t =
     (case (case cw_header W of
              Inl e \<Rightarrow> ([], LoopReturned (Some (CaptureFailure Stage_Capture_Start Reason_Tool_Failed e)))
            | Inr lt \<Rightarrow> capture_loop (cw_newts W) lt (tg_pod t) (cw_turns W) (empty_batch asg)) of
        (bs, LoopRunning) \<Rightarrow> (bs, LoopRunning)
      | (bs, LoopReturned ret) \<Rightarrow> (bs, LoopReturned (deferred_close (cw_ctx_end W) (cw_close W) ret)))"

definition capture_target ::
    "capture_world \<Rightarrow> agent_assignment \<Rightarrow> target \<Rightarrow> int option \<times> capture_batch list \<times> loop_end" where
  "capture_target W asg t =
     (case cw_resolve W (tg_pod t) of
        Inl e \<Rightarrow> (None, [], LoopReturned (Some (CaptureFailure Stage_Netns_Resolve Reason_Not_Found e)))
      | Inr netnsPath \<Rightarrow>
          (let tls = (if cw_has_tls W \<and> wants_attach (tg_tls_mode t)
                      then Some (pid_from_netns_path netnsPath) else None) in
           case cw_start W netnsPath (target_snaplen t) (tg_bpf_filter t) (tg_interfaces t) of
             Some e \<Rightarrow> (tls, [], LoopReturned (Some (CaptureFailure Stage_Capture_Start Reason_Tool_Failed e)))
           | None \<Rightarrow> (tls, read_target W asg t)))"

section \<open>Sending\<close>

fun stamp_records :: "u64 \<Rightarrow> capture_record list \<Rightarrow> capture_record list \<times> u64" where
  "stamp_records seqno [] = ([], seqno)"
| "stamp_records seqno (r # rs) =
     (case r of
        WireFrame f \<Rightarrow>
          (case stamp_records (seqno + 1) rs of
             (rs', n) \<Rightarrow> (WireFrame (f\<lparr>pf_sequence := seqno + 1\<rparr>) # rs', n))
      | _ \<Rightarrow> (case stamp_records seqno rs of (rs', n) \<Rightarrow> (r # rs', n)))"

text \<open>
  \<open>sendBatches\<close> from this sequence on: each batch comes with the error of its \<open>Send\<close>.  The
  result is the batches sent and the error, which also cancels the captures.
\<close>

fun send_batches :: "u64 \<Rightarrow> (capture_batch \<times> go_err option) list \<Rightarrow> capture_batch list \<times> go_err option" where
  "send_batches seqno [] = ([], None)"
| "send_batches seqno ((b, res) # bs) =
     (case stamp_records seqno (cb_records b) of
        (rs, n) \<Rightarrow>
          (case res of
             Some e \<Rightarrow> ([], Some e)
           | None \<Rightarrow>
               (case send_batches n bs of (sent, err) \<Rightarrow> (b\<lparr>cb_records := rs\<rparr> # sent, err))))"

section \<open>Reports\<close>

definition bare_report :: "agent_assignment \<Rightarrow> status_report" where
  "bare_report asg = \<lparr>sr_session_id = as_session_id asg, sr_node = as_node asg,
     sr_stream_id = as_stream_id asg, sr_error = None, sr_stats = None, sr_agent_state = None,
     sr_tls_state = None\<rparr>"

definition tls_status_report :: "agent_assignment \<Rightarrow> target \<Rightarrow> worker_status \<Rightarrow> status_report option" where
  "tls_status_report asg t st =
     (if fst st = Tls_Unspecified then None
      else Some ((bare_report asg)\<lparr>sr_tls_state :=
        Some \<lparr>tsc_pod = tg_pod t, tsc_status = fst st, tsc_detail = snd st\<rparr>\<rparr>))"

definition capture_error_report ::
    "agent_assignment \<Rightarrow> string \<Rightarrow> target \<Rightarrow> target_error \<Rightarrow> status_report" where
  "capture_error_report asg agentPod t err =
     (case (case te_failure err of Some f \<Rightarrow> f | None \<Rightarrow> (Stage_Capture_Stream, Reason_Internal)) of
        (stage, reason) \<Rightarrow>
          (bare_report asg)\<lparr>sr_error := Some \<lparr>ce_stage = stage, ce_reason = reason,
             ce_detail = MsgText (te_text err), ce_retryable = False, ce_pod = tg_pod t,
             ce_node = as_node asg, ce_agent_pod = agentPod, ce_stream_id = as_stream_id asg\<rparr>\<rparr>)"

text \<open>
  The goroutine of \<open>startTarget\<close> after \<open>captureTarget\<close>: a nil or cancelled end is silent, any
  other is kept for \<open>Run\<close>'s result and reported while the agent's context is alive.
\<close>

definition capture_ended ::
    "bool \<Rightarrow> agent_assignment \<Rightarrow> string \<Rightarrow> target \<Rightarrow> target_error option
       \<Rightarrow> target_error list \<times> status_report list" where
  "capture_ended ctxDone asg agentPod t err =
     (case err of
        None \<Rightarrow> ([], [])
      | Some e \<Rightarrow>
          if te_canceled e then ([], [])
          else ([e], if ctxDone then [] else [capture_error_report asg agentPod t e]))"

text \<open>
  \<open>runTLS\<close>: its \<open>select\<close> receives statuses and events, the end of either channel, the end of
  the context; \<open>sent\<close> is false when the context ends before the batch is taken.  The result is
  the reports made and the batches sent.
\<close>

datatype tls_input = TlsStatusIn worker_status | TlsEventIn tls_event bool | TlsStatusesDone | TlsEventsDone | TlsCtxDone

definition tls_batch :: "agent_assignment \<Rightarrow> tls_event \<Rightarrow> capture_batch" where
  "tls_batch asg ev = (empty_batch asg)\<lparr>cb_records := [TlsEvent ev]\<rparr>"

fun run_tls ::
    "agent_assignment \<Rightarrow> target \<Rightarrow> bool \<times> bool \<Rightarrow> tls_input list \<Rightarrow> status_report list \<times> capture_batch list" where
  "run_tls asg t live [] = ([], [])"
| "run_tls asg t (evs, sts) (TlsCtxDone # ins) = ([], [])"
| "run_tls asg t (evs, sts) (TlsStatusIn st # ins) =
     (if \<not> sts then run_tls asg t (evs, sts) ins
      else case run_tls asg t (evs, sts) ins of
        (rs, bs) \<Rightarrow> ((case tls_status_report asg t st of None \<Rightarrow> rs | Some r \<Rightarrow> r # rs), bs))"
| "run_tls asg t (evs, sts) (TlsEventIn ev sent # ins) =
     (if \<not> evs then run_tls asg t (evs, sts) ins
      else if \<not> sent then ([], [])
      else case run_tls asg t (evs, sts) ins of (rs, bs) \<Rightarrow> (rs, tls_batch asg ev # bs))"
| "run_tls asg t (evs, sts) (TlsStatusesDone # ins) =
     (if evs then run_tls asg t (evs, False) ins else ([], []))"
| "run_tls asg t (evs, sts) (TlsEventsDone # ins) =
     (if sts then run_tls asg t (False, sts) ins else ([], []))"

text \<open>\<open>Attach\<close> itself failed: one report, no capture.\<close>

definition run_tls_attach_failed :: "agent_assignment \<Rightarrow> target \<Rightarrow> string \<Rightarrow> status_report list" where
  "run_tls_attach_failed asg t err =
     (case tls_status_report asg t (Tls_Unsupported, err) of None \<Rightarrow> [] | Some r \<Rightarrow> [r])"

text \<open>\<open>runTLS\<close> on an attacher: its error, if it has one, and what its channels deliver.\<close>

definition tls_target_of :: "agent_assignment \<Rightarrow> target \<Rightarrow> int \<Rightarrow> tls_target" where
  "tls_target_of asg t pid = \<lparr>tt_pod = tg_pod t, tt_pid = pid, tt_mode = tg_tls_mode t,
     tt_session_id = as_session_id asg\<rparr>"

definition run_tls_target ::
    "(tls_target \<Rightarrow> string option \<times> tls_input list) \<Rightarrow> agent_assignment \<Rightarrow> target \<Rightarrow> int
       \<Rightarrow> status_report list \<times> capture_batch list" where
  "run_tls_target attacher asg t pid =
     (case attacher (tls_target_of asg t pid) of
        (Some err, ins) \<Rightarrow> (run_tls_attach_failed asg t err, [])
      | (None, ins) \<Rightarrow> run_tls asg t (True, True) ins)"

section \<open>Run\<close>

datatype run_error =
    RunConfig "config_error list" | ResolverRequired | CapturerRequired
  | RunErr go_err | RunAssignment assignment_error
  | RunTarget string string target_error
  | RunJoined "run_error list"

record run_world =
  rw_has_resolver :: bool
  rw_has_capturer :: bool
  rw_dial :: "go_err option"
  rw_watch :: "go_err option"
  rw_first :: "go_err + agent_assignment option"
  rw_stream :: "go_err option"

definition run_start :: "config \<Rightarrow> run_world \<Rightarrow> run_error + agent_assignment \<times> captures" where
  "run_start cfg W =
     (if config_validate cfg \<noteq> [] then Inl (RunConfig (config_validate cfg))
      else if \<not> rw_has_resolver W then Inl ResolverRequired
      else if \<not> rw_has_capturer W then Inl CapturerRequired
      else (case rw_dial W of Some e \<Rightarrow> Inl (RunErr e) | None \<Rightarrow>
            (case rw_watch W of Some e \<Rightarrow> Inl (RunErr e) | None \<Rightarrow>
            (case rw_first W of Inl e \<Rightarrow> Inl (RunErr e) | Inr asg \<Rightarrow>
            (case validate_assignment cfg asg of Some e \<Rightarrow> Inl (RunAssignment e) | None \<Rightarrow>
            (case rw_stream W of Some e \<Rightarrow> Inl (RunErr e) | None \<Rightarrow>
               (case asg of None \<Rightarrow> Inl (RunAssignment AssignmentRequired)
                | Some a \<Rightarrow> Inr (a, apply_assignment cfg a []))))))))"

definition run_finish ::
    "go_err option \<Rightarrow> go_err option \<Rightarrow> go_err option \<Rightarrow> run_error list \<Rightarrow> run_error option" where
  "run_finish ctxErr senderErr closeErr captureErrs =
     (let errs = captureErrs
                 @ (case senderErr of Some e \<Rightarrow> if ge_canceled e then [] else [RunErr e] | None \<Rightarrow> [])
                 @ (if senderErr = None then (case closeErr of Some e \<Rightarrow> [RunErr e] | None \<Rightarrow> []) else []) in
      case ctxErr of
        Some e \<Rightarrow> Some (RunErr e)
      | None \<Rightarrow> if errs = [] then None else Some (RunJoined errs))"

section \<open>Identity metadata\<close>

definition AgentStreamMetadataKey :: string where "AgentStreamMetadataKey = ''x-k8s-sniffer-stream-id''"
definition AgentPodMetadataKey :: string where "AgentPodMetadataKey = ''x-k8s-sniffer-agent-pod''"

text \<open>The key and value pairs \<open>withAgentIdentity\<close> appends to the outgoing metadata.\<close>

definition with_agent_identity :: "string \<Rightarrow> string \<Rightarrow> (string \<times> string) list \<Rightarrow> (string \<times> string) list" where
  "with_agent_identity agentPod streamID md =
     md @ [(AgentStreamMetadataKey, streamID), (AgentPodMetadataKey, agentPod)]"

end
