(* ===== verification/Fanout.thy ===== *)
theory Fanout imports Go_Prelude begin

text \<open>
  The interface the two fan-out logs of the hub share (\<open>eventLog\<close> of
  \<open>pkg/hub/events.go\<close> and \<open>packetLog\<close> of \<open>pkg/hub/packets.go\<close>): numbered
  subscribers that come and go, and a closing that removes them all.  What clients may rely on
  is proved here once; each log interprets the locale on its own operations.
\<close>

locale subscription_log =
  fixes ok :: "'s \<Rightarrow> bool"
    and subs :: "'s \<Rightarrow> nat set"
    and closed :: "'s \<Rightarrow> bool"
    and next_id :: "'s \<Rightarrow> nat"
    and subscribe :: "'s \<Rightarrow> (nat \<times> 's) option"
    and unsubscribe :: "nat \<Rightarrow> 's \<Rightarrow> 's"
    and close_subs :: "'s \<Rightarrow> 's"
  assumes ok_fresh: "ok s \<Longrightarrow> i \<in> subs s \<Longrightarrow> i < next_id s"
    and subscribe_law: "ok s \<Longrightarrow> subscribe s = Some (i, t) \<Longrightarrow>
      i = next_id s \<and> next_id t = Suc i \<and> subs t = insert i (subs s) \<and> closed t = closed s \<and> ok t"
    and subscribe_open: "ok s \<Longrightarrow> \<not> closed s \<Longrightarrow> subscribe s \<noteq> None"
    and unsubscribe_law: "ok s \<Longrightarrow>
      subs (unsubscribe i s) = subs s - {i} \<and> next_id (unsubscribe i s) = next_id s \<and>
      closed (unsubscribe i s) = closed s \<and> ok (unsubscribe i s)"
    and close_law: "ok s \<Longrightarrow>
      subs (close_subs s) = {} \<and> next_id (close_subs s) = next_id s \<and> ok (close_subs s)"
begin

lemma subscribe_fresh: "ok s \<Longrightarrow> subscribe s = Some (i, t) \<Longrightarrow> i \<notin> subs s"
  using ok_fresh subscribe_law by blast

lemma unsubscribe_undoes:
  "ok s \<Longrightarrow> subscribe s = Some (i, t) \<Longrightarrow> subs (unsubscribe i t) = subs s"
  using subscribe_law subscribe_fresh unsubscribe_law by fastforce

text \<open>An identifier is never handed out twice, whatever happened in between.\<close>

lemma ids_increase:
  assumes "ok s" and "subscribe s = Some (i, t)" and "ok u" and "next_id t \<le> next_id u"
    and "subscribe u = Some (j, v)"
  shows "i < j"
  using subscribe_law [OF assms(1,2)] subscribe_law [OF assms(3,5)] assms(4) by auto

lemma unsubscribe_idem: "ok s \<Longrightarrow> subs (unsubscribe i (unsubscribe i s)) = subs (unsubscribe i s)"
  using unsubscribe_law by auto

end

end
