(* ===== verification/Event_Log.thy ===== *)
theory Event_Log imports Fanout "HOL-Library.Multiset" begin

text \<open>
  \<open>pkg/hub/events.go\<close>: the replay buffer and live fan-out of session events.  \<open>event_log\<close>
  is the log with its channels; a channel keeps its identity (the subscriber's number) after it
  left the map, because \<open>append\<close> copies the channels under the lock and sends on them after
  releasing it.  \<open>el_step\<close> is the concurrent program: each rule is one critical section or
  one channel operation, so that subscribing, unsubscribing and closing can fall between the
  copy and the sends.  \<open>el_history\<close> and \<open>el_taken\<close> record what a subscriber got at
  subscription and what it received since.
\<close>

text \<open>Importing a library theory brings these two rules back into the simplifier.\<close>

declare map_of_eq_Some_iff [simp del] Some_eq_map_of_iff [simp del]

section \<open>State and operations\<close>

record 'e event_log =
  el_events :: "'e list"
  el_subs :: "nat list"
  el_chans :: "(nat, 'e chan) gomap"
  el_next_id :: nat
  el_closed :: bool
  el_history :: "(nat, 'e list) gomap"
  el_taken :: "(nat, 'e list) gomap"

definition event_chan_cap :: nat where "event_chan_cap = 64"

definition new_event_log :: "'e event_log" where
  "new_event_log = \<lparr>el_events = [], el_subs = [], el_chans = [], el_next_id = 0,
     el_closed = False, el_history = [], el_taken = []\<rparr>"

text \<open>The critical section of \<open>append\<close>: \<open>None\<close> on a closed log, else the new log.\<close>

definition append_locked :: "'e \<Rightarrow> 'e event_log \<Rightarrow> 'e event_log option" where
  "append_locked ev l =
     (if el_closed l then None else Some (l\<lparr>el_events := el_events l @ [ev]\<rparr>))"

text \<open>One send of the loop after it.\<close>

definition append_send :: "'e \<Rightarrow> nat \<Rightarrow> 'e event_log \<Rightarrow> 'e event_log chan_outcome" where
  "append_send ev i l =
     (case map_of (el_chans l) i of
        None \<Rightarrow> ChBlocked
      | Some c \<Rightarrow>
          (case chan_send ev c of
             ChPanic \<Rightarrow> ChPanic
           | ChBlocked \<Rightarrow> ChBlocked
           | ChOk c' \<Rightarrow> ChOk (l\<lparr>el_chans := AList.update i c' (el_chans l)\<rparr>)))"

definition subscribe_with_replay :: "'e event_log \<Rightarrow> (nat \<times> 'e list) \<times> 'e event_log" where
  "subscribe_with_replay l =
     (let i = el_next_id l; history = el_events l in
      ((i, history),
       l\<lparr>el_next_id := Suc i, el_subs := el_subs l @ [i],
         el_chans := AList.update i (make_chan event_chan_cap) (el_chans l),
         el_history := AList.update i history (el_history l),
         el_taken := AList.update i [] (el_taken l)\<rparr>))"

text \<open>
  Closing the channel of a subscriber that is in the map; the map holds open channels only,
  so this close does not panic (\<open>el_ok\<close> below).
\<close>

definition close_sub :: "nat \<Rightarrow> 'e event_log \<Rightarrow> 'e event_log" where
  "close_sub i l =
     (case map_of (el_chans l) i of
        None \<Rightarrow> l
      | Some c \<Rightarrow> l\<lparr>el_chans := AList.update i (c\<lparr>ch_closed := True\<rparr>) (el_chans l)\<rparr>)"

definition el_unsubscribe :: "nat \<Rightarrow> 'e event_log \<Rightarrow> 'e event_log" where
  "el_unsubscribe i l =
     (if i \<in> set (el_subs l)
      then close_sub i (l\<lparr>el_subs := filter (\<lambda>j. j \<noteq> i) (el_subs l)\<rparr>) else l)"

definition el_close :: "'e event_log \<Rightarrow> 'e event_log" where
  "el_close l =
     (if el_closed l then l
      else fold el_unsubscribe (el_subs l) (l\<lparr>el_closed := True\<rparr>))"

definition el_got :: "(nat, 'e list) gomap \<Rightarrow> nat \<Rightarrow> 'e list" where
  "el_got m i = (case map_of m i of None \<Rightarrow> [] | Some es \<Rightarrow> es)"

text \<open>The receive of \<open>WatchEvents\<close>.\<close>

definition el_receive :: "nat \<Rightarrow> 'e event_log \<Rightarrow> ('e \<times> 'e event_log) option" where
  "el_receive i l =
     (case map_of (el_chans l) i of
        None \<Rightarrow> None
      | Some c \<Rightarrow>
          (case ch_buf c of
             [] \<Rightarrow> None
           | ev # rest \<Rightarrow>
               Some (ev, l\<lparr>el_chans := AList.update i (c\<lparr>ch_buf := rest\<rparr>) (el_chans l),
                   el_taken := AList.update i (el_got (el_taken l) i @ [ev]) (el_taken l)\<rparr>)))"

text \<open>
  \<open>append\<close> run to its end with nothing in between: the sends go to every subscriber of the
  map in the order \<open>ids\<close>.
\<close>

fun append_sends :: "'e \<Rightarrow> nat list \<Rightarrow> 'e event_log \<Rightarrow> 'e event_log chan_outcome" where
  "append_sends ev [] l = ChOk l"
| "append_sends ev (i # ids) l =
     (case append_send ev i l of ChOk l' \<Rightarrow> append_sends ev ids l' | r \<Rightarrow> r)"

definition el_append :: "'e \<Rightarrow> 'e event_log \<Rightarrow> 'e event_log chan_outcome" where
  "el_append ev l =
     (case append_locked ev l of None \<Rightarrow> ChOk l | Some l' \<Rightarrow> append_sends ev (el_subs l') l')"

section \<open>The log's own invariant\<close>

definition el_ok :: "'e event_log \<Rightarrow> bool" where
  "el_ok l \<longleftrightarrow>
     distinct (el_subs l) \<and>
     (\<forall>i \<in> set (el_subs l). map_of (el_chans l) i \<noteq> None) \<and>
     (\<forall>i c. map_of (el_chans l) i = Some c \<longrightarrow>
        i < el_next_id l \<and> ch_cap c = event_chan_cap \<and> length (ch_buf c) \<le> event_chan_cap \<and>
        (ch_closed c \<longleftrightarrow> i \<notin> set (el_subs l)))"

lemma el_ok_new: "el_ok new_event_log"
  by (simp add: el_ok_def new_event_log_def)

lemma el_ok_subs_less: "el_ok l \<Longrightarrow> i \<in> set (el_subs l) \<Longrightarrow> i < el_next_id l"
  unfolding el_ok_def by (metis option.exhaust)

lemma el_ok_fresh: "el_ok l \<Longrightarrow> map_of (el_chans l) (el_next_id l) = None"
  unfolding el_ok_def by (metis less_irrefl option.exhaust)

lemma el_ok_subscribe: "el_ok l \<Longrightarrow> el_ok (snd (subscribe_with_replay l))"
  using el_ok_subs_less [of l]
  by (auto simp: el_ok_def subscribe_with_replay_def Let_def make_chan_def event_chan_cap_def
      less_Suc_eq)

lemma subscribe_simps:
  "el_subs (snd (subscribe_with_replay l)) = el_subs l @ [el_next_id l]"
  "el_next_id (snd (subscribe_with_replay l)) = Suc (el_next_id l)"
  "el_closed (snd (subscribe_with_replay l)) = el_closed l"
  "el_events (snd (subscribe_with_replay l)) = el_events l"
  by (simp_all add: subscribe_with_replay_def Let_def)

lemma close_sub_simps [simp]:
  "el_subs (close_sub i l) = el_subs l" "el_next_id (close_sub i l) = el_next_id l"
  "el_closed (close_sub i l) = el_closed l" "el_events (close_sub i l) = el_events l"
  "el_history (close_sub i l) = el_history l" "el_taken (close_sub i l) = el_taken l"
  by (simp_all add: close_sub_def split: option.split)

lemma el_unsubscribe_simps [simp]:
  "set (el_subs (el_unsubscribe i l)) = set (el_subs l) - {i}"
  "el_next_id (el_unsubscribe i l) = el_next_id l"
  "el_closed (el_unsubscribe i l) = el_closed l" "el_events (el_unsubscribe i l) = el_events l"
  "el_history (el_unsubscribe i l) = el_history l" "el_taken (el_unsubscribe i l) = el_taken l"
  by (auto simp: el_unsubscribe_def)

lemma el_ok_unsubscribe: "el_ok l \<Longrightarrow> el_ok (el_unsubscribe i l)"
  by (auto simp: el_ok_def el_unsubscribe_def close_sub_def split: option.split)

lemma el_ok_fold_unsubscribe: "el_ok l \<Longrightarrow> el_ok (fold el_unsubscribe is l)"
  by (induction "is" arbitrary: l) (auto intro: el_ok_unsubscribe)

lemma fold_unsubscribe_simps [simp]:
  "set (el_subs (fold el_unsubscribe is l)) = set (el_subs l) - set is"
  "el_next_id (fold el_unsubscribe is l) = el_next_id l"
  "el_closed (fold el_unsubscribe is l) = el_closed l"
  "el_events (fold el_unsubscribe is l) = el_events l"
  "el_history (fold el_unsubscribe is l) = el_history l"
  "el_taken (fold el_unsubscribe is l) = el_taken l"
  by (induction "is" arbitrary: l) auto

lemma el_ok_closed_flag: "el_ok l \<Longrightarrow> el_ok (l\<lparr>el_closed := b\<rparr>)"
  by (simp add: el_ok_def)

lemma el_ok_close: "el_ok l \<Longrightarrow> el_ok (el_close l)"
  by (simp add: el_close_def el_ok_fold_unsubscribe el_ok_closed_flag)

lemma el_ok_append_locked: "el_ok l \<Longrightarrow> append_locked ev l = Some l' \<Longrightarrow> el_ok l'"
  by (auto simp: append_locked_def el_ok_def split: if_splits)

lemma el_ok_send: "el_ok l \<Longrightarrow> append_send ev i l = ChOk l' \<Longrightarrow> el_ok l'"
  by (auto simp: append_send_def chan_send_def el_ok_def
      split: option.splits if_splits chan_outcome.splits)

lemma el_receive_SomeD:
  assumes "el_receive i l = Some (ev, l')"
  shows "\<exists>c rest. map_of (el_chans l) i = Some c \<and> ch_buf c = ev # rest \<and>
    el_subs l' = el_subs l \<and> el_next_id l' = el_next_id l \<and> el_events l' = el_events l \<and>
    el_history l' = el_history l \<and>
    el_chans l' = AList.update i (c\<lparr>ch_buf := rest\<rparr>) (el_chans l) \<and>
    el_taken l' = AList.update i (el_got (el_taken l) i @ [ev]) (el_taken l)"
  using assms by (auto simp: el_receive_def el_got_def split: option.splits list.splits)

lemma el_ok_receive:
  assumes "el_ok l" and "el_receive i l = Some (ev, l')"
  shows "el_ok l'"
proof -
  from el_receive_SomeD [OF assms(2)] obtain c rest where c: "map_of (el_chans l) i = Some c"
    and rest: "ch_buf c = ev # rest" and l': "el_subs l' = el_subs l" "el_next_id l' = el_next_id l"
      "el_chans l' = AList.update i (c\<lparr>ch_buf := rest\<rparr>) (el_chans l)" by blast
  have "length rest \<le> event_chan_cap"
    using assms(1) c rest unfolding el_ok_def by (metis Suc_leD length_Cons)
  then show ?thesis
    using assms(1) c by (auto simp: el_ok_def l')
qed

definition el_subscribe :: "'e event_log \<Rightarrow> (nat \<times> 'e event_log) option" where
  "el_subscribe l = Some (el_next_id l, snd (subscribe_with_replay l))"

interpretation event_subs: subscription_log el_ok "\<lambda>l. set (el_subs l)" el_closed el_next_id
    el_subscribe el_unsubscribe "\<lambda>l. fold el_unsubscribe (el_subs l) l"
  by unfold_locales
    (auto simp: el_ok_subs_less el_ok_subscribe el_ok_unsubscribe el_ok_fold_unsubscribe
      el_subscribe_def subscribe_simps)

section \<open>The concurrent program\<close>

text \<open>An append in flight: its event and the channels it has still to send on.\<close>

record 'e el_sys =
  es_log :: "'e event_log"
  es_appends :: "('e \<times> nat list) list"
  es_panic :: bool

definition el_init :: "'e el_sys" where
  "el_init = \<lparr>es_log = new_event_log, es_appends = [], es_panic = False\<rparr>"

text \<open>
  An append starts with the channels of the map, in any order \<open>ids\<close>; its next send may
  happen at any later time, and its end is when no channel is left.
\<close>

inductive el_step :: "'e el_sys \<Rightarrow> 'e el_sys \<Rightarrow> bool" where
  es_append: "append_locked ev (es_log s) = Some l \<Longrightarrow> distinct ids \<Longrightarrow> set ids = set (el_subs l) \<Longrightarrow>
    el_step s (s\<lparr>es_log := l, es_appends := es_appends s @ [(ev, ids)]\<rparr>)"
| es_send: "es_appends s = pre @ (ev, i # ids) # post \<Longrightarrow> append_send ev i (es_log s) = ChOk l \<Longrightarrow>
    el_step s (s\<lparr>es_log := l, es_appends := pre @ (ev, ids) # post\<rparr>)"
| es_send_panic: "es_appends s = pre @ (ev, i # ids) # post \<Longrightarrow>
    append_send ev i (es_log s) = ChPanic \<Longrightarrow> el_step s (s\<lparr>es_panic := True\<rparr>)"
| es_append_done: "es_appends s = pre @ (ev, []) # post \<Longrightarrow>
    el_step s (s\<lparr>es_appends := pre @ post\<rparr>)"
| es_subscribe: "el_step s (s\<lparr>es_log := snd (subscribe_with_replay (es_log s))\<rparr>)"
| es_unsubscribe: "el_step s (s\<lparr>es_log := el_unsubscribe i (es_log s)\<rparr>)"
| es_close: "el_step s (s\<lparr>es_log := el_close (es_log s)\<rparr>)"
| es_receive: "el_receive i (es_log s) = Some (ev, l) \<Longrightarrow> el_step s (s\<lparr>es_log := l\<rparr>)"

inductive_cases el_stepE: "el_step s t"

text \<open>
  What the sends in flight may assume: distinct channels, each one that was created.
\<close>

definition appends_ok :: "'e el_sys \<Rightarrow> bool" where
  "appends_ok s \<longleftrightarrow>
     (\<forall>(ev, ids) \<in> set (es_appends s). distinct ids \<and>
        (\<forall>i \<in> set ids. map_of (el_chans (es_log s)) i \<noteq> None))"

definition el_buffered :: "'e event_log \<Rightarrow> nat \<Rightarrow> 'e list" where
  "el_buffered l i = (case map_of (el_chans l) i of None \<Rightarrow> [] | Some c \<Rightarrow> ch_buf c)"

definition el_view :: "'e event_log \<Rightarrow> nat \<Rightarrow> 'e list" where
  "el_view l i = el_got (el_history l) i @ el_got (el_taken l) i @ el_buffered l i"

definition el_pending :: "'e el_sys \<Rightarrow> nat \<Rightarrow> 'e multiset" where
  "el_pending s i = mset (map fst (filter (\<lambda>(ev, ids). i \<in> set ids) (es_appends s)))"

definition views_ok :: "'e el_sys \<Rightarrow> bool" where
  "views_ok s \<longleftrightarrow>
     (\<forall>i \<in> set (el_subs (es_log s)).
        mset (el_view (es_log s) i) + el_pending s i = mset (el_events (es_log s)))"

definition el_inv :: "'e el_sys \<Rightarrow> bool" where
  "el_inv s \<longleftrightarrow> el_ok (es_log s) \<and> appends_ok s \<and> views_ok s"

lemma append_send_SomeD:
  assumes "append_send ev i l = ChOk l'"
  shows "\<exists>c. map_of (el_chans l) i = Some c \<and> \<not> ch_closed c \<and>
    l' = l\<lparr>el_chans := AList.update i (c\<lparr>ch_buf := ch_buf c @ [ev]\<rparr>) (el_chans l)\<rparr>"
  using assms
  by (auto simp: append_send_def chan_send_ok_iff split: option.splits chan_outcome.splits)

lemma unsubscribe_chans_dom:
  "map_of (el_chans (el_unsubscribe i l)) j = None \<longleftrightarrow> map_of (el_chans l) j = None"
  by (auto simp: el_unsubscribe_def close_sub_def split: option.split)

lemma unsubscribe_buffered: "el_buffered (el_unsubscribe i l) j = el_buffered l j"
  by (auto simp: el_unsubscribe_def close_sub_def el_buffered_def split: option.split)

lemma fold_unsubscribe_chans:
  "map_of (el_chans (fold el_unsubscribe is l)) j = None \<longleftrightarrow> map_of (el_chans l) j = None"
  "el_buffered (fold el_unsubscribe is l) j = el_buffered l j"
  by (induction "is" arbitrary: l) (auto simp: unsubscribe_chans_dom unsubscribe_buffered)

lemma close_chans:
  "map_of (el_chans (el_close l)) j = None \<longleftrightarrow> map_of (el_chans l) j = None"
  "el_buffered (el_close l) j = el_buffered l j"
  "el_history (el_close l) = el_history l" "el_taken (el_close l) = el_taken l"
  "el_events (el_close l) = el_events l" "set (el_subs (el_close l)) \<subseteq> set (el_subs l)"
  by (auto simp: el_close_def fold_unsubscribe_chans) (simp add: el_buffered_def)

lemma el_inv_init: "el_inv el_init"
proof -
  have "el_subs (new_event_log :: 'a event_log) = []" by (simp add: new_event_log_def)
  then show ?thesis
    by (simp add: el_inv_def el_init_def el_ok_new appends_ok_def views_ok_def)
qed

lemma el_step_ok: "el_ok (es_log s) \<Longrightarrow> el_step s t \<Longrightarrow> el_ok (es_log t)"
  by (erule el_step.cases)
    (auto intro: el_ok_append_locked el_ok_send el_ok_subscribe el_ok_unsubscribe el_ok_close
      el_ok_receive)

lemma appends_okI:
  assumes "appends_ok s"
    and "\<And>ev ids. (ev, ids) \<in> set (es_appends t) \<Longrightarrow> (ev, ids) \<in> set (es_appends s) \<or>
      distinct ids \<and> (\<forall>i \<in> set ids. map_of (el_chans (es_log s)) i \<noteq> None)"
    and "\<And>j. map_of (el_chans (es_log s)) j \<noteq> None \<Longrightarrow> map_of (el_chans (es_log t)) j \<noteq> None"
  shows "appends_ok t"
proof -
  have "distinct ids \<and> (\<forall>i \<in> set ids. map_of (el_chans (es_log t)) i \<noteq> None)"
    if "(ev, ids) \<in> set (es_appends t)" for ev ids
    using assms(1) assms(2) [OF that] assms(3) unfolding appends_ok_def by blast
  then show ?thesis unfolding appends_ok_def by blast
qed

lemma el_step_appends_ok:
  assumes "el_ok (es_log s)" and "appends_ok s" and "el_step s t"
  shows "appends_ok t"
  using assms(3)
proof (cases rule: el_step.cases)
  case (es_append ev l ids)
  then have "\<forall>i \<in> set ids. map_of (el_chans (es_log s)) i \<noteq> None"
    using assms(1) by (auto simp: append_locked_def el_ok_def split: if_splits)
  then show ?thesis
    using es_append by (intro appends_okI [OF assms(2)])
      (auto simp: append_locked_def split: if_splits)
next
  case (es_send pre ev i ids post l)
  have "distinct (i # ids) \<and> (\<forall>j \<in> set (i # ids). map_of (el_chans (es_log s)) j \<noteq> None)"
    using assms(2) es_send(2) by (fastforce simp: appends_ok_def)
  then show ?thesis
    using es_send append_send_SomeD [OF es_send(3)]
    by (intro appends_okI [OF assms(2)]) auto
next
  case es_subscribe
  then show ?thesis
    by (intro appends_okI [OF assms(2)]) (auto simp: subscribe_with_replay_def Let_def)
next
  case (es_receive i ev l)
  then show ?thesis
    using el_receive_SomeD [OF es_receive(2)] by (intro appends_okI [OF assms(2)]) auto
qed (intro appends_okI [OF assms(2)]; auto simp: unsubscribe_chans_dom close_chans)+

lemma el_step_views_ok:
  assumes "el_ok (es_log s)" "appends_ok s" "views_ok s" "el_step s t"
  shows "views_ok t"
  using assms(4)
proof (cases rule: el_step.cases)
  case (es_append ev l ids)
  then have l: "l = (es_log s)\<lparr>el_events := el_events (es_log s) @ [ev]\<rparr>"
    by (simp add: append_locked_def split: if_splits)
  show ?thesis
    using assms(3) es_append
    by (simp add: l views_ok_def el_view_def el_pending_def el_buffered_def)
next
  case (es_send pre ev i ids post l)
  then have i: "i \<notin> set ids" using assms(2) by (auto simp: appends_ok_def)
  from append_send_SomeD [OF es_send(3)] obtain c where c: "map_of (el_chans (es_log s)) i = Some c"
    and l: "l = (es_log s)\<lparr>el_chans := AList.update i (c\<lparr>ch_buf := ch_buf c @ [ev]\<rparr>)
      (el_chans (es_log s))\<rparr>" by blast
  have pend: "el_pending s j = el_pending t j + (if j = i then {#ev#} else {#})" for j
    using i by (simp add: el_pending_def es_send)
  have view: "el_view l j = el_view (es_log s) j @ (if j = i then [ev] else [])" for j
    using c by (simp add: l el_view_def el_buffered_def)
  have "mset (el_view l j) + el_pending t j = mset (el_view (es_log s) j) + el_pending s j" for j
    by (simp add: view pend)
  moreover have "el_subs l = el_subs (es_log s)" "el_events l = el_events (es_log s)"
    by (simp_all add: l)
  ultimately show ?thesis
    using assms(3) by (simp add: views_ok_def es_send)
next
  case es_subscribe
  let ?i = "el_next_id (es_log s)"
  have "el_pending s ?i = {#}"
    using assms(2) el_ok_fresh [OF assms(1)]
    by (auto simp: el_pending_def appends_ok_def filter_empty_conv) fastforce
  moreover have "i \<noteq> ?i" if "i \<in> set (el_subs (es_log s))" for i
    using el_ok_subs_less [OF assms(1) that] by simp
  ultimately show ?thesis
    using assms(3) es_subscribe
    by (auto simp: views_ok_def el_view_def el_pending_def el_buffered_def el_got_def
        subscribe_with_replay_def make_chan_def Let_def)
next
  case (es_receive i ev l)
  from el_receive_SomeD [OF es_receive(2)] have "el_view l j = el_view (es_log s) j" for j
    by (auto simp: el_view_def el_buffered_def el_got_def)
  with el_receive_SomeD [OF es_receive(2)] show ?thesis
    using assms(3) by (auto simp: views_ok_def el_pending_def es_receive(1))
next
  case es_close
  then show ?thesis
    using assms(3) close_chans(6) [of "es_log s"]
    by (auto simp: views_ok_def el_view_def el_pending_def close_chans(1-5))
qed (use assms(3) in \<open>auto simp: views_ok_def el_view_def el_pending_def unsubscribe_buffered\<close>)

interpretation event_sys: invariant_system "\<lambda>s. s = el_init" el_step el_inv
  by unfold_locales
    (auto simp: el_inv_init, auto simp: el_inv_def intro: el_step_ok el_step_appends_ok
      el_step_views_ok)

text \<open>
  C30. Replay and live fan-out together lose nothing and duplicate nothing: in every reachable
  state of the concurrent log, what a registered subscriber got as history, has received since
  and still has buffered, plus the events whose append has copied its channel but not yet sent
  on it, is exactly the multiset of all logged events.
\<close>

theorem subscriber_sees_every_event:
  assumes "el_step\<^sup>*\<^sup>* el_init s" and "i \<in> set (el_subs (es_log s))"
  shows "mset (el_view (es_log s) i) + el_pending s i = mset (el_events (es_log s))"
  using event_sys.reachable_inv [OF refl assms(1)] assms(2)
  by (simp add: el_inv_def views_ok_def)

text \<open>
  The exact condition of a crash in \<open>append\<close>: a send of an append in flight panics if and
  only if its subscriber has left the map (by \<open>unsubscribe\<close> or \<open>close\<close>) since the append
  copied the channel.
\<close>

theorem append_send_panics_iff:
  assumes "el_step\<^sup>*\<^sup>* el_init s" and "(ev, i # ids) \<in> set (es_appends s)"
  shows "append_send ev i (es_log s) = ChPanic \<longleftrightarrow> i \<notin> set (el_subs (es_log s))"
proof -
  from event_sys.reachable_inv [OF refl assms(1)] have inv: "el_inv s" .
  with assms(2) obtain c where c: "map_of (el_chans (es_log s)) i = Some c"
    by (force simp: el_inv_def appends_ok_def)
  with inv have "ch_closed c \<longleftrightarrow> i \<notin> set (el_subs (es_log s))"
    by (simp add: el_inv_def el_ok_def)
  with c show ?thesis
    by (simp add: append_send_def chan_send_def)
qed

section \<open>The race\<close>

definition race1 :: "'e \<Rightarrow> 'e el_sys" where
  "race1 ev = el_init\<lparr>es_log := snd (subscribe_with_replay new_event_log)\<rparr>"

definition race2 :: "'e \<Rightarrow> 'e el_sys" where
  "race2 ev = (race1 ev)\<lparr>es_log := (es_log (race1 ev))\<lparr>el_events := [ev]\<rparr>,
     es_appends := [(ev, [0])]\<rparr>"

definition race3 :: "'e \<Rightarrow> 'e el_sys" where
  "race3 ev = (race2 ev)\<lparr>es_log := el_unsubscribe 0 (es_log (race2 ev))\<rparr>"

lemmas race_defs = race1_def race2_def race3_def el_init_def new_event_log_def
  subscribe_with_replay_def Let_def

lemma race1_reachable: "el_step\<^sup>*\<^sup>* el_init (race1 ev)"
proof -
  have "el_step el_init (race1 ev)"
    using es_subscribe [of el_init] by (simp add: race1_def el_init_def)
  then show ?thesis by simp
qed

lemma race2_reachable: "el_step\<^sup>*\<^sup>* el_init (race2 ev)"
proof -
  have "append_locked ev (es_log (race1 ev)) = Some (es_log (race2 ev))"
    by (simp add: append_locked_def race_defs)
  moreover have "set [0] = set (el_subs (es_log (race2 ev)))"
    by (simp add: race_defs)
  ultimately have "el_step (race1 ev) ((race1 ev)\<lparr>es_log := es_log (race2 ev),
      es_appends := es_appends (race1 ev) @ [(ev, [0])]\<rparr>)"
    by (intro el_step.es_append) simp_all
  moreover have "(race1 ev)\<lparr>es_log := es_log (race2 ev),
      es_appends := es_appends (race1 ev) @ [(ev, [0])]\<rparr> = race2 ev"
    by (simp add: race_defs)
  ultimately show ?thesis
    using race1_reachable [of ev] by (simp add: rtranclp.rtrancl_into_rtrancl)
qed

lemma race3_reachable: "el_step\<^sup>*\<^sup>* el_init (race3 ev)"
  using race2_reachable es_unsubscribe [of "race2 ev" 0]
  unfolding race3_def by (rule rtranclp.rtrancl_into_rtrancl)

lemma race3_append: "(ev, [0]) \<in> set (es_appends (race3 ev)) \<and> 0 \<notin> set (el_subs (es_log (race3 ev)))"
  by (simp add: race_defs)

text \<open>
  That condition is reachable with one watcher and one event: the watcher disconnects
  between the copy and the send, and the hub process panics by sending on a closed channel.
\<close>

theorem append_unsubscribe_race_panics:
  "\<exists>s. el_step\<^sup>*\<^sup>* el_init s \<and> es_panic s \<and> el_events (es_log s) = [ev :: 'e]"
proof -
  have "append_send ev 0 (es_log (race3 ev)) = ChPanic"
    by (simp add: race_defs el_unsubscribe_def close_sub_def append_send_def chan_send_def
        make_chan_def)
  moreover have "es_appends (race3 ev) = [] @ (ev, [0]) # []" by (simp add: race_defs)
  ultimately have "el_step (race3 ev) ((race3 ev)\<lparr>es_panic := True\<rparr>)"
    by (rule es_send_panic [rotated])
  then have "el_step\<^sup>*\<^sup>* el_init ((race3 ev)\<lparr>es_panic := True\<rparr>)"
    using race3_reachable by (rule rtranclp.rtrancl_into_rtrancl [rotated])
  moreover have "el_events (es_log ((race3 ev)\<lparr>es_panic := True\<rparr>)) = [ev]"
    by (simp add: race_defs)
  ultimately show ?thesis by (intro exI [of _ "(race3 ev)\<lparr>es_panic := True\<rparr>"]) simp
qed

theorem append_send_panics_iff_witness: "append_send ''e'' 0 (es_log (race3 ''e'')) = ChPanic"
  using append_send_panics_iff [OF race3_reachable, of "''e''" 0 "[]" "''e''"] race3_append [of "''e''"]
  by simp

theorem subscriber_sees_every_event_witness:
  "mset (el_view (es_log (race2 ''e'')) 0) + el_pending (race2 ''e'') 0 = {#''e''#}"
  using subscriber_sees_every_event [OF race2_reachable, of 0 "''e''"] by (simp add: race_defs)

section \<open>Without interference\<close>

text \<open>
  Run alone, an append puts its event at the end of every subscriber's view, so that all views
  stay in the order of the log.
\<close>

lemma append_sends_view:
  assumes "append_sends ev ids l = ChOk l'" and "distinct ids"
  shows "el_view l' i = el_view l i @ (if i \<in> set ids then [ev] else []) \<and>
    el_events l' = el_events l \<and> el_subs l' = el_subs l"
  using assms
proof (induction ids arbitrary: l)
  case (Cons j ids)
  then obtain l1 where l1: "append_send ev j l = ChOk l1" and rest: "append_sends ev ids l1 = ChOk l'"
    by (auto split: chan_outcome.splits)
  from append_send_SomeD [OF l1] have "el_view l1 i = el_view l i @ (if i = j then [ev] else [])"
    and "el_events l1 = el_events l" "el_subs l1 = el_subs l"
    by (auto simp: el_view_def el_buffered_def)
  with Cons.IH [OF rest] Cons.prems show ?case by auto
qed simp

lemma el_append_view:
  assumes "el_append ev l = ChOk l'" and "el_ok l" and "\<not> el_closed l"
  shows "el_events l' = el_events l @ [ev] \<and>
    (\<forall>i \<in> set (el_subs l). el_view l' i = el_view l i @ [ev])"
proof -
  from assms have s: "append_sends ev (el_subs l) (l\<lparr>el_events := el_events l @ [ev]\<rparr>) = ChOk l'"
    and d: "distinct (el_subs l)"
    by (auto simp: el_append_def append_locked_def el_ok_def)
  have "el_view (l\<lparr>el_events := el_events l @ [ev]\<rparr>) i = el_view l i" for i
    by (simp add: el_view_def el_buffered_def)
  with append_sends_view [OF s d] show ?thesis by auto
qed

end
