(* ===== verification/Packet_Log.thy ===== *)
theory Packet_Log imports Fanout begin

text \<open>
  \<open>pkg/hub/packets.go\<close>: the back-pressured fan-out of capture records.  The operations come
  first, one definition per critical section; \<open>pl_step\<close> then lets any number of publishers,
  closers and subscribers interleave at exactly the places where the code releases the lock.
  The channel \<open>changed\<close> is its generation (a waiter parked on generation \<open>g\<close> wakes once
  \<open>g < pl_changed\<close>, that is, once that channel was closed and replaced); \<open>idle\<close> is a
  generation with the flag whether the current one is closed.  \<open>pks_taken\<close> records what a
  subscriber has received.
\<close>

section \<open>State and critical sections\<close>

record 'r packet_sub =
  pks_ch :: "'r chan"
  pks_done :: bool
  pks_taken :: "'r list"

record 'r packet_log =
  pl_store :: "(nat, 'r packet_sub) gomap"
  pl_subs :: "nat list"
  pl_next_id :: nat
  pl_closed :: bool
  pl_changed :: nat
  pl_active :: int
  pl_idle :: nat
  pl_idle_closed :: bool

datatype publish_error = PacketLogClosed | PublishCancelled

definition packet_chan_cap :: nat where "packet_chan_cap = 256"

definition new_packet_log :: "'r packet_log" where
  "new_packet_log = \<lparr>pl_store = [], pl_subs = [], pl_next_id = 0, pl_closed = False,
     pl_changed = 0, pl_active = 0, pl_idle = 0, pl_idle_closed = True\<rparr>"

definition notify_locked :: "'r packet_log \<Rightarrow> 'r packet_log" where
  "notify_locked l = l\<lparr>pl_changed := Suc (pl_changed l)\<rparr>"

text \<open>One look of \<open>waitForSubscriber\<close>: closed, ready, or park on the current generation.\<close>

datatype wait_verdict = WaitClosed | WaitReady | WaitPark nat

definition wait_for_subscriber :: "'r packet_log \<Rightarrow> wait_verdict" where
  "wait_for_subscriber l =
     (if pl_closed l then WaitClosed
      else if pl_subs l \<noteq> [] then WaitReady
      else WaitPark (pl_changed l))"

text \<open>The locked part of \<open>publish\<close>: counts the publisher in, or sees the log closed.\<close>

definition publish_begin :: "'r packet_log \<Rightarrow> 'r packet_log option" where
  "publish_begin l =
     (if pl_closed l then None
      else let l1 = (if pl_active l = 0
                     then l\<lparr>pl_idle := Suc (pl_idle l), pl_idle_closed := False\<rparr> else l)
           in Some (l1\<lparr>pl_active := pl_active l1 + 1\<rparr>))"

definition finish_publish :: "'r packet_log \<Rightarrow> 'r packet_log chan_outcome" where
  "finish_publish l =
     (let l1 = l\<lparr>pl_active := pl_active l - 1\<rparr> in
      if pl_active l1 = 0
      then (if pl_idle_closed l1 then ChPanic else ChOk (l1\<lparr>pl_idle_closed := True\<rparr>))
      else ChOk l1)"

text \<open>The two cases of the select in \<open>publish\<close> that concern subscriber \<open>i\<close>.\<close>

definition send_to :: "'r \<Rightarrow> nat \<Rightarrow> 'r packet_log \<Rightarrow> 'r packet_log chan_outcome" where
  "send_to r i l =
     (case map_of (pl_store l) i of
        None \<Rightarrow> ChBlocked
      | Some s \<Rightarrow>
          (case chan_send r (pks_ch s) of
             ChPanic \<Rightarrow> ChPanic
           | ChBlocked \<Rightarrow> ChBlocked
           | ChOk c \<Rightarrow> ChOk (l\<lparr>pl_store := AList.update i (s\<lparr>pks_ch := c\<rparr>) (pl_store l)\<rparr>)))"

definition sub_done :: "nat \<Rightarrow> 'r packet_log \<Rightarrow> bool" where
  "sub_done i l = (case map_of (pl_store l) i of None \<Rightarrow> False | Some s \<Rightarrow> pks_done s)"

definition pl_subscribe :: "'r packet_log \<Rightarrow> (nat \<times> 'r packet_log) option" where
  "pl_subscribe l =
     (if pl_closed l then None
      else let i = pl_next_id l in
        Some (i, notify_locked (l\<lparr>pl_next_id := Suc i, pl_subs := pl_subs l @ [i],
          pl_store := AList.update i
            \<lparr>pks_ch = make_chan packet_chan_cap, pks_done = False, pks_taken = []\<rparr>
            (pl_store l)\<rparr>)))"

text \<open>Removing one subscriber: closing its \<open>done\<close> a second time would panic.\<close>

definition drop_sub :: "nat \<Rightarrow> 'r packet_log \<Rightarrow> 'r packet_log chan_outcome" where
  "drop_sub i l =
     (case map_of (pl_store l) i of
        None \<Rightarrow> ChPanic
      | Some s \<Rightarrow>
          if pks_done s then ChPanic
          else ChOk (l\<lparr>pl_subs := filter (\<lambda>j. j \<noteq> i) (pl_subs l),
            pl_store := AList.update i (s\<lparr>pks_done := True\<rparr>) (pl_store l)\<rparr>))"

definition pl_unsubscribe :: "nat \<Rightarrow> 'r packet_log \<Rightarrow> 'r packet_log chan_outcome" where
  "pl_unsubscribe i l =
     (if i \<in> set (pl_subs l)
      then (case drop_sub i l of ChOk l' \<Rightarrow> ChOk (notify_locked l') | r \<Rightarrow> r)
      else ChOk l)"

fun drop_subs :: "nat list \<Rightarrow> 'r packet_log \<Rightarrow> 'r packet_log chan_outcome" where
  "drop_subs [] l = ChOk l"
| "drop_subs (i # is) l = (case drop_sub i l of ChOk l' \<Rightarrow> drop_subs is l' | r \<Rightarrow> r)"

definition close_subscribers :: "'r packet_log \<Rightarrow> 'r packet_log chan_outcome" where
  "close_subscribers l =
     (case drop_subs (pl_subs l) l of ChOk l' \<Rightarrow> ChOk (notify_locked l') | r \<Rightarrow> r)"

text \<open>The locked start of \<open>close\<close>: the generation of \<open>idle\<close> to wait for.\<close>

definition close_begin :: "'r packet_log \<Rightarrow> (nat \<times> 'r packet_log) option" where
  "close_begin l =
     (if pl_closed l then None
      else Some (pl_idle l, notify_locked (l\<lparr>pl_closed := True\<rparr>)))"

definition idle_passed :: "nat \<Rightarrow> 'r packet_log \<Rightarrow> bool" where
  "idle_passed g l \<longleftrightarrow> g < pl_idle l \<or> g = pl_idle l \<and> pl_idle_closed l"

text \<open>The receive of \<open>SubscribePackets\<close>.\<close>

definition pl_receive :: "nat \<Rightarrow> 'r packet_log \<Rightarrow> ('r \<times> 'r packet_log) option" where
  "pl_receive i l =
     (case map_of (pl_store l) i of
        None \<Rightarrow> None
      | Some s \<Rightarrow>
          (case ch_buf (pks_ch s) of
             [] \<Rightarrow> None
           | r # rest \<Rightarrow>
               Some (r, l\<lparr>pl_store := AList.update i
                 (s\<lparr>pks_ch := (pks_ch s)\<lparr>ch_buf := rest\<rparr>, pks_taken := pks_taken s @ [r]\<rparr>)
                 (pl_store l)\<rparr>)))"

section \<open>Publishers and closers\<close>

text \<open>
  Where a call of \<open>publish\<close> stands: about to look for a subscriber, parked, about to enter,
  with subscribers left to serve and the number served, about to run \<open>finishPublish\<close> (and
  then return, or look again), returned.
\<close>

datatype publisher_pc =
  PubWait
| PubParked nat
| PubReady
| PubDeliver "nat list" nat
| PubFinish "(publish_error + unit) option"
| PubReturned "publish_error + unit"

record 'r publisher =
  pub_rec :: 'r
  pub_pc :: publisher_pc

inductive pub_step :: "'r packet_log \<Rightarrow> 'r publisher \<Rightarrow> ('r packet_log \<times> 'r publisher) chan_outcome
    \<Rightarrow> bool" where
  pub_closed: "pub_pc p = PubWait \<Longrightarrow> wait_for_subscriber l = WaitClosed \<Longrightarrow>
    pub_step l p (ChOk (l, p\<lparr>pub_pc := PubReturned (Inl PacketLogClosed)\<rparr>))"
| pub_found: "pub_pc p = PubWait \<Longrightarrow> wait_for_subscriber l = WaitReady \<Longrightarrow>
    pub_step l p (ChOk (l, p\<lparr>pub_pc := PubReady\<rparr>))"
| pub_park: "pub_pc p = PubWait \<Longrightarrow> wait_for_subscriber l = WaitPark g \<Longrightarrow>
    pub_step l p (ChOk (l, p\<lparr>pub_pc := PubParked g\<rparr>))"
| pub_wake: "pub_pc p = PubParked g \<Longrightarrow> g < pl_changed l \<Longrightarrow>
    pub_step l p (ChOk (l, p\<lparr>pub_pc := PubWait\<rparr>))"
| pub_cancel_parked: "pub_pc p = PubParked g \<Longrightarrow>
    pub_step l p (ChOk (l, p\<lparr>pub_pc := PubReturned (Inl PublishCancelled)\<rparr>))"
| pub_late: "pub_pc p = PubReady \<Longrightarrow> publish_begin l = None \<Longrightarrow>
    pub_step l p (ChOk (l, p\<lparr>pub_pc := PubReturned (Inl PacketLogClosed)\<rparr>))"
| pub_begin: "pub_pc p = PubReady \<Longrightarrow> publish_begin l = Some l' \<Longrightarrow> distinct ids \<Longrightarrow>
    set ids = set (pl_subs l) \<Longrightarrow> pub_step l p (ChOk (l', p\<lparr>pub_pc := PubDeliver ids 0\<rparr>))"
| pub_send: "pub_pc p = PubDeliver (i # ids) n \<Longrightarrow> send_to (pub_rec p) i l = ChOk l' \<Longrightarrow>
    pub_step l p (ChOk (l', p\<lparr>pub_pc := PubDeliver ids (Suc n)\<rparr>))"
| pub_send_panic: "pub_pc p = PubDeliver (i # ids) n \<Longrightarrow> send_to (pub_rec p) i l = ChPanic \<Longrightarrow>
    pub_step l p ChPanic"
| pub_skip: "pub_pc p = PubDeliver (i # ids) n \<Longrightarrow> sub_done i l \<Longrightarrow>
    pub_step l p (ChOk (l, p\<lparr>pub_pc := PubDeliver ids n\<rparr>))"
| pub_cancel: "pub_pc p = PubDeliver (i # ids) n \<Longrightarrow>
    pub_step l p (ChOk (l, p\<lparr>pub_pc := PubFinish (Some (Inl PublishCancelled))\<rparr>))"
| pub_served: "pub_pc p = PubDeliver [] n \<Longrightarrow>
    pub_step l p (ChOk (l, p\<lparr>pub_pc := PubFinish (if 0 < n then Some (Inr ()) else None)\<rparr>))"
| pub_finish: "pub_pc p = PubFinish res \<Longrightarrow> finish_publish l = ChOk l' \<Longrightarrow>
    pub_step l p (ChOk (l', p\<lparr>pub_pc :=
      (case res of None \<Rightarrow> PubWait | Some r \<Rightarrow> PubReturned r)\<rparr>))"
| pub_finish_panic: "pub_pc p = PubFinish res \<Longrightarrow> finish_publish l = ChPanic \<Longrightarrow>
    pub_step l p ChPanic"

text \<open>
  Where a call of \<open>close\<close> stands: waiting for \<open>idle\<close>, about to drop the subscribers after
  it, waiting again after its context ended (the subscribers are dropped by then), returned.
\<close>

datatype closer_pc = CloseWaiting nat | CloseIdle | CloseTimedOut nat | CloseReturned bool

inductive closer_step :: "'r packet_log \<Rightarrow> closer_pc \<Rightarrow> ('r packet_log \<times> closer_pc) chan_outcome
    \<Rightarrow> bool" where
  close_idle: "idle_passed g l \<Longrightarrow> closer_step l (CloseWaiting g) (ChOk (l, CloseIdle))"
| close_timeout: "close_subscribers l = ChOk l' \<Longrightarrow>
    closer_step l (CloseWaiting g) (ChOk (l', CloseTimedOut g))"
| close_timeout_panic: "close_subscribers l = ChPanic \<Longrightarrow> closer_step l (CloseWaiting g) ChPanic"
| close_drained: "close_subscribers l = ChOk l' \<Longrightarrow>
    closer_step l CloseIdle (ChOk (l', CloseReturned True))"
| close_drained_panic: "close_subscribers l = ChPanic \<Longrightarrow> closer_step l CloseIdle ChPanic"
| close_late: "idle_passed g l \<Longrightarrow>
    closer_step l (CloseTimedOut g) (ChOk (l, CloseReturned False))"

record 'r pl_sys =
  pys_log :: "'r packet_log"
  pys_pubs :: "'r publisher list"
  pys_closers :: "closer_pc list"
  pys_panic :: bool

definition pl_init :: "'r pl_sys" where
  "pl_init = \<lparr>pys_log = new_packet_log, pys_pubs = [], pys_closers = [], pys_panic = False\<rparr>"

inductive pl_step :: "'r pl_sys \<Rightarrow> 'r pl_sys \<Rightarrow> bool" where
  pls_publish: "pl_step s (s\<lparr>pys_pubs := pys_pubs s @ [\<lparr>pub_rec = r, pub_pc = PubWait\<rparr>]\<rparr>)"
| pls_pub: "pys_pubs s = pre @ p # post \<Longrightarrow> pub_step (pys_log s) p (ChOk (l, p')) \<Longrightarrow>
    pl_step s (s\<lparr>pys_log := l, pys_pubs := pre @ p' # post\<rparr>)"
| pls_pub_panic: "pys_pubs s = pre @ p # post \<Longrightarrow> pub_step (pys_log s) p ChPanic \<Longrightarrow>
    pl_step s (s\<lparr>pys_panic := True\<rparr>)"
| pls_close: "close_begin (pys_log s) = Some (g, l) \<Longrightarrow>
    pl_step s (s\<lparr>pys_log := l, pys_closers := pys_closers s @ [CloseWaiting g]\<rparr>)"
| pls_closer: "pys_closers s = pre @ c # post \<Longrightarrow> closer_step (pys_log s) c (ChOk (l, c')) \<Longrightarrow>
    pl_step s (s\<lparr>pys_log := l, pys_closers := pre @ c' # post\<rparr>)"
| pls_closer_panic: "pys_closers s = pre @ c # post \<Longrightarrow> closer_step (pys_log s) c ChPanic \<Longrightarrow>
    pl_step s (s\<lparr>pys_panic := True\<rparr>)"
| pls_subscribe: "pl_subscribe (pys_log s) = Some (i, l) \<Longrightarrow> pl_step s (s\<lparr>pys_log := l\<rparr>)"
| pls_unsubscribe: "pl_unsubscribe i (pys_log s) = ChOk l \<Longrightarrow> pl_step s (s\<lparr>pys_log := l\<rparr>)"
| pls_unsubscribe_panic: "pl_unsubscribe i (pys_log s) = ChPanic \<Longrightarrow>
    pl_step s (s\<lparr>pys_panic := True\<rparr>)"
| pls_receive: "pl_receive i (pys_log s) = Some (r, l) \<Longrightarrow> pl_step s (s\<lparr>pys_log := l\<rparr>)"

section \<open>The log's own invariant\<close>

definition sub_ok :: "'r packet_log \<Rightarrow> nat \<Rightarrow> 'r packet_sub \<Rightarrow> bool" where
  "sub_ok l i s \<longleftrightarrow> i < pl_next_id l \<and> \<not> ch_closed (pks_ch s) \<and>
     ch_cap (pks_ch s) = packet_chan_cap \<and> length (ch_buf (pks_ch s)) \<le> packet_chan_cap \<and>
     (pks_done s \<longleftrightarrow> i \<notin> set (pl_subs l))"

definition pl_ok :: "'r packet_log \<Rightarrow> bool" where
  "pl_ok l \<longleftrightarrow>
     distinct (pl_subs l) \<and> (\<forall>i \<in> set (pl_subs l). map_of (pl_store l) i \<noteq> None) \<and>
     (\<forall>i s. map_of (pl_store l) i = Some s \<longrightarrow> sub_ok l i s)"

definition same_subs :: "'r packet_log \<Rightarrow> 'r packet_log \<Rightarrow> bool" where
  "same_subs l l' \<longleftrightarrow> pl_store l' = pl_store l \<and> pl_subs l' = pl_subs l \<and>
     pl_next_id l' = pl_next_id l"

lemma pl_ok_same_subs: "pl_ok l \<Longrightarrow> same_subs l l' \<Longrightarrow> pl_ok l'"
  by (simp add: pl_ok_def sub_ok_def same_subs_def)

lemma notify_locked_simps [simp]:
  "pl_store (notify_locked l) = pl_store l" "pl_subs (notify_locked l) = pl_subs l"
  "pl_next_id (notify_locked l) = pl_next_id l" "pl_closed (notify_locked l) = pl_closed l"
  "pl_changed (notify_locked l) = Suc (pl_changed l)" "pl_active (notify_locked l) = pl_active l"
  "pl_idle (notify_locked l) = pl_idle l" "pl_idle_closed (notify_locked l) = pl_idle_closed l"
  by (simp_all add: notify_locked_def)

lemma pl_ok_notify [simp]: "pl_ok (notify_locked l) = pl_ok l"
  by (simp add: pl_ok_def sub_ok_def)

lemma pl_ok_new: "pl_ok new_packet_log"
  by (simp add: pl_ok_def new_packet_log_def)

lemma pl_ok_less: "pl_ok l \<Longrightarrow> i \<in> set (pl_subs l) \<Longrightarrow> i < pl_next_id l"
  unfolding pl_ok_def sub_ok_def by (metis option.exhaust)

lemma pl_ok_sub: "pl_ok l \<Longrightarrow> map_of (pl_store l) i = Some s \<Longrightarrow> sub_ok l i s"
  by (simp add: pl_ok_def)

lemma pl_ok_in_store: "pl_ok l \<Longrightarrow> i \<in> set (pl_subs l) \<Longrightarrow> \<exists>s. map_of (pl_store l) i = Some s"
  unfolding pl_ok_def by auto

text \<open>Replacing one stored subscriber by another that is as good.\<close>

lemma pl_ok_update:
  assumes "pl_ok l" and "map_of (pl_store l) i = Some s" and "sub_ok l i s'"
  shows "pl_ok (l\<lparr>pl_store := AList.update i s' (pl_store l)\<rparr>)"
  using assms unfolding pl_ok_def by (auto simp: sub_ok_def)

lemma pl_subscribe_SomeD:
  assumes "pl_subscribe l = Some (i, l')"
  shows "\<not> pl_closed l \<and> i = pl_next_id l \<and> pl_next_id l' = Suc i \<and> pl_subs l' = pl_subs l @ [i] \<and>
    pl_closed l' = pl_closed l \<and> pl_changed l' = Suc (pl_changed l) \<and> pl_active l' = pl_active l \<and>
    pl_idle l' = pl_idle l \<and> pl_idle_closed l' = pl_idle_closed l \<and>
    pl_store l' = AList.update i
      \<lparr>pks_ch = make_chan packet_chan_cap, pks_done = False, pks_taken = []\<rparr> (pl_store l)"
  using assms by (auto simp: pl_subscribe_def Let_def split: if_splits)

lemma pl_ok_subscribe:
  assumes "pl_ok l" and "pl_subscribe l = Some (i, l')"
  shows "pl_ok l'"
proof -
  have "i \<notin> set (pl_subs l)"
    using pl_ok_less [OF assms(1)] pl_subscribe_SomeD [OF assms(2)] by blast
  then show ?thesis
    using assms(1) pl_subscribe_SomeD [OF assms(2)]
    by (auto simp: pl_ok_def sub_ok_def make_chan_def less_Suc_eq)
qed

lemma send_to_OkD:
  assumes "send_to r i l = ChOk l'"
  shows "\<exists>s. map_of (pl_store l) i = Some s \<and> length (ch_buf (pks_ch s)) < ch_cap (pks_ch s) \<and>
    l' = l\<lparr>pl_store := AList.update i
      (s\<lparr>pks_ch := (pks_ch s)\<lparr>ch_buf := ch_buf (pks_ch s) @ [r]\<rparr>\<rparr>) (pl_store l)\<rparr>"
  using assms by (auto simp: send_to_def chan_send_ok_iff split: option.splits chan_outcome.splits)

lemma send_to_no_panic: "pl_ok l \<Longrightarrow> send_to r i l \<noteq> ChPanic"
  using pl_ok_sub [of l i]
  by (auto simp: send_to_def chan_send_def sub_ok_def split: option.splits)

lemma pl_ok_send:
  assumes "pl_ok l" and "send_to r i l = ChOk l'"
  shows "pl_ok l'"
proof -
  from send_to_OkD [OF assms(2)] obtain s where s: "map_of (pl_store l) i = Some s"
    "length (ch_buf (pks_ch s)) < ch_cap (pks_ch s)"
    and l': "l' = l\<lparr>pl_store := AList.update i
      (s\<lparr>pks_ch := (pks_ch s)\<lparr>ch_buf := ch_buf (pks_ch s) @ [r]\<rparr>\<rparr>) (pl_store l)\<rparr>" by blast
  have "sub_ok l i s" by (rule pl_ok_sub [OF assms(1) s(1)])
  with s(2) show ?thesis
    unfolding l' by (intro pl_ok_update [OF assms(1) s(1)]) (simp add: sub_ok_def)
qed

lemma pl_receive_SomeD:
  assumes "pl_receive i l = Some (r, l')"
  shows "\<exists>s rest. map_of (pl_store l) i = Some s \<and> ch_buf (pks_ch s) = r # rest \<and>
    l' = l\<lparr>pl_store := AList.update i
      (s\<lparr>pks_ch := (pks_ch s)\<lparr>ch_buf := rest\<rparr>, pks_taken := pks_taken s @ [r]\<rparr>) (pl_store l)\<rparr>"
  using assms by (auto simp: pl_receive_def split: option.splits list.splits)

lemma pl_ok_receive:
  assumes "pl_ok l" and "pl_receive i l = Some (r, l')"
  shows "pl_ok l'"
proof -
  from pl_receive_SomeD [OF assms(2)] obtain s rest where s: "map_of (pl_store l) i = Some s"
    "ch_buf (pks_ch s) = r # rest"
    and l': "l' = l\<lparr>pl_store := AList.update i (s\<lparr>pks_ch := (pks_ch s)\<lparr>ch_buf := rest\<rparr>,
      pks_taken := pks_taken s @ [r]\<rparr>) (pl_store l)\<rparr>" by blast
  have "sub_ok l i s" by (rule pl_ok_sub [OF assms(1) s(1)])
  then show ?thesis
    unfolding l' by (intro pl_ok_update [OF assms(1) s(1)]) (simp add: sub_ok_def s(2))
qed

text \<open>Dropping subscribers of the map never panics and keeps everything but membership.\<close>

definition dropped :: "nat set \<Rightarrow> 'r packet_log \<Rightarrow> 'r packet_log \<Rightarrow> bool" where
  "dropped is l l' \<longleftrightarrow> pl_ok l' \<and> set (pl_subs l') = set (pl_subs l) - is \<and>
     pl_next_id l' = pl_next_id l \<and> pl_closed l' = pl_closed l \<and> pl_changed l' = pl_changed l \<and>
     pl_active l' = pl_active l \<and> pl_idle l' = pl_idle l \<and> pl_idle_closed l' = pl_idle_closed l \<and>
     (\<forall>i. map_option (\<lambda>s. (pks_ch s, pks_taken s)) (map_of (pl_store l') i) =
          map_option (\<lambda>s. (pks_ch s, pks_taken s)) (map_of (pl_store l) i))"

lemma drop_sub_ok:
  assumes "pl_ok l" and "i \<in> set (pl_subs l)"
  shows "\<exists>l'. drop_sub i l = ChOk l' \<and> dropped {i} l l'"
proof -
  from pl_ok_in_store [OF assms] obtain s where s: "map_of (pl_store l) i = Some s" by blast
  with pl_ok_sub [OF assms(1) s] assms(2) have nd: "\<not> pks_done s" by (simp add: sub_ok_def)
  from assms s show ?thesis
    by (auto simp: drop_sub_def nd dropped_def pl_ok_def sub_ok_def)
qed

lemma dropped_trans: "dropped A l m \<Longrightarrow> dropped B m n \<Longrightarrow> dropped (A \<union> B) l n"
  by (auto simp: dropped_def)

lemma drop_subs_ok:
  "pl_ok l \<Longrightarrow> distinct is \<Longrightarrow> set is \<subseteq> set (pl_subs l) \<Longrightarrow>
     \<exists>l'. drop_subs is l = ChOk l' \<and> dropped (set is) l l'"
proof (induction "is" arbitrary: l)
  case Nil
  then show ?case by (simp add: dropped_def)
next
  case (Cons i "is")
  from Cons.prems drop_sub_ok [of l i] obtain m where m: "drop_sub i l = ChOk m" "dropped {i} l m"
    by auto
  with Cons.prems have "pl_ok m" "set is \<subseteq> set (pl_subs m)" by (auto simp: dropped_def)
  from Cons.IH [OF this(1) _ this(2)] Cons.prems obtain n
    where "drop_subs is m = ChOk n" "dropped (set is) m n" by auto
  with m dropped_trans [OF m(2), of "set is" n] show ?case by auto
qed

lemma close_subscribers_ok:
  assumes "pl_ok l"
  shows "\<exists>l'. close_subscribers l = ChOk (notify_locked l') \<and> dropped (set (pl_subs l)) l l'"
proof -
  from assms have "distinct (pl_subs l)" by (simp add: pl_ok_def)
  from drop_subs_ok [OF assms this subset_refl] obtain l'
    where "drop_subs (pl_subs l) l = ChOk l'" and d: "dropped (set (pl_subs l)) l l'" by blast
  then have "close_subscribers l = ChOk (notify_locked l')" by (simp add: close_subscribers_def)
  with d show ?thesis by blast
qed

lemma pl_unsubscribe_ok:
  assumes "pl_ok l"
  shows "\<exists>l'. dropped {i} l l' \<and>
    pl_unsubscribe i l = ChOk (if i \<in> set (pl_subs l) then notify_locked l' else l)"
proof (cases "i \<in> set (pl_subs l)")
  case True
  with drop_sub_ok [OF assms True] obtain l' where "drop_sub i l = ChOk l'" "dropped {i} l l'"
    by blast
  with True show ?thesis by (intro exI [of _ l']) (simp add: pl_unsubscribe_def)
next
  case False
  with assms have "dropped {i} l l" by (simp add: dropped_def)
  with False show ?thesis by (intro exI [of _ l]) (simp add: pl_unsubscribe_def)
qed

text \<open>What the operations do when they do not panic, as total functions of the interface.\<close>

fun chan_result :: "'s \<Rightarrow> 's chan_outcome \<Rightarrow> 's" where
  "chan_result s (ChOk t) = t"
| "chan_result s _ = s"

interpretation packet_subs: subscription_log pl_ok "\<lambda>l. set (pl_subs l)" pl_closed pl_next_id
    pl_subscribe "\<lambda>i l. chan_result l (pl_unsubscribe i l)"
    "\<lambda>l. chan_result l (close_subscribers l)"
proof (unfold_locales, goal_cases)
  case (1 s i)
  then show ?case by (rule pl_ok_less)
next
  case (2 s i t)
  then show ?case using pl_subscribe_SomeD [OF 2(2)] pl_ok_subscribe [OF 2] by simp
next
  case (3 s)
  then show ?case by (simp add: pl_subscribe_def Let_def)
next
  case (4 s i)
  then obtain l' where "dropped {i} s l'"
    and "pl_unsubscribe i s = ChOk (if i \<in> set (pl_subs s) then notify_locked l' else s)"
    using pl_unsubscribe_ok by blast
  with 4 show ?case by (simp add: dropped_def)
next
  case (5 s)
  then obtain l' where "close_subscribers s = ChOk (notify_locked l')"
    and "dropped (set (pl_subs s)) s l'"
    using close_subscribers_ok by blast
  then show ?case by (simp add: dropped_def)
qed

section \<open>The system's invariant\<close>

text \<open>The records that reached subscriber \<open>i\<close>: received, or waiting in its channel.\<close>

definition pl_got :: "'r packet_log \<Rightarrow> nat \<Rightarrow> 'r list" where
  "pl_got l i = (case map_of (pl_store l) i of None \<Rightarrow> []
     | Some s \<Rightarrow> pks_taken s @ ch_buf (pks_ch s))"

definition reached :: "'r packet_log \<Rightarrow> 'r \<Rightarrow> bool" where
  "reached l r \<longleftrightarrow> (\<exists>i. r \<in> set (pl_got l i))"

fun delivering :: "publisher_pc \<Rightarrow> bool" where
  "delivering (PubDeliver _ _) = True"
| "delivering (PubFinish _) = True"
| "delivering _ = False"

fun pc_ok :: "'r packet_log \<Rightarrow> 'r \<Rightarrow> publisher_pc \<Rightarrow> bool" where
  "pc_ok l r (PubParked g) \<longleftrightarrow> g < pl_changed l \<or> g = pl_changed l \<and> pl_subs l = [] \<and> \<not> pl_closed l"
| "pc_ok l r (PubDeliver ids n) \<longleftrightarrow>
     (\<forall>i \<in> set ids. map_of (pl_store l) i \<noteq> None) \<and> (n = 0 \<or> reached l r)"
| "pc_ok l r (PubFinish (Some (Inr u))) \<longleftrightarrow> reached l r"
| "pc_ok l r (PubReturned (Inr u)) \<longleftrightarrow> reached l r"
| "pc_ok l r _ \<longleftrightarrow> True"

fun closer_ok :: "'r packet_log \<Rightarrow> closer_pc \<Rightarrow> bool" where
  "closer_ok l (CloseWaiting g) \<longleftrightarrow> pl_closed l \<and> g = pl_idle l"
| "closer_ok l CloseIdle \<longleftrightarrow> pl_closed l \<and> pl_active l = 0"
| "closer_ok l (CloseTimedOut g) \<longleftrightarrow> pl_closed l \<and> g = pl_idle l \<and> pl_subs l = []"
| "closer_ok l (CloseReturned b) \<longleftrightarrow> pl_closed l \<and> pl_active l = 0 \<and> pl_subs l = []"

definition count_delivering :: "'r publisher list \<Rightarrow> int" where
  "count_delivering ps = int (length (filter (\<lambda>p. delivering (pub_pc p)) ps))"

definition pl_inv :: "'r pl_sys \<Rightarrow> bool" where
  "pl_inv s \<longleftrightarrow> pl_ok (pys_log s) \<and> \<not> pys_panic s \<and>
     pl_active (pys_log s) = count_delivering (pys_pubs s) \<and>
     (pl_idle_closed (pys_log s) \<longleftrightarrow> pl_active (pys_log s) = 0) \<and>
     (\<forall>p \<in> set (pys_pubs s). pc_ok (pys_log s) (pub_rec p) (pub_pc p)) \<and>
     (\<forall>c \<in> set (pys_closers s). closer_ok (pys_log s) c)"

lemma count_delivering_simps [simp]:
  "count_delivering [] = 0"
  "count_delivering (p # ps) = (if delivering (pub_pc p) then 1 else 0) + count_delivering ps"
  "count_delivering (ps @ qs) = count_delivering ps + count_delivering qs"
  by (simp_all add: count_delivering_def)

lemma count_delivering_nonneg [simp]: "0 \<le> count_delivering ps"
  by (simp add: count_delivering_def)

lemma count_delivering_0: "count_delivering ps = 0 \<longleftrightarrow> (\<forall>p \<in> set ps. \<not> delivering (pub_pc p))"
  by (simp add: count_delivering_def filter_empty_conv)

text \<open>
  How a log may change under the feet of the other threads: nothing that reached a
  subscriber is lost, no channel disappears, and the waiters' condition only changes together
  with the generation of \<open>changed\<close>.
\<close>

definition log_le :: "'r packet_log \<Rightarrow> 'r packet_log \<Rightarrow> bool" where
  "log_le l l' \<longleftrightarrow>
     (\<forall>i. map_of (pl_store l) i \<noteq> None \<longrightarrow> map_of (pl_store l') i \<noteq> None) \<and>
     (\<forall>i. set (pl_got l i) \<subseteq> set (pl_got l' i)) \<and>
     (pl_changed l < pl_changed l' \<or>
      pl_changed l = pl_changed l' \<and> pl_subs l' = pl_subs l \<and> pl_closed l' = pl_closed l)"

lemma log_le_refl [simp]: "log_le l l"
  by (simp add: log_le_def)

lemma reached_le: "log_le l l' \<Longrightarrow> reached l r \<Longrightarrow> reached l' r"
  unfolding log_le_def reached_def by blast

lemma pc_ok_le: "log_le l l' \<Longrightarrow> pc_ok l r pc \<Longrightarrow> pc_ok l' r pc"
  using reached_le [of l l' r]
  by (cases "(l, r, pc)" rule: pc_ok.cases) (auto simp: log_le_def)

lemma publish_begin_SomeD:
  assumes "publish_begin l = Some l'"
  shows "\<not> pl_closed l \<and> same_subs l l' \<and> pl_closed l' = pl_closed l \<and>
    pl_changed l' = pl_changed l \<and> pl_active l' = pl_active l + 1 \<and>
    (pl_active l \<noteq> 0 \<longrightarrow> pl_idle_closed l' = pl_idle_closed l) \<and>
    (pl_active l = 0 \<longrightarrow> \<not> pl_idle_closed l')"
  using assms by (auto simp: publish_begin_def same_subs_def Let_def split: if_splits)

lemma finish_publish_OkD:
  assumes "finish_publish l = ChOk l'"
  shows "same_subs l l' \<and> pl_closed l' = pl_closed l \<and> pl_idle l' = pl_idle l \<and>
    pl_changed l' = pl_changed l \<and> pl_active l' = pl_active l - 1 \<and>
    (pl_active l' \<noteq> 0 \<longrightarrow> pl_idle_closed l' = pl_idle_closed l) \<and>
    (pl_active l' = 0 \<longrightarrow> pl_idle_closed l')"
  using assms by (auto simp: finish_publish_def same_subs_def Let_def split: if_splits)

lemma log_le_same_subs:
  "same_subs l l' \<Longrightarrow> pl_changed l' = pl_changed l \<Longrightarrow> pl_closed l' = pl_closed l \<Longrightarrow> log_le l l'"
  by (simp add: log_le_def same_subs_def pl_got_def)

lemma log_le_store:
  assumes "map_of (pl_store l) i = Some s"
    and "set (pks_taken s) \<union> set (ch_buf (pks_ch s)) \<subseteq>
      set (pks_taken s') \<union> set (ch_buf (pks_ch s'))"
  shows "log_le l (l\<lparr>pl_store := AList.update i s' (pl_store l)\<rparr>)"
  using assms by (auto simp: log_le_def pl_got_def split: option.split)

lemma send_to_le:
  assumes "send_to r i l = ChOk l'"
  shows "log_le l l' \<and> r \<in> set (pl_got l' i)"
proof -
  from send_to_OkD [OF assms] obtain s where s: "map_of (pl_store l) i = Some s"
    and l': "l' = l\<lparr>pl_store := AList.update i
      (s\<lparr>pks_ch := (pks_ch s)\<lparr>ch_buf := ch_buf (pks_ch s) @ [r]\<rparr>\<rparr>) (pl_store l)\<rparr>" by blast
  have "log_le l l'" unfolding l' by (rule log_le_store [OF s]) auto
  then show ?thesis by (simp add: l' pl_got_def)
qed

lemma receive_le:
  assumes "pl_receive i l = Some (r, l')"
  shows "log_le l l' \<and> pl_got l' j = pl_got l j"
proof -
  from pl_receive_SomeD [OF assms] obtain s rest where s: "map_of (pl_store l) i = Some s"
    and b: "ch_buf (pks_ch s) = r # rest"
    and l': "l' = l\<lparr>pl_store := AList.update i (s\<lparr>pks_ch := (pks_ch s)\<lparr>ch_buf := rest\<rparr>,
      pks_taken := pks_taken s @ [r]\<rparr>) (pl_store l)\<rparr>" by blast
  have "log_le l l'" unfolding l' by (rule log_le_store [OF s]) (auto simp: b)
  then show ?thesis by (simp add: l' pl_got_def s b)
qed

lemma subscribe_le:
  assumes "pl_ok l" and "pl_subscribe l = Some (i, l')"
  shows "log_le l l' \<and> pl_got l' j = pl_got l j"
proof -
  have new: "map_of (pl_store l) i = None"
    using assms pl_subscribe_SomeD [OF assms(2)] pl_ok_sub [OF assms(1), of i]
    by (cases "map_of (pl_store l) i") (auto simp: sub_ok_def)
  have got: "pl_got l' j = pl_got l j" for j
    using pl_subscribe_SomeD [OF assms(2)] new by (simp add: pl_got_def make_chan_def)
  then show ?thesis
    using pl_subscribe_SomeD [OF assms(2)] by (simp add: log_le_def)
qed

lemma dropped_got: "dropped A l l' \<Longrightarrow> pl_got l' j = pl_got l j"
proof -
  assume "dropped A l l'"
  then have "map_option (\<lambda>s. (pks_ch s, pks_taken s)) (map_of (pl_store l') j) =
      map_option (\<lambda>s. (pks_ch s, pks_taken s)) (map_of (pl_store l) j)"
    unfolding dropped_def by blast
  then show ?thesis
    by (auto simp: pl_got_def split: option.split)
qed

lemma dropped_dom: "dropped A l l' \<Longrightarrow> map_of (pl_store l') j = None \<longleftrightarrow> map_of (pl_store l) j = None"
proof -
  assume "dropped A l l'"
  then have "map_option (\<lambda>s. (pks_ch s, pks_taken s)) (map_of (pl_store l') j) =
      map_option (\<lambda>s. (pks_ch s, pks_taken s)) (map_of (pl_store l) j)"
    unfolding dropped_def by blast
  then show ?thesis by (cases "map_of (pl_store l) j"; cases "map_of (pl_store l') j") auto
qed

lemma dropped_le:
  assumes "dropped A l l'"
  shows "log_le l (notify_locked l') \<and> pl_got (notify_locked l') j = pl_got l j"
proof -
  have got: "pl_got (notify_locked l') j = pl_got l j" for j
    using dropped_got [OF assms, of j] by (simp add: pl_got_def)
  moreover have "pl_changed l' = pl_changed l" using assms by (simp add: dropped_def)
  ultimately show ?thesis
    using dropped_dom [OF assms] by (simp add: log_le_def)
qed

text \<open>Each thread keeps the invariant, with \<open>n\<close> the other publishers at work, and never panics.\<close>

definition counters_ok :: "int \<Rightarrow> 'r packet_log \<Rightarrow> publisher_pc \<Rightarrow> bool" where
  "counters_ok n l pc \<longleftrightarrow> pl_active l = n + (if delivering pc then 1 else 0) \<and>
     (pl_idle_closed l \<longleftrightarrow> pl_active l = 0)"

definition step_good :: "int \<Rightarrow> 'r packet_log \<Rightarrow> 'r publisher \<Rightarrow> 'r packet_log \<Rightarrow> 'r publisher \<Rightarrow> bool"
  where
  "step_good n l p l' p' \<longleftrightarrow> pub_rec p' = pub_rec p \<and> pl_ok l' \<and> log_le l l' \<and>
     counters_ok n l' (pub_pc p') \<and> pc_ok l' (pub_rec p') (pub_pc p') \<and>
     (\<forall>c. closer_ok l c \<longrightarrow> closer_ok l' c)"

lemma step_good_same_log:
  assumes "pl_ok l" and "counters_ok n l (pub_pc p)" and "delivering pc' = delivering (pub_pc p)"
    and "pc_ok l (pub_rec p) pc'"
  shows "step_good n l p l (p\<lparr>pub_pc := pc'\<rparr>)"
  using assms by (simp add: step_good_def counters_ok_def)

lemma closer_ok_cong:
  "closer_ok l c \<Longrightarrow> pl_closed l' = pl_closed l \<Longrightarrow> pl_idle l' = pl_idle l \<Longrightarrow>
   pl_active l' = pl_active l \<Longrightarrow> pl_subs l' = pl_subs l \<Longrightarrow> closer_ok l' c"
  by (cases c) auto

lemma pub_begin_good:
  assumes "pl_ok l" "0 \<le> n" "counters_ok n l (pub_pc p)" "pub_pc p = PubReady"
    "publish_begin l = Some l'" "set ids = set (pl_subs l)"
  shows "step_good n l p l' (p\<lparr>pub_pc := PubDeliver ids 0\<rparr>)"
proof -
  note D = publish_begin_SomeD [OF assms(5)]
  then have "\<not> closer_ok l c" for c by (cases c) auto
  moreover have "log_le l l'" using D log_le_same_subs by blast
  moreover have "pl_ok l'" using D assms(1) pl_ok_same_subs by blast
  moreover have "map_of (pl_store l') i \<noteq> None" if "i \<in> set ids" for i
    using that assms(6) D pl_ok_in_store [OF assms(1), of i] by (simp add: same_subs_def)
  ultimately show ?thesis
    using D assms(2-4) by (auto simp: step_good_def counters_ok_def)
qed

lemma pub_send_good:
  assumes "pl_ok l" "counters_ok n l (pub_pc p)" "pub_pc p = PubDeliver (i # ids) m"
    "send_to (pub_rec p) i l = ChOk l'" "pc_ok l (pub_rec p) (pub_pc p)"
  shows "step_good n l p l' (p\<lparr>pub_pc := PubDeliver ids (Suc m)\<rparr>)"
proof -
  have le: "log_le l l'" and r: "reached l' (pub_rec p)"
    using send_to_le [OF assms(4)] by (auto simp: reached_def)
  from send_to_OkD [OF assms(4)] have same: "pl_closed l' = pl_closed l" "pl_idle l' = pl_idle l"
    "pl_active l' = pl_active l" "pl_subs l' = pl_subs l" "pl_idle_closed l' = pl_idle_closed l"
    by auto
  have "\<forall>j \<in> set ids. map_of (pl_store l') j \<noteq> None"
    using assms(3,5) le by (auto simp: log_le_def)
  then show ?thesis
    using assms(2,3) pl_ok_send [OF assms(1,4)] le r closer_ok_cong [OF _ same(1-4)]
    by (simp add: step_good_def counters_ok_def same)
qed

lemma pub_finish_good:
  assumes "pl_ok l" "0 \<le> n" "counters_ok n l (pub_pc p)" "pub_pc p = PubFinish res"
    "finish_publish l = ChOk l'" "pc_ok l (pub_rec p) (pub_pc p)"
  shows "step_good n l p l' (p\<lparr>pub_pc := (case res of None \<Rightarrow> PubWait | Some r \<Rightarrow> PubReturned r)\<rparr>)"
proof -
  note D = finish_publish_OkD [OF assms(5)]
  have act: "pl_active l = n + 1" and ic: "\<not> pl_idle_closed l"
    using assms(2-4) by (auto simp: counters_ok_def)
  have le: "log_le l l'" using D log_le_same_subs by blast
  have "pc_ok l (pub_rec p) (case res of None \<Rightarrow> PubWait | Some r \<Rightarrow> PubReturned r)"
    using assms(4,6) by (cases "(l, pub_rec p, pub_pc p)" rule: pc_ok.cases) (auto split: sum.split)
  then have "pc_ok l' (pub_rec p) (case res of None \<Rightarrow> PubWait | Some r \<Rightarrow> PubReturned r)"
    by (rule pc_ok_le [OF le])
  moreover have "closer_ok l' c" if "closer_ok l c" for c
    using that D act assms(2) by (cases c) (auto simp: same_subs_def)
  moreover have "\<not> delivering (case res of None \<Rightarrow> PubWait | Some r \<Rightarrow> PubReturned r)"
    by (simp split: option.split)
  ultimately show ?thesis
    using D act ic le pl_ok_same_subs [OF assms(1)] by (auto simp: step_good_def counters_ok_def)
qed

lemma pub_step_good:
  assumes "pub_step l p res" and "pl_ok l" and "0 \<le> n" and "counters_ok n l (pub_pc p)"
    and "pc_ok l (pub_rec p) (pub_pc p)"
  shows "\<exists>l' p'. res = ChOk (l', p') \<and> step_good n l p l' p'"
  using assms(1)
proof cases
  case (pub_park g)
  then have "pc_ok l (pub_rec p) (PubParked g)"
    by (simp add: wait_for_subscriber_def split: if_splits)
  with pub_park show ?thesis
    by (auto intro!: step_good_same_log [OF assms(2,4)])
next
  case (pub_begin l' ids)
  then show ?thesis using pub_begin_good [OF assms(2-4)] by blast
next
  case (pub_send i ids m l')
  then show ?thesis using pub_send_good [OF assms(2,4) _ _ assms(5)] by blast
next
  case (pub_send_panic i ids m)
  then show ?thesis using send_to_no_panic [OF assms(2)] by blast
next
  case (pub_finish r l')
  then show ?thesis using pub_finish_good [OF assms(2-4) _ _ assms(5)] by blast
next
  case (pub_finish_panic r)
  then show ?thesis
    using assms(3,4) by (auto simp: counters_ok_def finish_publish_def Let_def split: if_splits)
qed (use assms(5) in \<open>auto intro!: step_good_same_log [OF assms(2,4)]\<close>)

definition close_good :: "'r packet_log \<Rightarrow> 'r packet_log \<Rightarrow> bool" where
  "close_good l l' \<longleftrightarrow> pl_ok l' \<and> log_le l l' \<and> pl_active l' = pl_active l \<and>
     pl_idle_closed l' = pl_idle_closed l \<and> (\<forall>c. closer_ok l c \<longrightarrow> closer_ok l' c)"

lemma close_good_refl: "pl_ok l \<Longrightarrow> close_good l l"
  by (simp add: close_good_def)

lemma dropped_good:
  assumes "dropped A l l'"
  shows "close_good l (notify_locked l')"
proof -
  have "closer_ok (notify_locked l') c" if "closer_ok l c" for c
  proof -
    have "pl_subs l = [] \<Longrightarrow> pl_subs l' = []"
      using assms by (auto simp: dropped_def)
    then show ?thesis using that assms by (cases c) (auto simp: dropped_def)
  qed
  then show ?thesis
    using dropped_le [OF assms] assms by (simp add: close_good_def dropped_def)
qed

lemma closer_step_good:
  assumes "closer_step l c res" and "pl_ok l" and "pl_idle_closed l \<longleftrightarrow> pl_active l = 0"
    and "closer_ok l c"
  shows "\<exists>l' c'. res = ChOk (l', c') \<and> close_good l l' \<and> closer_ok l' c'"
proof -
  obtain m where m: "close_subscribers l = ChOk (notify_locked m)" "dropped (set (pl_subs l)) l m"
    using close_subscribers_ok [OF assms(2)] by blast
  then have m': "close_good l (notify_locked m)" "pl_subs m = []" "pl_active m = pl_active l"
    "pl_idle m = pl_idle l" "pl_closed m = pl_closed l"
    using dropped_good [OF m(2)] by (auto simp: dropped_def)
  show ?thesis
    using assms(1)
  proof cases
    case (close_idle g)
    then show ?thesis
      using assms(3,4) close_good_refl [OF assms(2)] by (auto simp: idle_passed_def)
  next
    case (close_late g)
    then show ?thesis
      using assms(3,4) close_good_refl [OF assms(2)] by (auto simp: idle_passed_def)
  qed (use m m' assms(4) in auto)
qed

lemma new_packet_log_idle: "pl_active new_packet_log = 0" "pl_idle_closed new_packet_log"
  by (simp_all add: new_packet_log_def)

lemma pl_inv_init: "pl_inv pl_init"
  by (simp add: pl_inv_def pl_init_def pl_ok_new new_packet_log_idle)

lemma pl_inv_pub:
  assumes "pl_inv s" and "pys_pubs s = pre @ p # post" and "pub_step (pys_log s) p res"
  shows "\<exists>l p'. res = ChOk (l, p') \<and> pl_inv (s\<lparr>pys_log := l, pys_pubs := pre @ p' # post\<rparr>)"
proof -
  let ?n = "count_delivering (pre @ post)"
  from assms(1,2) have "pl_ok (pys_log s)" "0 \<le> ?n" "counters_ok ?n (pys_log s) (pub_pc p)"
    "pc_ok (pys_log s) (pub_rec p) (pub_pc p)"
    by (auto simp: pl_inv_def counters_ok_def)
  from pub_step_good [OF assms(3) this] obtain l p' where r: "res = ChOk (l, p')"
    and g: "step_good ?n (pys_log s) p l p'" by blast
  then have le: "log_le (pys_log s) l" by (simp add: step_good_def)
  have "pl_inv (s\<lparr>pys_log := l, pys_pubs := pre @ p' # post\<rparr>)"
    using assms(1,2) g pc_ok_le [OF le]
    by (auto simp: pl_inv_def step_good_def counters_ok_def)
  with r show ?thesis by blast
qed

text \<open>A change of the log by anyone who is not a publisher.\<close>

lemma pl_inv_log:
  assumes "pl_inv s" and "close_good (pys_log s) l" and "\<forall>c \<in> set cs. closer_ok l c"
  shows "pl_inv (s\<lparr>pys_log := l, pys_closers := cs\<rparr>)"
  using assms pc_ok_le [of "pys_log s" l] by (auto simp: pl_inv_def close_good_def)

lemma pl_inv_log':
  assumes "pl_inv s" and "close_good (pys_log s) l"
  shows "pl_inv (s\<lparr>pys_log := l\<rparr>)"
proof -
  have "\<forall>c \<in> set (pys_closers s). closer_ok l c"
    using assms by (simp add: pl_inv_def close_good_def)
  from pl_inv_log [OF assms this] show ?thesis by simp
qed

lemma pl_inv_closer:
  assumes "pl_inv s" and "pys_closers s = pre @ c # post" and "closer_step (pys_log s) c res"
  shows "\<exists>l c'. res = ChOk (l, c') \<and> pl_inv (s\<lparr>pys_log := l, pys_closers := pre @ c' # post\<rparr>)"
proof -
  from assms(1,2) have "pl_ok (pys_log s)" "pl_idle_closed (pys_log s) \<longleftrightarrow> pl_active (pys_log s) = 0"
    "closer_ok (pys_log s) c" by (auto simp: pl_inv_def)
  from closer_step_good [OF assms(3) this] obtain l c' where r: "res = ChOk (l, c')"
    and g: "close_good (pys_log s) l" "closer_ok l c'" by blast
  moreover have "\<forall>c \<in> set (pre @ c' # post). closer_ok l c"
    using assms(1,2) g by (auto simp: pl_inv_def close_good_def)
  ultimately show ?thesis using pl_inv_log [OF assms(1) g(1)] by blast
qed

lemma close_begin_good:
  assumes "close_begin l = Some (g, l')" and "pl_ok l"
  shows "close_good l l' \<and> closer_ok l' (CloseWaiting g)"
proof -
  from assms(1) have l': "\<not> pl_closed l" "g = pl_idle l" "l' = notify_locked (l\<lparr>pl_closed := True\<rparr>)"
    by (auto simp: close_begin_def split: if_splits)
  have "pl_ok l'"
    using assms(2) by (simp add: l'(3) pl_ok_def sub_ok_def)
  moreover have "\<not> closer_ok l c" for c using l'(1) by (cases c) auto
  ultimately show ?thesis
    by (simp add: close_good_def log_le_def l' pl_got_def)
qed

lemma subscribe_good:
  assumes "pl_subscribe l = Some (i, l')" and "pl_ok l"
  shows "close_good l l'"
proof -
  note D = pl_subscribe_SomeD [OF assms(1)]
  then have "\<not> closer_ok l c" for c by (cases c) auto
  with D subscribe_le [OF assms(2,1)] pl_ok_subscribe [OF assms(2,1)] show ?thesis
    by (simp add: close_good_def)
qed

lemma receive_good:
  assumes "pl_receive i l = Some (r, l')" and "pl_ok l"
  shows "close_good l l'"
proof -
  from pl_receive_SomeD [OF assms(1)] have same: "pl_closed l' = pl_closed l" "pl_idle l' = pl_idle l"
    "pl_active l' = pl_active l" "pl_subs l' = pl_subs l" "pl_idle_closed l' = pl_idle_closed l"
    by auto
  show ?thesis
    using closer_ok_cong [OF _ same(1-4)] receive_le [OF assms(1)] pl_ok_receive [OF assms(2,1)]
    by (simp add: close_good_def same)
qed

lemma unsubscribe_good:
  assumes "pl_ok l"
  shows "\<exists>l'. pl_unsubscribe i l = ChOk l' \<and> close_good l l'"
proof -
  from pl_unsubscribe_ok [OF assms, of i] obtain m where "dropped {i} l m"
    and "pl_unsubscribe i l = ChOk (if i \<in> set (pl_subs l) then notify_locked m else l)" by blast
  then show ?thesis
    using dropped_good [of "{i}" l m] close_good_refl [OF assms] by auto
qed

lemma pl_step_inv:
  assumes "pl_inv s" and "pl_step s t"
  shows "pl_inv t"
proof -
  have ok: "pl_ok (pys_log s)" using assms(1) by (simp add: pl_inv_def)
  show ?thesis
    using assms(2)
  proof cases
    case (pls_publish r)
    then show ?thesis using assms(1) by (auto simp: pl_inv_def)
  next
    case (pls_pub pre p post l p')
    then show ?thesis using pl_inv_pub [OF assms(1) pls_pub(2,3)] by auto
  next
    case (pls_pub_panic pre p post)
    then show ?thesis using pl_inv_pub [OF assms(1) pls_pub_panic(2,3)] by auto
  next
    case (pls_close g l)
    have "\<forall>c \<in> set (pys_closers s @ [CloseWaiting g]). closer_ok l c"
      using close_begin_good [OF pls_close(2) ok] assms(1) by (simp add: pl_inv_def close_good_def)
    then show ?thesis
      using pl_inv_log [OF assms(1)] close_begin_good [OF pls_close(2) ok] pls_close(1) by blast
  next
    case (pls_closer pre c post l c')
    then show ?thesis using pl_inv_closer [OF assms(1) pls_closer(2,3)] by auto
  next
    case (pls_closer_panic pre c post)
    then show ?thesis using pl_inv_closer [OF assms(1) pls_closer_panic(2,3)] by auto
  next
    case (pls_subscribe i l)
    then show ?thesis using pl_inv_log' [OF assms(1)] subscribe_good [OF _ ok] by blast
  next
    case (pls_unsubscribe i l)
    then show ?thesis using pl_inv_log' [OF assms(1)] unsubscribe_good [OF ok, of i] by auto
  next
    case (pls_unsubscribe_panic i)
    then show ?thesis using unsubscribe_good [OF ok, of i] by auto
  next
    case (pls_receive i r l)
    then show ?thesis using pl_inv_log' [OF assms(1)] receive_good [OF _ ok] by blast
  qed
qed

interpretation packet_sys: invariant_system "\<lambda>s. s = pl_init" pl_step pl_inv
  by unfold_locales (auto intro: pl_inv_init pl_step_inv)

section \<open>Properties\<close>

text \<open>
  C5. The packet log never panics: however publishers, subscribers and closers interleave, no
  channel is closed twice and nothing is sent on a closed one, and \<open>active\<close> is exactly the
  number of publishers between their entry and \<open>finishPublish\<close>, the idle channel being
  closed when there is none.
\<close>

theorem packet_log_never_panics:
  assumes "pl_step\<^sup>*\<^sup>* pl_init s"
  shows "\<not> pys_panic s \<and> pl_active (pys_log s) = count_delivering (pys_pubs s) \<and>
    (pl_idle_closed (pys_log s) \<longleftrightarrow> pl_active (pys_log s) = 0)"
  using packet_sys.reachable_inv [OF refl assms] by (simp add: pl_inv_def)

text \<open>
  C4. A publish that returns nil has put its record into the channel of at least one
  subscriber, or that subscriber has received it: a frame is never counted as published while
  nobody can read it.
\<close>

theorem publish_ok_reached:
  assumes "pl_step\<^sup>*\<^sup>* pl_init s" and "p \<in> set (pys_pubs s)" and "pub_pc p = PubReturned (Inr ())"
  shows "\<exists>i. pub_rec p \<in> set (pl_got (pys_log s) i)"
  using packet_sys.reachable_inv [OF refl assms(1)] assms(2,3)
  by (fastforce simp: pl_inv_def reached_def)

text \<open>
  C6. No wake-up is lost: a publisher parked in \<open>waitForSubscriber\<close> while the log has a
  subscriber, or is closed, can take its wake-up step.
\<close>

theorem no_lost_wakeup:
  assumes "pl_step\<^sup>*\<^sup>* pl_init s" and "p \<in> set (pys_pubs s)" and "pub_pc p = PubParked g"
    and "pl_subs (pys_log s) \<noteq> [] \<or> pl_closed (pys_log s)"
  shows "pub_step (pys_log s) p (ChOk (pys_log s, p\<lparr>pub_pc := PubWait\<rparr>))"
proof -
  have "pc_ok (pys_log s) (pub_rec p) (PubParked g)"
    using packet_sys.reachable_inv [OF refl assms(1)] assms(2,3) by (fastforce simp: pl_inv_def)
  with assms(4) have "g < pl_changed (pys_log s)" by auto
  with assms(3) show ?thesis by (rule pub_step.pub_wake)
qed

text \<open>Once \<open>close\<close> returned, the channels are final.\<close>

lemma closed_idle_final:
  assumes "pl_inv s" and "pl_step s t" and "CloseReturned b \<in> set (pys_closers s)"
  shows "pl_got (pys_log t) i = pl_got (pys_log s) i"
proof -
  from assms(1,3) have closed: "pl_closed (pys_log s)" and act: "pl_active (pys_log s) = 0"
    and ok: "pl_ok (pys_log s)"
    by (fastforce simp: pl_inv_def)+
  then have nd: "\<forall>p \<in> set (pys_pubs s). \<not> delivering (pub_pc p)"
    using assms(1) by (simp add: pl_inv_def count_delivering_0)
  show ?thesis
    using assms(2)
  proof cases
    case (pls_pub pre p post l p')
    have "\<not> delivering (pub_pc p)" using nd pls_pub(2) by simp
    with pls_pub(3) closed have "l = pys_log s"
      by (auto elim!: pub_step.cases simp: publish_begin_def)
    with pls_pub show ?thesis by simp
  next
    case (pls_closer pre c post l c')
    obtain m where m: "close_subscribers (pys_log s) = ChOk (notify_locked m)"
      "dropped (set (pl_subs (pys_log s))) (pys_log s) m"
      using close_subscribers_ok [OF ok] by blast
    then have "pl_got (notify_locked m) i = pl_got (pys_log s) i" using dropped_le by blast
    then have "pl_got l i = pl_got (pys_log s) i"
      using pls_closer(3) m(1) by (auto elim!: closer_step.cases)
    then show ?thesis by (simp add: pls_closer(1))
  next
    case (pls_unsubscribe j l)
    from pl_unsubscribe_ok [OF ok, of j] obtain m where "dropped {j} (pys_log s) m"
      and "pl_unsubscribe j (pys_log s) =
        ChOk (if j \<in> set (pl_subs (pys_log s)) then notify_locked m else pys_log s)" by blast
    with pls_unsubscribe dropped_le [of "{j}" "pys_log s" m] show ?thesis by (auto split: if_splits)
  next
    case (pls_receive j r l)
    then show ?thesis using receive_le [OF pls_receive(2), of i] by simp
  qed (use closed in \<open>auto simp: close_begin_def pl_subscribe_def\<close>)
qed


section \<open>A publish without interference\<close>

text \<open>
  \<open>publish\<close> run from its entry to its return with nothing in between; \<open>None\<close> when it would
  block, for want of a subscriber or of room in a channel.
\<close>

fun send_all :: "'r \<Rightarrow> nat list \<Rightarrow> 'r packet_log \<Rightarrow> 'r packet_log option" where
  "send_all r [] l = Some l"
| "send_all r (i # is) l = (case send_to r i l of ChOk l' \<Rightarrow> send_all r is l' | _ \<Rightarrow> None)"

definition publish_now :: "'r \<Rightarrow> 'r packet_log \<Rightarrow> ((publish_error + unit) \<times> 'r packet_log) option" where
  "publish_now r l =
     (case wait_for_subscriber l of
        WaitClosed \<Rightarrow> Some (Inl PacketLogClosed, l)
      | WaitPark g \<Rightarrow> None
      | WaitReady \<Rightarrow>
          (case publish_begin l of
             None \<Rightarrow> Some (Inl PacketLogClosed, l)
           | Some l1 \<Rightarrow>
               (case send_all r (pl_subs l1) l1 of
                  None \<Rightarrow> None
                | Some l2 \<Rightarrow>
                    (case finish_publish l2 of
                       ChOk l3 \<Rightarrow> Some (Inr (), l3)
                     | _ \<Rightarrow> None))))"

text \<open>It is a run of the concurrent program, from any state.\<close>

definition with_pub :: "'r pl_sys \<Rightarrow> 'r packet_log \<Rightarrow> 'r \<Rightarrow> publisher_pc \<Rightarrow> 'r pl_sys" where
  "with_pub s l r pc = s\<lparr>pys_log := l, pys_pubs := pys_pubs s @ [\<lparr>pub_rec = r, pub_pc = pc\<rparr>]\<rparr>"

lemma with_pub_step:
  assumes "pub_step l \<lparr>pub_rec = r, pub_pc = pc\<rparr> (ChOk (l', \<lparr>pub_rec = r, pub_pc = pc'\<rparr>))"
  shows "pl_step (with_pub s l r pc) (with_pub s l' r pc')"
  using pls_pub [of "with_pub s l r pc" "pys_pubs s" "\<lparr>pub_rec = r, pub_pc = pc\<rparr>" "[]" l'
      "\<lparr>pub_rec = r, pub_pc = pc'\<rparr>"] assms
  by (simp add: with_pub_def)

lemma with_pub_step':
  assumes "pub_step l \<lparr>pub_rec = r, pub_pc = pc\<rparr> (ChOk (l', \<lparr>pub_rec = r, pub_pc = pc\<rparr>\<lparr>pub_pc := pc'\<rparr>))"
  shows "pl_step (with_pub s l r pc) (with_pub s l' r pc')"
  using assms by (intro with_pub_step) simp

lemma send_all_run:
  "send_all r is l = Some l' \<Longrightarrow>
     pl_step\<^sup>*\<^sup>* (with_pub s l r (PubDeliver is n)) (with_pub s l' r (PubDeliver [] (n + length is)))"
proof (induction "is" arbitrary: l n)
  case (Cons i "is")
  then obtain m where m: "send_to r i l = ChOk m" "send_all r is m = Some l'"
    by (auto split: chan_outcome.splits)
  have "pub_step l \<lparr>pub_rec = r, pub_pc = PubDeliver (i # is) n\<rparr>
      (ChOk (m, \<lparr>pub_rec = r, pub_pc = PubDeliver (i # is) n\<rparr>\<lparr>pub_pc := PubDeliver is (Suc n)\<rparr>))"
    using m(1) by (intro pub_step.pub_send) simp_all
  from converse_rtranclp_into_rtranclp [OF with_pub_step' [OF this] Cons.IH [OF m(2)]]
  show ?case by simp
qed simp

lemma publish_now_run:
  assumes "publish_now r (pys_log s) = Some (res, l')" and "pl_ok (pys_log s)"
  shows "pl_step\<^sup>*\<^sup>* s (with_pub s l' r (PubReturned res))"
proof -
  let ?l = "pys_log s"
  have start: "pl_step s (with_pub s ?l r PubWait)"
    using pls_publish [of s r] by (simp add: with_pub_def)
  show ?thesis
  proof (cases "wait_for_subscriber ?l")
    case WaitClosed
    then have r: "res = Inl PacketLogClosed" "l' = ?l" using assms(1) by (auto simp: publish_now_def)
    have "pub_step ?l \<lparr>pub_rec = r, pub_pc = PubWait\<rparr>
      (ChOk (?l, \<lparr>pub_rec = r, pub_pc = PubWait\<rparr>\<lparr>pub_pc := PubReturned (Inl PacketLogClosed)\<rparr>))"
      using WaitClosed by (intro pub_step.pub_closed) simp_all
    from with_pub_step' [OF this] start show ?thesis
      unfolding r by (meson converse_rtranclp_into_rtranclp rtranclp.rtrancl_refl)
  next
    case WaitReady
    then have open_log: "\<not> pl_closed ?l" by (auto simp: wait_for_subscriber_def split: if_splits)
    then obtain l1 where l1: "publish_begin ?l = Some l1" by (simp add: publish_begin_def Let_def)
    with WaitReady assms(1) obtain l2 where l2: "send_all r (pl_subs l1) l1 = Some l2"
      and l3: "finish_publish l2 = ChOk l'" and res: "res = Inr ()"
      by (auto simp: publish_now_def split: option.splits chan_outcome.splits)
    have subs: "pl_subs l1 = pl_subs ?l" using publish_begin_SomeD [OF l1] by (simp add: same_subs_def)
    have pos: "0 < length (pl_subs l1)"
      using WaitReady subs by (auto simp: wait_for_subscriber_def split: if_splits)
    have 1: "pl_step (with_pub s ?l r PubWait) (with_pub s ?l r PubReady)"
      by (intro with_pub_step' pub_step.pub_found) (simp_all add: WaitReady)
    have 2: "pl_step (with_pub s ?l r PubReady) (with_pub s l1 r (PubDeliver (pl_subs l1) 0))"
      using assms(2) by (intro with_pub_step' pub_step.pub_begin) (simp_all add: l1 subs pl_ok_def)
    have 3: "pl_step (with_pub s l2 r (PubDeliver [] (0 + length (pl_subs l1))))
        (with_pub s l2 r (PubFinish (Some (Inr ()))))"
      using pub_step.pub_served [of "\<lparr>pub_rec = r, pub_pc = PubDeliver [] (length (pl_subs l1))\<rparr>"
          "length (pl_subs l1)" l2] pos
      by (intro with_pub_step') simp
    have 4: "pl_step (with_pub s l2 r (PubFinish (Some (Inr ())))) (with_pub s l' r (PubReturned res))"
      using pub_step.pub_finish [of "\<lparr>pub_rec = r, pub_pc = PubFinish (Some (Inr ()))\<rparr>" _ l2 l'] l3
      by (intro with_pub_step') (simp add: res)
    from start 1 2 have "pl_step\<^sup>*\<^sup>* s (with_pub s l1 r (PubDeliver (pl_subs l1) 0))"
      by (meson converse_rtranclp_into_rtranclp rtranclp.rtrancl_refl)
    from rtranclp_trans [OF this send_all_run [OF l2]] 3 4 show ?thesis
      by (meson rtranclp.rtrancl_into_rtrancl)
  next
    case (WaitPark g)
    then show ?thesis using assms(1) by (simp add: publish_now_def)
  qed
qed

lemma send_all_effect:
  assumes "send_all r is l = Some l'" and "distinct is" and "pl_ok l"
  shows "pl_ok l' \<and> pl_subs l' = pl_subs l \<and> pl_closed l' = pl_closed l \<and> pl_active l' = pl_active l \<and>
    pl_idle_closed l' = pl_idle_closed l \<and> pl_changed l' = pl_changed l \<and>
    pl_got l' i = pl_got l i @ (if i \<in> set is then [r] else [])"
  using assms
proof (induction "is" arbitrary: l)
  case (Cons j "is")
  then obtain m where m: "send_to r j l = ChOk m" "send_all r is m = Some l'"
    by (auto split: chan_outcome.splits)
  from send_to_OkD [OF m(1)]
  have "pl_subs m = pl_subs l" "pl_closed m = pl_closed l" "pl_active m = pl_active l"
    "pl_idle_closed m = pl_idle_closed l" "pl_changed m = pl_changed l"
    "pl_got m i = pl_got l i @ (if i = j then [r] else [])"
    by (auto simp: pl_got_def)
  then show ?case
    using Cons.IH [OF m(2)] Cons.prems pl_ok_send [OF Cons.prems(3) m(1)] by auto
qed simp

lemma publish_now_effect:
  assumes "publish_now r l = Some (Inr u, l')" and "pl_ok l"
  shows "\<not> pl_closed l \<and> pl_subs l \<noteq> [] \<and> pl_ok l' \<and> pl_subs l' = pl_subs l \<and>
    pl_closed l' = pl_closed l \<and> pl_active l' = pl_active l \<and>
    pl_got l' i = pl_got l i @ (if i \<in> set (pl_subs l) then [r] else [])"
proof -
  from assms(1) have ready: "wait_for_subscriber l = WaitReady"
    by (auto simp: publish_now_def split: wait_verdict.splits)
  then have "\<not> pl_closed l" "pl_subs l \<noteq> []"
    by (auto simp: wait_for_subscriber_def split: if_splits)
  moreover from assms(1) ready obtain l1 l2 where l1: "publish_begin l = Some l1"
    and l2: "send_all r (pl_subs l1) l1 = Some l2" and l3: "finish_publish l2 = ChOk l'"
    by (auto simp: publish_now_def split: option.splits chan_outcome.splits)
  note D = publish_begin_SomeD [OF l1] finish_publish_OkD [OF l3]
  have ok1: "pl_ok l1" using D(1) pl_ok_same_subs [OF assms(2)] by blast
  then have "distinct (pl_subs l1)" by (simp add: pl_ok_def)
  note E = send_all_effect [OF l2 this ok1]
  have "pl_ok l'" using D(2) E pl_ok_same_subs by blast
  moreover have "pl_got l1 i = pl_got l i" "pl_got l' i = pl_got l2 i" "pl_subs l1 = pl_subs l"
    "pl_subs l' = pl_subs l2" using D by (simp_all add: pl_got_def same_subs_def)
  ultimately show ?thesis using D E by simp
qed

section \<open>Runs\<close>

definition pl_sub1 :: "'r packet_log" where
  "pl_sub1 = chan_result new_packet_log (ChOk (snd (the (pl_subscribe new_packet_log))))"

lemma pl_subscribe_new: "pl_subscribe new_packet_log = Some (0, pl_sub1)"
  by (simp add: pl_sub1_def pl_subscribe_def new_packet_log_def Let_def)

lemma pl_sub1_ok: "pl_ok pl_sub1"
  by (rule pl_ok_subscribe [OF pl_ok_new pl_subscribe_new])

lemma pl_sub1_simps: "pl_subs pl_sub1 = [0]" "pl_got pl_sub1 0 = []"
  by (simp_all add: pl_sub1_def pl_subscribe_def new_packet_log_def Let_def notify_locked_def
      pl_got_def make_chan_def)

definition pl_pub1 :: "'r \<Rightarrow> 'r packet_log" where
  "pl_pub1 r = snd (the (publish_now r pl_sub1))"

lemma publish_now_sub1: "publish_now r pl_sub1 = Some (Inr (), pl_pub1 r)"
  by (simp add: pl_pub1_def publish_now_def pl_sub1_def pl_subscribe_def new_packet_log_def Let_def
      notify_locked_def wait_for_subscriber_def publish_begin_def send_to_def chan_send_def
      make_chan_def packet_chan_cap_def finish_publish_def)

lemma pl_run_sub1: "pl_step\<^sup>*\<^sup>* (pl_init :: 'r pl_sys) (pl_init\<lparr>pys_log := pl_sub1\<rparr>)"
proof -
  have "pl_subscribe (pys_log (pl_init :: 'r pl_sys)) = Some (0, pl_sub1)"
    by (simp add: pl_init_def pl_subscribe_new)
  then show ?thesis using pls_subscribe by blast
qed

lemma pl_run_pub1:
  "pl_step\<^sup>*\<^sup>* pl_init (with_pub (pl_init\<lparr>pys_log := pl_sub1\<rparr>) (pl_pub1 r) r (PubReturned (Inr ())))"
proof -
  have "pl_step\<^sup>*\<^sup>* (pl_init\<lparr>pys_log := pl_sub1\<rparr>)
      (with_pub (pl_init\<lparr>pys_log := pl_sub1\<rparr>) (pl_pub1 r) r (PubReturned (Inr ())))"
    by (intro publish_now_run) (simp_all add: publish_now_sub1 pl_sub1_ok)
  with pl_run_sub1 show ?thesis by (rule rtranclp_trans)
qed

text \<open>A publisher that parked before the first subscriber came.\<close>

definition pl_parked :: "'r \<Rightarrow> 'r pl_sys" where
  "pl_parked r = with_pub (pl_init\<lparr>pys_log := pl_sub1\<rparr>) pl_sub1 r (PubParked 0)"

lemma pl_run_parked: "pl_step\<^sup>*\<^sup>* pl_init (pl_parked r)"
proof -
  have 1: "pl_step pl_init (with_pub pl_init new_packet_log r PubWait)"
    using pls_publish [of pl_init r] by (simp add: with_pub_def pl_init_def)
  have 2: "pl_step (with_pub pl_init new_packet_log r PubWait)
      (with_pub pl_init new_packet_log r (PubParked 0))"
    by (intro with_pub_step' pub_step.pub_park)
      (simp_all add: wait_for_subscriber_def new_packet_log_def)
  have 3: "pl_step (with_pub pl_init new_packet_log r (PubParked 0)) (pl_parked r)"
    using pls_subscribe [of "with_pub pl_init new_packet_log r (PubParked 0)" 0 pl_sub1]
    by (simp add: with_pub_def pl_subscribe_new pl_parked_def pl_init_def)
  from 1 2 3 show ?thesis by (meson converse_rtranclp_into_rtranclp rtranclp.rtrancl_refl)
qed

text \<open>A publish followed by a close that drains.\<close>

definition pl_final :: "'r \<Rightarrow> 'r pl_sys" where
  "pl_final r = (with_pub (pl_init\<lparr>pys_log := pl_sub1\<rparr>)
     (chan_result (pl_pub1 r) (close_subscribers (snd (the (close_begin (pl_pub1 r)))))) r
     (PubReturned (Inr ())))\<lparr>pys_closers := [CloseReturned True]\<rparr>"

lemma pl_pub1_ok: "pl_ok (pl_pub1 r) \<and> pl_active (pl_pub1 r) = 0 \<and> \<not> pl_closed (pl_pub1 r) \<and>
  pl_idle_closed (pl_pub1 r) \<and> pl_subs (pl_pub1 r) = [0] \<and> pl_got (pl_pub1 r) 0 = [r]"
proof -
  have "pl_inv (with_pub (pl_init\<lparr>pys_log := pl_sub1\<rparr>) (pl_pub1 r) r (PubReturned (Inr ())))"
    by (rule packet_sys.reachable_inv [OF refl pl_run_pub1])
  then have "pl_ok (pl_pub1 r)" "pl_active (pl_pub1 r) = 0" "pl_idle_closed (pl_pub1 r)"
    by (simp_all add: pl_inv_def with_pub_def pl_init_def)
  with publish_now_effect [OF publish_now_sub1 pl_sub1_ok, of r 0] show ?thesis
    by (simp add: pl_sub1_simps)
qed

lemma pl_run_final: "pl_step\<^sup>*\<^sup>* pl_init (pl_final r)"
proof -
  let ?s = "with_pub (pl_init\<lparr>pys_log := pl_sub1\<rparr>) (pl_pub1 r) r (PubReturned (Inr ()))"
  let ?c = "notify_locked ((pl_pub1 r)\<lparr>pl_closed := True\<rparr>)"
  have cb: "close_begin (pl_pub1 r) = Some (pl_idle (pl_pub1 r), ?c)"
    using pl_pub1_ok [of r] by (simp add: close_begin_def)
  have "pl_step ?s (?s\<lparr>pys_log := ?c, pys_closers := pys_closers ?s @ [CloseWaiting (pl_idle (pl_pub1 r))]\<rparr>)"
    by (rule pls_close) (simp add: with_pub_def cb)
  then have 1: "pl_step ?s (?s\<lparr>pys_log := ?c, pys_closers := [CloseWaiting (pl_idle (pl_pub1 r))]\<rparr>)"
    (is "pl_step _ ?t") by (simp add: with_pub_def pl_init_def)
  have "closer_step ?c (CloseWaiting (pl_idle (pl_pub1 r))) (ChOk (?c, CloseIdle))"
    using pl_pub1_ok [of r] by (intro closer_step.close_idle) (simp add: idle_passed_def)
  then have 2: "pl_step ?t (?t\<lparr>pys_closers := [CloseIdle]\<rparr>)"
    using pls_closer [of ?t "[]" "CloseWaiting (pl_idle (pl_pub1 r))" "[]" ?c CloseIdle] by simp
  have "pl_ok ?c" using close_begin_good [OF cb] pl_pub1_ok [of r] by (simp add: close_good_def)
  then obtain m where m: "close_subscribers ?c = ChOk (notify_locked m)"
    using close_subscribers_ok by blast
  then have "closer_step ?c CloseIdle (ChOk (notify_locked m, CloseReturned True))"
    by (rule closer_step.close_drained)
  then have 3: "pl_step (?t\<lparr>pys_closers := [CloseIdle]\<rparr>)
      (?t\<lparr>pys_log := notify_locked m, pys_closers := [CloseReturned True]\<rparr>)"
    using pls_closer [of "?t\<lparr>pys_closers := [CloseIdle]\<rparr>" "[]" CloseIdle "[]" "notify_locked m"
        "CloseReturned True"] by simp
  have "?t\<lparr>pys_log := notify_locked m, pys_closers := [CloseReturned True]\<rparr> = pl_final r"
    by (simp add: pl_final_def with_pub_def cb m)
  with rtranclp.rtrancl_into_rtrancl [OF rtranclp.rtrancl_into_rtrancl
      [OF rtranclp.rtrancl_into_rtrancl [OF pl_run_pub1 1] 2] 3]
  show ?thesis by simp
qed

theorem packet_log_never_panics_witness: "\<not> pys_panic (pl_parked ''rec'')"
  by (rule packet_log_never_panics [OF pl_run_parked, THEN conjunct1])

theorem publish_ok_reached_witness:
  "\<exists>i. ''rec'' \<in> set (pl_got (pl_pub1 ''rec'') i)"
  using publish_ok_reached [OF pl_run_pub1, of "\<lparr>pub_rec = ''rec'', pub_pc = PubReturned (Inr ())\<rparr>" "''rec''"]
  by (simp add: with_pub_def)

theorem no_lost_wakeup_witness:
  "\<exists>t. pub_step pl_sub1 \<lparr>pub_rec = ''rec'', pub_pc = PubParked 0\<rparr> t"
  using no_lost_wakeup [OF pl_run_parked, of "\<lparr>pub_rec = ''rec'', pub_pc = PubParked 0\<rparr>" "''rec''" 0]
  by (auto simp: pl_parked_def with_pub_def pl_sub1_def pl_subscribe_def new_packet_log_def Let_def)

text \<open>After the close, the subscriber drains what it has.\<close>

lemma pl_sub1_eq: "pl_sub1 = \<lparr>pl_store = [(0, \<lparr>pks_ch = make_chan packet_chan_cap,
     pks_done = False, pks_taken = []\<rparr>)], pl_subs = [0], pl_next_id = 1, pl_closed = False,
   pl_changed = 1, pl_active = 0, pl_idle = 0, pl_idle_closed = True\<rparr>"
  by (simp add: pl_sub1_def pl_subscribe_def new_packet_log_def notify_locked_def)

lemma pl_pub1_eq: "pl_pub1 r = \<lparr>pl_store = [(0, \<lparr>pks_ch = \<lparr>ch_buf = [r], ch_cap = 256,
     ch_closed = False\<rparr>, pks_done = False, pks_taken = []\<rparr>)], pl_subs = [0], pl_next_id = 1,
   pl_closed = False, pl_changed = 1, pl_active = 0, pl_idle = 1, pl_idle_closed = True\<rparr>"
  by (simp add: pl_pub1_def pl_sub1_eq publish_now_def wait_for_subscriber_def publish_begin_def
      send_to_def chan_send_def make_chan_def packet_chan_cap_def finish_publish_def)

definition pl_final_log :: "'r \<Rightarrow> 'r packet_log" where
  "pl_final_log r = \<lparr>pl_store = [(0, \<lparr>pks_ch = \<lparr>ch_buf = [r], ch_cap = 256,
     ch_closed = False\<rparr>, pks_done = True, pks_taken = []\<rparr>)], pl_subs = [], pl_next_id = 1,
   pl_closed = True, pl_changed = 3, pl_active = 0, pl_idle = 1, pl_idle_closed = True\<rparr>"

lemma pl_final_log_eq: "pys_log (pl_final r) = pl_final_log r"
  by (simp add: pl_final_def with_pub_def pl_pub1_eq close_begin_def close_subscribers_def
      drop_sub_def notify_locked_def pl_final_log_def)

lemma pl_final_receive: "\<exists>l. pl_receive 0 (pys_log (pl_final r)) = Some (r, l)"
  unfolding pl_final_log_eq by (simp add: pl_final_log_def pl_receive_def)

lemma pl_final_got: "pl_got (pys_log (pl_final r)) 0 = [r]"
  unfolding pl_final_log_eq by (simp add: pl_final_log_def pl_got_def)


end
