(* ===== verification/Session.thy ===== *)
theory Session imports Hub_Types Event_Log Packet_Log begin

text \<open>
  \<open>pkg/hub/session.go\<close>: the in-memory state of one capture session.  \<open>ss_clock\<close> is the
  time \<open>timestamppb.Now\<close> reads; \<open>ss_ctx_done\<close> is the cancelled session context; the two
  notification channels \<open>stateChange\<close> and \<open>assignChange\<close> are generations, as in
  \<open>Packet_Log\<close>.  \<open>emit\<close> is the locked part of the event log's \<open>append\<close>; its sends to
  the watchers are the concurrent steps of \<open>Event_Log\<close>.  Each definition is one critical
  section of \<open>s.mu\<close> (or of \<open>ensuringMu\<close>).
\<close>

definition maxBatchRecords :: nat where "maxBatchRecords = 64"
definition maxBatchPayloadBytes :: nat where "maxBatchPayloadBytes = 4 * 2 ^ 20"

record agent_record =
  ar_node :: string
  ar_pod_name :: string
  ar_stream_id :: string
  ar_last_sequence :: u64
  ar_ingest_active :: bool

record pod_stat =
  ps_pod :: pod_ref
  ps_packets :: u64
  ps_bytes :: u64
  ps_dropped :: u64

record session_counters =
  sc_packets :: u64
  sc_bytes :: u64
  sc_dropped :: u64
  sc_per_pod :: "(string, pod_stat) gomap"

record session =
  ss_proto :: session_proto
  ss_events :: "session_event event_log"
  ss_packets :: "capture_record packet_log"
  ss_ctx_done :: bool
  ss_ensuring :: "string list"
  ss_agents :: "(string, agent_record) gomap"
  ss_assigns :: "(string, agent_assignment) gomap"
  ss_state_gen :: nat
  ss_assign_gen :: u64
  ss_assign_chan :: nat
  ss_stats :: session_counters
  ss_clock :: int

definition new_session_state :: "int \<Rightarrow> string \<Rightarrow> capture_spec \<Rightarrow> session" where
  "new_session_state now sid sp =
     \<lparr>ss_proto = \<lparr>sn_id = sid, sn_spec = sp, sn_state = Session_Pending, sn_failure = None,
        sn_created_at = Some now, sn_stopped_at = None, sn_nodes = []\<rparr>,
      ss_events = new_event_log, ss_packets = new_packet_log, ss_ctx_done = False,
      ss_ensuring = [], ss_agents = [], ss_assigns = [], ss_state_gen = 0, ss_assign_gen = 0,
      ss_assign_chan = 0,
      ss_stats = \<lparr>sc_packets = 0, sc_bytes = 0, sc_dropped = 0, sc_per_pod = []\<rparr>,
      ss_clock = now\<rparr>"

abbreviation ss_id :: "session \<Rightarrow> string" where "ss_id s \<equiv> sn_id (ss_proto s)"
abbreviation ss_state :: "session \<Rightarrow> session_phase" where "ss_state s \<equiv> sn_state (ss_proto s)"

definition signal_stop :: "session \<Rightarrow> session" where
  "signal_stop s = s\<lparr>ss_ctx_done := True\<rparr>"

definition set_state :: "session_phase \<Rightarrow> hub_error option \<Rightarrow> session \<Rightarrow> session" where
  "set_state st failure s =
     s\<lparr>ss_proto := (ss_proto s)\<lparr>sn_state := st, sn_failure := failure,
         sn_stopped_at := (if st = Session_Stopped \<or> st = Session_Failed then Some (ss_clock s)
                           else sn_stopped_at (ss_proto s))\<rparr>,
       ss_state_gen := Suc (ss_state_gen s)\<rparr>"

text \<open>One look of a waiting loop: return (nil or an error), or park.\<close>

datatype look = LookReturn "hub_error option" | LookPark nat

definition wait_until_running :: "session \<Rightarrow> look" where
  "wait_until_running s =
     (case ss_state s of
        Session_Running \<Rightarrow> LookReturn None
      | Session_Stopping \<Rightarrow> LookReturn (Some (EnteredState Session_Stopping))
      | Session_Stopped \<Rightarrow> LookReturn (Some (EnteredState Session_Stopped))
      | Session_Failed \<Rightarrow> LookReturn (Some (EnteredState Session_Failed))
      | _ \<Rightarrow> LookPark (ss_state_gen s))"

definition set_nodes :: "string list \<Rightarrow> session \<Rightarrow> session" where
  "set_nodes nodes s = s\<lparr>ss_proto := (ss_proto s)\<lparr>sn_nodes := nodes\<rparr>\<rparr>"

definition snapshot :: "session \<Rightarrow> session_proto" where
  "snapshot s = ss_proto s"

definition emit :: "session_event \<Rightarrow> session \<Rightarrow> session" where
  "emit ev s =
     (let ev1 = (if se_timestamp ev = None then ev\<lparr>se_timestamp := Some (ss_clock s)\<rparr> else ev) in
      case append_locked ev1 (ss_events s) of
        None \<Rightarrow> s
      | Some l \<Rightarrow> s\<lparr>ss_events := l\<rparr>)"

definition session_event_of :: "string \<Rightarrow> severity \<Rightarrow> message \<Rightarrow> event_payload \<Rightarrow> session_event" where
  "session_event_of sid sev msg p =
     \<lparr>se_session_id = sid, se_timestamp = None, se_severity = sev, se_message = msg, se_payload = p\<rparr>"

definition emit_state :: "string \<Rightarrow> session_phase \<Rightarrow> session \<Rightarrow> session" where
  "emit_state sid st s =
     emit (session_event_of sid Severity_Info (MsgState st) (SessionStateEvent st)) s"

definition begin_ensure :: "string \<Rightarrow> session \<Rightarrow> bool \<times> session" where
  "begin_ensure node s =
     (if node \<in> set (ss_ensuring s) then (False, s)
      else (True, s\<lparr>ss_ensuring := node # ss_ensuring s\<rparr>))"

definition end_ensure :: "string \<Rightarrow> session \<Rightarrow> session" where
  "end_ensure node s = s\<lparr>ss_ensuring := filter (\<lambda>n. n \<noteq> node) (ss_ensuring s)\<rparr>"

definition notify_assign_locked :: "session \<Rightarrow> session" where
  "notify_assign_locked s =
     s\<lparr>ss_assign_gen := ss_assign_gen s + 1, ss_assign_chan := Suc (ss_assign_chan s)\<rparr>"

definition record_agent ::
    "string \<Rightarrow> string \<Rightarrow> string \<Rightarrow> agent_assignment \<Rightarrow> session \<Rightarrow> session" where
  "record_agent node podName streamID assignment s =
     notify_assign_locked
       (s\<lparr>ss_agents := AList.update node
            \<lparr>ar_node = node, ar_pod_name = podName, ar_stream_id = streamID,
             ar_last_sequence = 0, ar_ingest_active = False\<rparr> (ss_agents s),
          ss_assigns := AList.update node assignment (ss_assigns s)\<rparr>)"

definition update_assignment :: "string \<Rightarrow> agent_assignment \<Rightarrow> session \<Rightarrow> session" where
  "update_assignment node assignment s =
     notify_assign_locked (s\<lparr>ss_assigns := AList.update node assignment (ss_assigns s)\<rparr>)"

definition remove_agent :: "string \<Rightarrow> session \<Rightarrow> session" where
  "remove_agent node s =
     (let agents = AList.delete node (ss_agents s) in
      notify_assign_locked
        (s\<lparr>ss_agents := agents, ss_assigns := AList.delete node (ss_assigns s),
           ss_proto := (ss_proto s)\<lparr>sn_nodes := keys agents\<rparr>\<rparr>))"

definition assignment_for_node :: "string \<Rightarrow> session \<Rightarrow> agent_assignment option" where
  "assignment_for_node node s = map_of (ss_assigns s) node"

fun targets_by_uid :: "target list \<Rightarrow> (string, pod_ref) gomap \<Rightarrow> (string, pod_ref) gomap" where
  "targets_by_uid [] out = out"
| "targets_by_uid (t # ts) out =
     targets_by_uid ts
       (case tg_pod t of
          None \<Rightarrow> out
        | Some p \<Rightarrow> if pr_uid p \<noteq> [] then AList.update (pr_uid p) p out else out)"

definition current_targets :: "session \<Rightarrow> (string, pod_ref) gomap" where
  "current_targets s =
     fold (\<lambda>a out. targets_by_uid (as_targets a) out) (map snd (ss_assigns s)) []"

definition agent_nodes :: "session \<Rightarrow> string list" where
  "agent_nodes s = keys (ss_agents s)"

definition wait_assign_change :: "string \<Rightarrow> u64 \<Rightarrow> session \<Rightarrow> look" where
  "wait_assign_change node gen s =
     (if isTerminalState (ss_state s) \<or> ss_state s = Session_Stopping
      then LookReturn (Some SessionStopping)
      else if map_of (ss_agents s) node = None then LookReturn (Some AgentRemoved)
      else if ss_assign_gen s \<noteq> gen then LookReturn None
      else if ss_ctx_done s then LookReturn (Some SessionStoppedErr)
      else LookPark (ss_assign_chan s))"

section \<open>Statistics\<close>

definition pod_stat_locked :: "pod_ref \<Rightarrow> session_counters \<Rightarrow> pod_stat" where
  "pod_stat_locked pod c =
     (case map_of (sc_per_pod c) (pr_uid pod) of
        Some st \<Rightarrow> st
      | None \<Rightarrow> \<lparr>ps_pod = pod, ps_packets = 0, ps_bytes = 0, ps_dropped = 0\<rparr>)"

definition put_stat :: "pod_ref \<Rightarrow> pod_stat \<Rightarrow> session_counters \<Rightarrow> session_counters" where
  "put_stat pod st c = c\<lparr>sc_per_pod := AList.update (pr_uid pod) st (sc_per_pod c)\<rparr>"

definition add_packet_locked :: "pod_ref option \<Rightarrow> int \<Rightarrow> session_counters \<Rightarrow> session_counters" where
  "add_packet_locked pod nBytes c =
     (let n = (if nBytes < 0 then 0 else nBytes);
          c1 = c\<lparr>sc_packets := sc_packets c + 1, sc_bytes := sc_bytes c + word_of_int n\<rparr> in
      case pod of
        None \<Rightarrow> c1
      | Some p \<Rightarrow>
          if pr_uid p = [] then c1
          else let st = pod_stat_locked p c1 in
            put_stat p (st\<lparr>ps_packets := ps_packets st + 1,
                           ps_bytes := ps_bytes st + word_of_int n\<rparr>) c1)"

definition add_dropped :: "u64 \<Rightarrow> pod_ref option \<Rightarrow> session \<Rightarrow> session" where
  "add_dropped n pod s =
     (if n = 0 then s
      else let c1 = (ss_stats s)\<lparr>sc_dropped := sc_dropped (ss_stats s) + n\<rparr> in
        (case pod of
           None \<Rightarrow> s\<lparr>ss_stats := c1\<rparr>
         | Some p \<Rightarrow>
             if pr_uid p = [] then s\<lparr>ss_stats := c1\<rparr>
             else let st = pod_stat_locked p c1 in
               s\<lparr>ss_stats := put_stat p (st\<lparr>ps_dropped := ps_dropped st + n\<rparr>) c1\<rparr>))"

definition snapshot_stats :: "session \<Rightarrow> session_stats" where
  "snapshot_stats s =
     \<lparr>st_packets = sc_packets (ss_stats s), st_bytes = sc_bytes (ss_stats s),
      st_dropped = sc_dropped (ss_stats s),
      st_per_pod = map (\<lambda>(_, st). \<lparr>pc_pod = ps_pod st, pc_packets = ps_packets st,
        pc_bytes = ps_bytes st, pc_dropped = ps_dropped st\<rparr>) (sc_per_pod (ss_stats s))\<rparr>"

definition emit_stats :: "session \<Rightarrow> session" where
  "emit_stats s =
     (let stats = snapshot_stats s in
      emit (session_event_of (ss_id s) Severity_Info
              (MsgStats (st_packets stats) (st_bytes stats) (st_dropped stats))
              (StatsEvent stats)) s)"

section \<open>Agent identity and capture streams\<close>

definition assignment_for ::
    "string \<Rightarrow> string \<Rightarrow> string \<Rightarrow> session \<Rightarrow> hub_error + agent_assignment" where
  "assignment_for node podName streamID s =
     (if node = [] \<or> podName = [] \<or> streamID = [] then Inl IdentityRequired
      else case map_of (ss_agents s) node of
        None \<Rightarrow> Inl (NoAgentForNode node)
      | Some rec \<Rightarrow>
          if ar_pod_name rec \<noteq> podName \<or> ar_stream_id rec \<noteq> streamID
          then Inl AgentIdentityMismatch
          else (case map_of (ss_assigns s) node of
                  None \<Rightarrow> Inl (NoAssignmentForNode node)
                | Some a \<Rightarrow> Inr a))"

text \<open>\<open>assignedTarget\<close>; a nil assignment or pod matches nothing.\<close>

definition assigned_target :: "agent_assignment option \<Rightarrow> pod_ref option \<Rightarrow> target option" where
  "assigned_target assignment pod =
     (case (assignment, pod) of
        (Some a, Some p) \<Rightarrow>
          find (\<lambda>t. let c = deref_pod (tg_pod t) in
                    pr_namespace c = pr_namespace p \<and> pr_name c = pr_name p \<and>
                    pr_uid c = pr_uid p \<and> pr_node c = pr_node p) (as_targets a)
      | _ \<Rightarrow> None)"

fun capture_record_pod :: "capture_record \<Rightarrow> pod_ref option" where
  "capture_record_pod (WireFrame f) = pf_pod f"
| "capture_record_pod (TlsEvent e) = te_pod e"
| "capture_record_pod _ = None"

fun validate_capture_record ::
    "capture_record \<Rightarrow> agent_assignment option \<Rightarrow> hub_error + nat" where
  "validate_capture_record NilRecord assignment = Inl RecordRequired"
| "validate_capture_record EmptyRecord assignment = Inl RecordPayloadRequired"
| "validate_capture_record (WireFrame f) assignment =
     (if pf_source f \<noteq> PACKET_SOURCE_WIRE then Inl (InvalidSource (pf_source f))
      else if (case pf_timestamp f of None \<Rightarrow> True | Some ts \<Rightarrow> \<not> ts_valid ts)
      then Inl InvalidTimestamp
      else if pf_original_length f < word_of_nat (length (pf_payload f))
      then Inl PayloadExceedsLength
      else Inr (length (pf_payload f)))"
| "validate_capture_record (TlsEvent e) assignment =
     (case assigned_target assignment (te_pod e) of
        None \<Rightarrow> Inr (length (te_payload e))
      | Some t \<Rightarrow> if tg_tls_mode t = TLSModeOff then Inl TlsEventsDisabled
                  else Inr (length (te_payload e)))"

fun validate_records ::
    "agent_assignment option \<Rightarrow> nat \<Rightarrow> u64 \<Rightarrow> nat \<Rightarrow> capture_record list \<Rightarrow> hub_error option" where
  "validate_records assignment i lastSequence payloadBytes [] = None"
| "validate_records assignment i lastSequence payloadBytes (r # rs) =
     (case validate_capture_record r assignment of
        Inl e \<Rightarrow> Some (InRecord i e)
      | Inr n \<Rightarrow>
          (case get_wire_frame r of
             Some frame \<Rightarrow>
               if pf_sequence frame \<noteq> lastSequence + 1
               then Some (InRecord i (BadSequence (pf_sequence frame) (lastSequence + 1)))
               else if payloadBytes + n > maxBatchPayloadBytes then Some PayloadBytesExceed
               else validate_records assignment (Suc i) (pf_sequence frame) (payloadBytes + n) rs
           | None \<Rightarrow>
               if payloadBytes + n > maxBatchPayloadBytes then Some PayloadBytesExceed
               else validate_records assignment (Suc i) lastSequence (payloadBytes + n) rs))"

definition validate_capture_batch :: "capture_batch \<Rightarrow> session \<Rightarrow> hub_error option" where
  "validate_capture_batch b s =
     (if cb_session_id b = [] \<or> cb_session_id b \<noteq> ss_id s then Some SessionIdMismatch
      else if ss_state s \<notin> {Session_Starting, Session_Running, Session_Stopping}
      then Some (NotAccepting (ss_state s))
      else case map_of (ss_agents s) (cb_node b) of
        None \<Rightarrow> Some (NoAgentForNode (cb_node b))
      | Some rec \<Rightarrow>
          if cb_stream_id b = [] \<or> ar_stream_id rec \<noteq> cb_stream_id b then Some StreamIdMismatch
          else if length (cb_records b) > maxBatchRecords
          then Some (TooManyRecords (length (cb_records b)))
          else validate_records (map_of (ss_assigns s) (cb_node b)) 0 (ar_last_sequence rec) 0
                 (cb_records b))"

definition commit_capture_record ::
    "string \<Rightarrow> string \<Rightarrow> capture_record \<Rightarrow> bool \<Rightarrow> session \<Rightarrow> hub_error + session" where
  "commit_capture_record node streamID r countPacket s =
     (case get_wire_frame r of
        None \<Rightarrow> Inr s
      | Some frame \<Rightarrow>
          (case map_of (ss_agents s) node of
             None \<Rightarrow> Inl AgentIdentityMismatch
           | Some rec \<Rightarrow>
               if ar_stream_id rec \<noteq> streamID then Inl AgentIdentityMismatch
               else if pf_sequence frame \<noteq> ar_last_sequence rec + 1
               then Inl (BadSequence (pf_sequence frame) (ar_last_sequence rec + 1))
               else
                 let s1 = s\<lparr>ss_agents := AList.update node
                        (rec\<lparr>ar_last_sequence := pf_sequence frame\<rparr>) (ss_agents s)\<rparr> in
                 if \<not> countPacket then Inr s1
                 else let n = uint (pf_original_length frame);
                          n1 = (if n = 0 then int (length (pf_payload frame)) else n) in
                   Inr (s1\<lparr>ss_stats := add_packet_locked (pf_pod frame) n1 (ss_stats s1)\<rparr>)))"

definition validate_agent_envelope ::
    "string \<Rightarrow> string \<Rightarrow> string \<Rightarrow> string \<Rightarrow> session \<Rightarrow> hub_error option" where
  "validate_agent_envelope sid node podName streamID s =
     (if sid = [] \<or> sid \<noteq> ss_id s then Some SessionIdMismatch
      else case map_of (ss_agents s) node of
        None \<Rightarrow> Some (NoAgentForNode node)
      | Some rec \<Rightarrow>
          if podName = [] \<or> podName \<noteq> ar_pod_name rec \<or> streamID = [] \<or> streamID \<noteq> ar_stream_id rec
          then Some AgentIdentityMismatch else None)"

definition claim_capture_stream ::
    "string \<Rightarrow> string \<Rightarrow> string \<Rightarrow> session \<Rightarrow> hub_error + session" where
  "claim_capture_stream node podName streamID s =
     (case map_of (ss_agents s) node of
        None \<Rightarrow> Inl AgentIdentityMismatch
      | Some rec \<Rightarrow>
          if podName = [] \<or> podName \<noteq> ar_pod_name rec \<or> streamID = [] \<or> streamID \<noteq> ar_stream_id rec
          then Inl AgentIdentityMismatch
          else if ar_ingest_active rec then Inl CaptureStreamActive
          else Inr (s\<lparr>ss_agents := AList.update node (rec\<lparr>ar_ingest_active := True\<rparr>) (ss_agents s)\<rparr>))"

definition release_capture_stream :: "string \<Rightarrow> string \<Rightarrow> session \<Rightarrow> session" where
  "release_capture_stream node streamID s =
     (case map_of (ss_agents s) node of
        None \<Rightarrow> s
      | Some rec \<Rightarrow>
          if ar_stream_id rec \<noteq> streamID then s
          else s\<lparr>ss_agents := AList.update node (rec\<lparr>ar_ingest_active := False\<rparr>) (ss_agents s)\<rparr>)"

definition active_capture_streams :: "session \<Rightarrow> nat" where
  "active_capture_streams s = length (filter (\<lambda>(_, rec). ar_ingest_active rec) (ss_agents s))"

text \<open>
  \<open>waitCaptureStreamsIdle\<close> polls every 50 ms until no stream is active or the time is up;
  \<open>poll_idle\<close> gives what each poll finds.  It returns the number of the poll it stopped at.
\<close>

definition idle_poll_interval :: int where "idle_poll_interval = 50000000"

fun idle_polls :: "(nat \<Rightarrow> nat) \<Rightarrow> nat \<Rightarrow> nat \<Rightarrow> nat" where
  "idle_polls active k 0 = k"
| "idle_polls active k (Suc n) = (if active k = 0 then k else idle_polls active (Suc k) n)"

definition wait_capture_streams_idle :: "int \<Rightarrow> (nat \<Rightarrow> nat) \<Rightarrow> nat" where
  "wait_capture_streams_idle timeout active =
     idle_polls active 0 (nat (timeout div idle_poll_interval))"

end
