(* ===== verification/Session_Facts.thy ===== *)
theory Session_Facts imports Session begin

text \<open>
  What holds of \<open>Session\<close>: its invariant and its preservation by every critical section
  (\<open>session_op\<close>), the accounting of packets, the agreement of batch validation with the
  commits that follow it, and the absence of lost wake-ups in the two waiting loops.
\<close>

section \<open>Field lemmas\<close>

lemma emit_simps [simp]:
  "ss_proto (emit ev s) = ss_proto s" "ss_packets (emit ev s) = ss_packets s"
  "ss_ctx_done (emit ev s) = ss_ctx_done s" "ss_ensuring (emit ev s) = ss_ensuring s"
  "ss_agents (emit ev s) = ss_agents s" "ss_assigns (emit ev s) = ss_assigns s"
  "ss_state_gen (emit ev s) = ss_state_gen s" "ss_assign_gen (emit ev s) = ss_assign_gen s"
  "ss_assign_chan (emit ev s) = ss_assign_chan s" "ss_stats (emit ev s) = ss_stats s"
  "ss_clock (emit ev s) = ss_clock s"
  by (simp_all add: emit_def Let_def split: option.split)

lemma emit_events:
  "el_events (ss_events (emit ev s)) =
     el_events (ss_events s) @
     (if el_closed (ss_events s) then []
      else [if se_timestamp ev = None then ev\<lparr>se_timestamp := Some (ss_clock s)\<rparr> else ev])"
  "el_closed (ss_events (emit ev s)) = el_closed (ss_events s)"
  by (simp_all add: emit_def append_locked_def Let_def)

lemma el_ok_emit: "el_ok (ss_events s) \<Longrightarrow> el_ok (ss_events (emit ev s))"
  by (auto simp: emit_def Let_def intro: el_ok_append_locked split: option.split)

lemma set_state_simps [simp]:
  "ss_id (set_state st f s) = ss_id s" "ss_state (set_state st f s) = st"
  "ss_packets (set_state st f s) = ss_packets s" "ss_events (set_state st f s) = ss_events s"
  "ss_ctx_done (set_state st f s) = ss_ctx_done s" "ss_ensuring (set_state st f s) = ss_ensuring s"
  "ss_agents (set_state st f s) = ss_agents s" "ss_assigns (set_state st f s) = ss_assigns s"
  "ss_stats (set_state st f s) = ss_stats s" "ss_clock (set_state st f s) = ss_clock s"
  "ss_state_gen (set_state st f s) = Suc (ss_state_gen s)"
  "ss_assign_gen (set_state st f s) = ss_assign_gen s"
  "ss_assign_chan (set_state st f s) = ss_assign_chan s"
  by (simp_all add: set_state_def)

section \<open>The invariant\<close>

definition agent_consistent :: "session \<Rightarrow> string \<Rightarrow> agent_record \<Rightarrow> agent_assignment \<Rightarrow> bool" where
  "agent_consistent s node r a \<longleftrightarrow> ar_node r = node \<and> as_node a = node \<and>
     as_stream_id a = ar_stream_id r \<and> as_session_id a = ss_id s"

definition session_ok :: "session \<Rightarrow> bool" where
  "session_ok s \<longleftrightarrow>
     gomap_ok (ss_agents s) \<and> gomap_ok (ss_assigns s) \<and> gomap_ok (sc_per_pod (ss_stats s)) \<and>
     distinct (ss_ensuring s) \<and> el_ok (ss_events s) \<and> pl_ok (ss_packets s) \<and>
     (\<forall>node. (map_of (ss_agents s) node = None) = (map_of (ss_assigns s) node = None)) \<and>
     (\<forall>node r a. map_of (ss_agents s) node = Some r \<longrightarrow> map_of (ss_assigns s) node = Some a \<longrightarrow>
        agent_consistent s node r a) \<and>
     (\<forall>uid st. map_of (sc_per_pod (ss_stats s)) uid = Some st \<longrightarrow> uid \<noteq> [] \<and> pr_uid (ps_pod st) = uid) \<and>
     (isTerminalState (ss_state s) \<longrightarrow> sn_stopped_at (ss_proto s) \<noteq> None)"

text \<open>
  The critical sections, with the guards their callers establish: an assignment is written
  with the session's id, the node and the stream id of the agent it is for, and replaced only
  where one exists.
\<close>

inductive session_op :: "session \<Rightarrow> session \<Rightarrow> bool" where
  op_set_state: "session_op s (set_state st f s)"
| op_signal_stop: "session_op s (signal_stop s)"
| op_set_nodes: "session_op s (set_nodes ns s)"
| op_emit: "session_op s (emit ev s)"
| op_begin_ensure: "session_op s (snd (begin_ensure node s))"
| op_end_ensure: "session_op s (end_ensure node s)"
| op_record_agent: "as_session_id a = ss_id s \<Longrightarrow> as_node a = node \<Longrightarrow> as_stream_id a = sid \<Longrightarrow>
    session_op s (record_agent node pod sid a s)"
| op_update_assignment: "map_of (ss_assigns s) node = Some old \<Longrightarrow> as_session_id a = ss_id s \<Longrightarrow>
    as_node a = node \<Longrightarrow> as_stream_id a = as_stream_id old \<Longrightarrow>
    session_op s (update_assignment node a s)"
| op_remove_agent: "session_op s (remove_agent node s)"
| op_add_dropped: "session_op s (add_dropped n pod s)"
| op_commit: "commit_capture_record node sid r cnt s = Inr t \<Longrightarrow> session_op s t"
| op_claim: "claim_capture_stream node pod sid s = Inr t \<Longrightarrow> session_op s t"
| op_release: "session_op s (release_capture_stream node sid s)"
| op_packets: "pl_ok l \<Longrightarrow> session_op s (s\<lparr>ss_packets := l\<rparr>)"
| op_events: "el_ok l \<Longrightarrow> session_op s (s\<lparr>ss_events := l\<rparr>)"
| op_tick: "ss_clock s \<le> now \<Longrightarrow> session_op s (s\<lparr>ss_clock := now\<rparr>)"

definition stats_ok :: "session_counters \<Rightarrow> bool" where
  "stats_ok c \<longleftrightarrow> gomap_ok (sc_per_pod c) \<and>
     (\<forall>uid st. map_of (sc_per_pod c) uid = Some st \<longrightarrow> uid \<noteq> [] \<and> pr_uid (ps_pod st) = uid)"

lemma stats_ok_put:
  assumes "stats_ok c" and "pr_uid p \<noteq> []" and "ps_pod st = ps_pod (pod_stat_locked p c)"
  shows "stats_ok (put_stat p st c)"
  using assms by (auto simp: stats_ok_def put_stat_def pod_stat_locked_def split: option.splits)

lemma stats_ok_fields [simp]:
  "stats_ok (c\<lparr>sc_packets := x\<rparr>) = stats_ok c" "stats_ok (c\<lparr>sc_bytes := x\<rparr>) = stats_ok c"
  "stats_ok (c\<lparr>sc_dropped := x\<rparr>) = stats_ok c"
  by (simp_all add: stats_ok_def)

lemma stats_ok_add_packet: "stats_ok c \<Longrightarrow> stats_ok (add_packet_locked pod n c)"
  unfolding add_packet_locked_def Let_def
  by (simp split: option.split add: stats_ok_put)

lemma stats_ok_add_dropped: "stats_ok (ss_stats s) \<Longrightarrow> stats_ok (ss_stats (add_dropped n pod s))"
  unfolding add_dropped_def Let_def
  by (simp split: option.split add: stats_ok_put)

lemma session_ok_stats: "session_ok s \<Longrightarrow> stats_ok (ss_stats s)"
  by (simp add: session_ok_def stats_ok_def)

lemma session_ok_set_stats: "session_ok s \<Longrightarrow> stats_ok c \<Longrightarrow> session_ok (s\<lparr>ss_stats := c\<rparr>)"
  by (auto simp: session_ok_def stats_ok_def agent_consistent_def)

lemma session_ok_set_agent:
  assumes "session_ok s" and "map_of (ss_agents s) node = Some r"
    and "ar_node r' = ar_node r" and "ar_stream_id r' = ar_stream_id r"
  shows "session_ok (s\<lparr>ss_agents := AList.update node r' (ss_agents s)\<rparr>)"
proof -
  have n: "map_of (ss_assigns s) node \<noteq> None"
    using assms(1,2) unfolding session_ok_def by (metis option.distinct(1))
  have "agent_consistent s node r' a" if "map_of (ss_assigns s) node = Some a" for a
    using assms that unfolding session_ok_def agent_consistent_def by simp
  with n show ?thesis
    using assms(1) by (auto simp: session_ok_def agent_consistent_def)
qed

lemma session_ok_commit:
  assumes "session_ok s" and "commit_capture_record node sid r cnt s = Inr t"
  shows "session_ok t"
proof (cases "get_wire_frame r")
  case None
  with assms show ?thesis by (simp add: commit_capture_record_def)
next
  case (Some frame)
  with assms(2) obtain rec where rec: "map_of (ss_agents s) node = Some rec"
    by (auto simp: commit_capture_record_def split: option.splits)
  let ?s1 = "s\<lparr>ss_agents := AList.update node (rec\<lparr>ar_last_sequence := pf_sequence frame\<rparr>) (ss_agents s)\<rparr>"
  have ok: "session_ok ?s1" by (rule session_ok_set_agent [OF assms(1) rec]) simp_all
  from assms(2) Some rec have "t = ?s1 \<or>
      (\<exists>n. t = ?s1\<lparr>ss_stats := add_packet_locked (pf_pod frame) n (ss_stats ?s1)\<rparr>)"
    by (auto simp: commit_capture_record_def Let_def split: if_splits)
  with ok session_ok_set_stats [OF ok stats_ok_add_packet] session_ok_stats [OF ok]
  show ?thesis by blast
qed

lemma session_ok_add_dropped: "session_ok s \<Longrightarrow> session_ok (add_dropped n pod s)"
proof -
  assume ok: "session_ok s"
  have "add_dropped n pod s = s\<lparr>ss_stats := ss_stats (add_dropped n pod s)\<rparr>"
    by (simp add: add_dropped_def Let_def split: option.split)
  with session_ok_set_stats [OF ok stats_ok_add_dropped [OF session_ok_stats [OF ok]]]
  show ?thesis by metis
qed

lemma session_ok_claim:
  assumes "session_ok s" and "claim_capture_stream node pod sid s = Inr t"
  shows "session_ok t"
proof -
  from assms(2) obtain rec where rec: "map_of (ss_agents s) node = Some rec"
    and t: "t = s\<lparr>ss_agents := AList.update node (rec\<lparr>ar_ingest_active := True\<rparr>) (ss_agents s)\<rparr>"
    by (auto simp: claim_capture_stream_def split: option.splits if_splits)
  show ?thesis unfolding t by (rule session_ok_set_agent [OF assms(1) rec]) simp_all
qed

lemma session_ok_release: "session_ok s \<Longrightarrow> session_ok (release_capture_stream node sid s)"
  by (auto simp: release_capture_stream_def split: option.split intro!: session_ok_set_agent)

lemma session_ok_record:
  assumes "session_ok s" "as_session_id a = ss_id s" "as_node a = node" "as_stream_id a = sid"
  shows "session_ok (record_agent node pod sid a s)"
  using assms
  by (auto simp: session_ok_def record_agent_def notify_assign_locked_def agent_consistent_def)

lemma session_ok_update_assignment:
  assumes "session_ok s" "map_of (ss_assigns s) node = Some old" "as_session_id a = ss_id s"
    "as_node a = node" "as_stream_id a = as_stream_id old"
  shows "session_ok (update_assignment node a s)"
proof -
  have "map_of (ss_agents s) node \<noteq> None"
    using assms(1,2) unfolding session_ok_def by (metis option.distinct(1))
  with assms show ?thesis
    by (auto simp: session_ok_def update_assignment_def notify_assign_locked_def agent_consistent_def)
qed

lemma session_ok_remove: "session_ok s \<Longrightarrow> session_ok (remove_agent node s)"
  by (auto simp: session_ok_def remove_agent_def notify_assign_locked_def agent_consistent_def Let_def)

lemma session_op_ok:
  assumes "session_ok s" and "session_op s t"
  shows "session_ok t"
  using assms(2)
proof cases
  case (op_set_state st f)
  then show ?thesis
    using assms(1) by (auto simp: session_ok_def set_state_def agent_consistent_def isTerminalState_def)
next
  case (op_emit ev)
  then show ?thesis
    using assms(1) by (auto simp: session_ok_def agent_consistent_def el_ok_emit)
next
  case (op_record_agent a node sid pod)
  then show ?thesis using session_ok_record [OF assms(1)] by blast
next
  case (op_update_assignment node old a)
  then show ?thesis using session_ok_update_assignment [OF assms(1)] by blast
next
  case (op_remove_agent node)
  then show ?thesis using session_ok_remove [OF assms(1)] by blast
next
  case (op_add_dropped n pod)
  then show ?thesis using session_ok_add_dropped [OF assms(1)] by blast
next
  case (op_commit node sid r cnt)
  then show ?thesis using session_ok_commit [OF assms(1)] by blast
next
  case (op_claim node pod sid)
  then show ?thesis using session_ok_claim [OF assms(1)] by blast
next
  case (op_release node sid)
  then show ?thesis using session_ok_release [OF assms(1)] by blast
qed (use assms(1) in \<open>auto simp: session_ok_def signal_stop_def set_nodes_def begin_ensure_def
    end_ensure_def agent_consistent_def\<close>)

lemma session_ok_new: "session_ok (new_session_state now sid sp)"
  by (simp add: session_ok_def new_session_state_def el_ok_new pl_ok_new isTerminalState_def)

interpretation session_sys: invariant_system "\<lambda>s. \<exists>now sid sp. s = new_session_state now sid sp"
    session_op session_ok
  by unfold_locales (auto intro: session_ok_new session_op_ok)

lemma session_reachable_ok: "session_op\<^sup>*\<^sup>* (new_session_state now sid sp) s \<Longrightarrow> session_ok s"
  using session_sys.reachable_inv by blast

section \<open>Batches\<close>

definition frames :: "capture_record list \<Rightarrow> packet_frame list" where
  "frames rs = List.map_filter get_wire_frame rs"

definition consecutive :: "u64 \<Rightarrow> packet_frame list \<Rightarrow> bool" where
  "consecutive prev fs \<longleftrightarrow> map pf_sequence fs = map (\<lambda>k. prev + 1 + of_nat k) [0..<length fs]"

fun record_payload :: "capture_record \<Rightarrow> string" where
  "record_payload (WireFrame f) = pf_payload f"
| "record_payload (TlsEvent e) = te_payload e"
| "record_payload _ = []"

text \<open>What \<open>validateCaptureRecord\<close> accepts, without its error order.\<close>

definition record_acceptable :: "agent_assignment option \<Rightarrow> capture_record \<Rightarrow> bool" where
  "record_acceptable assignment r =
     (case r of
        WireFrame f \<Rightarrow> pf_source f = PACKET_SOURCE_WIRE \<and>
          (case pf_timestamp f of None \<Rightarrow> False | Some ts \<Rightarrow> ts_valid ts) \<and>
          word_of_nat (length (pf_payload f)) \<le> pf_original_length f
      | TlsEvent e \<Rightarrow>
          (case assigned_target assignment (te_pod e) of
             None \<Rightarrow> True | Some t \<Rightarrow> tg_tls_mode t \<noteq> TLSModeOff)
      | _ \<Rightarrow> False)"

lemma validate_capture_record_iff:
  "(\<exists>n. validate_capture_record r a = Inr n) \<longleftrightarrow> record_acceptable a r"
  "validate_capture_record r a = Inr n \<Longrightarrow> n = length (record_payload r)"
  by (cases r; auto simp: record_acceptable_def not_less split: option.splits if_splits)+

lemma frames_simps [simp]:
  "frames [] = []"
  "frames (r # rs) = (case get_wire_frame r of None \<Rightarrow> frames rs | Some f \<Rightarrow> f # frames rs)"
  by (simp_all add: frames_def map_filter_simps split: option.split)

lemma upt_shift: "map (\<lambda>k. prev + 1 + of_nat k :: u64) [0..<Suc n] =
    (prev + 1) # map (\<lambda>k. prev + 1 + 1 + of_nat k) [0..<n]"
proof -
  have "[0..<Suc n] = 0 # map Suc [0..<n]" by (simp add: map_Suc_upt upt_conv_Cons del: upt_Suc)
  then show ?thesis by (simp add: ac_simps del: upt_Suc)
qed

lemma consecutive_simps [simp]:
  "consecutive prev [] \<longleftrightarrow> True"
  "consecutive prev (f # fs) \<longleftrightarrow> pf_sequence f = prev + 1 \<and> consecutive (pf_sequence f) fs"
proof -
  show "consecutive prev (f # fs) \<longleftrightarrow> pf_sequence f = prev + 1 \<and> consecutive (pf_sequence f) fs"
    unfolding consecutive_def list.size upt_shift add_Suc_right add_0_right list.map by auto
qed (simp add: consecutive_def)

lemma validate_records_iff:
  "bytes \<le> maxBatchPayloadBytes \<Longrightarrow>
   validate_records a i prev bytes rs = None \<longleftrightarrow>
     (\<forall>r \<in> set rs. record_acceptable a r) \<and> consecutive prev (frames rs) \<and>
     bytes + sum_list (map (\<lambda>r. length (record_payload r)) rs) \<le> maxBatchPayloadBytes"
proof (induction rs arbitrary: i prev bytes)
  case (Cons r rs)
  show ?case
  proof (cases "validate_capture_record r a")
    case (Inl e)
    then have "\<not> record_acceptable a r" using validate_capture_record_iff(1) [of r a] by auto
    with Inl show ?thesis by simp
  next
    case (Inr n)
    then have acc: "record_acceptable a r" and n: "n = length (record_payload r)"
      using validate_capture_record_iff by blast+
    show ?thesis
    proof (cases "bytes + n \<le> maxBatchPayloadBytes")
      case True
      then show ?thesis
        using Cons.IH [OF True] acc Inr n
        by (cases "get_wire_frame r") (auto simp: add.assoc)
    next
      case False
      then show ?thesis using Inr n by (auto split: option.split)
    qed
  qed
qed simp

lemma validate_batch_None_iff:
  "validate_capture_batch b s = None \<longleftrightarrow>
     cb_session_id b \<noteq> [] \<and> cb_session_id b = ss_id s \<and>
     ss_state s \<in> {Session_Starting, Session_Running, Session_Stopping} \<and> cb_stream_id b \<noteq> [] \<and>
     length (cb_records b) \<le> 64 \<and>
     sum_list (map (\<lambda>r. length (record_payload r)) (cb_records b)) \<le> 4 * 2 ^ 20 \<and>
     list_all (record_acceptable (map_of (ss_assigns s) (cb_node b))) (cb_records b) \<and>
     (\<exists>rec. map_of (ss_agents s) (cb_node b) = Some rec \<and> ar_stream_id rec = cb_stream_id b \<and>
        consecutive (ar_last_sequence rec) (frames (cb_records b)))"
  using validate_records_iff [of 0 "map_of (ss_assigns s) (cb_node b)" 0 _ "cb_records b"]
  by (auto simp: list_all_iff validate_capture_batch_def maxBatchRecords_def maxBatchPayloadBytes_def
      split: option.split)

text \<open>
  C8. A batch is accepted exactly when: it names this session; the session is starting,
  running or stopping; its node has an agent whose stream id it carries; it has at most 64
  records and at most 4 MiB of payload; every record is well formed; and its wire frames are
  numbered consecutively from the last committed frame.
\<close>

theorem validate_capture_batch_accepts_iff:
  "validate_capture_batch b s = None \<longleftrightarrow>
     cb_session_id b \<noteq> [] \<and> cb_session_id b = ss_id s \<and>
     ss_state s \<in> {Session_Starting, Session_Running, Session_Stopping} \<and> cb_stream_id b \<noteq> [] \<and>
     length (cb_records b) \<le> 64 \<and>
     sum_list (map (\<lambda>r. length (record_payload r)) (cb_records b)) \<le> 4 * 2 ^ 20 \<and>
     list_all (record_acceptable (map_of (ss_assigns s) (cb_node b))) (cb_records b) \<and>
     (\<exists>rec. map_of (ss_agents s) (cb_node b) = Some rec \<and> ar_stream_id rec = cb_stream_id b \<and>
        consecutive (ar_last_sequence rec) (frames (cb_records b)))"
  by (rule validate_batch_None_iff)

text \<open>The commits of a batch, each counted or not as \<open>cnt\<close> says.\<close>

fun commit_all ::
    "string \<Rightarrow> string \<Rightarrow> (capture_record \<Rightarrow> bool) \<Rightarrow> capture_record list \<Rightarrow> session
       \<Rightarrow> hub_error + session" where
  "commit_all node sid cnt [] s = Inr s"
| "commit_all node sid cnt (r # rs) s =
     (case commit_capture_record node sid r (cnt r) s of
        Inl e \<Rightarrow> Inl e
      | Inr t \<Rightarrow> commit_all node sid cnt rs t)"

lemma commit_frame:
  assumes "map_of (ss_agents s) node = Some rec" "ar_stream_id rec = sid"
    "pf_sequence f = ar_last_sequence rec + 1"
  shows "\<exists>t. commit_capture_record node sid (WireFrame f) c s = Inr t \<and>
    map_of (ss_agents t) node = Some (rec\<lparr>ar_last_sequence := pf_sequence f\<rparr>)"
  using assms by (simp add: commit_capture_record_def Let_def)

lemma commit_all_ok:
  "map_of (ss_agents s) node = Some rec \<Longrightarrow> ar_stream_id rec = sid \<Longrightarrow>
   consecutive (ar_last_sequence rec) (frames rs) \<Longrightarrow>
   \<exists>t rec'. commit_all node sid cnt rs s = Inr t \<and> map_of (ss_agents t) node = Some rec' \<and>
     ar_last_sequence rec' = ar_last_sequence rec + of_nat (length (frames rs))"
proof (induction rs arbitrary: s rec)
  case (Cons r rs)
  show ?case
  proof (cases "get_wire_frame r")
    case None
    with Cons show ?thesis by (simp add: commit_capture_record_def)
  next
    case (Some f)
    then have r: "r = WireFrame f" by (simp add: get_wire_frame_Some_iff)
    with Cons.prems have seq: "pf_sequence f = ar_last_sequence rec + 1"
      and rest: "consecutive (pf_sequence f) (frames rs)" by auto
    from commit_frame [OF Cons.prems(1,2) seq, of "cnt r"] obtain t where
      t: "commit_capture_record node sid (WireFrame f) (cnt r) s = Inr t"
      "map_of (ss_agents t) node = Some (rec\<lparr>ar_last_sequence := pf_sequence f\<rparr>)" by blast
    from Cons.IH [OF t(2)] Cons.prems(2) rest obtain u rec' where
      "commit_all node sid cnt rs t = Inr u" "map_of (ss_agents u) node = Some rec'"
      "ar_last_sequence rec' = pf_sequence f + of_nat (length (frames rs))" by auto
    with t r Some seq show ?thesis by (auto simp: ac_simps)
  qed
qed simp

text \<open>
  Validation and commit agree: whatever records the hub decides to count, the commits of
  an accepted batch all succeed, and the agent's last sequence advances by the number of wire
  frames of the batch.
\<close>

theorem accepted_batch_commits:
  assumes "validate_capture_batch b s = None" and "map_of (ss_agents s) (cb_node b) = Some rec"
  shows "\<exists>t rec'. commit_all (cb_node b) (cb_stream_id b) cnt (cb_records b) s = Inr t \<and>
    map_of (ss_agents t) (cb_node b) = Some rec' \<and>
    ar_last_sequence rec' = ar_last_sequence rec + of_nat (length (frames (cb_records b)))"
  using assms by (intro commit_all_ok) (auto simp: validate_batch_None_iff)

section \<open>Accounting\<close>

definition pod_sum :: "(pod_stat \<Rightarrow> u64) \<Rightarrow> session_counters \<Rightarrow> u64" where
  "pod_sum f c = sum_list (map (f \<circ> snd) (sc_per_pod c))"

text \<open>What is counted for the session but for none of its pods.\<close>

definition unattributed :: "session_counters \<Rightarrow> u64 \<times> u64 \<times> u64" where
  "unattributed c = (sc_packets c - pod_sum ps_packets c, sc_bytes c - pod_sum ps_bytes c,
     sc_dropped c - pod_sum ps_dropped c)"

lemma pod_sum_put:
  assumes "f \<lparr>ps_pod = p, ps_packets = 0, ps_bytes = 0, ps_dropped = 0\<rparr> = 0"
  shows "pod_sum f (put_stat p st c) = pod_sum f c + (f st - f (pod_stat_locked p c))"
proof (cases "map_of (sc_per_pod c) (pr_uid p)")
  case None
  then show ?thesis
    using assms by (simp add: pod_sum_def put_stat_def pod_stat_locked_def sum_update_new)
next
  case (Some u)
  then show ?thesis
    by (simp add: pod_sum_def put_stat_def pod_stat_locked_def sum_update_old)
qed

lemma pod_sum_fields [simp]:
  "pod_sum f (c\<lparr>sc_packets := x\<rparr>) = pod_sum f c" "pod_sum f (c\<lparr>sc_bytes := x\<rparr>) = pod_sum f c"
  "pod_sum f (c\<lparr>sc_dropped := x\<rparr>) = pod_sum f c"
  by (simp_all add: pod_sum_def)

lemma put_stat_simps [simp]:
  "sc_packets (put_stat p st c) = sc_packets c" "sc_bytes (put_stat p st c) = sc_bytes c"
  "sc_dropped (put_stat p st c) = sc_dropped c"
  "pod_stat_locked p (put_stat p st c) = st"
  by (simp_all add: put_stat_def pod_stat_locked_def)

lemma pod_stat_locked_fields [simp]:
  "pod_stat_locked p (c\<lparr>sc_packets := x\<rparr>) = pod_stat_locked p c"
  "pod_stat_locked p (c\<lparr>sc_bytes := x\<rparr>) = pod_stat_locked p c"
  "pod_stat_locked p (c\<lparr>sc_dropped := x\<rparr>) = pod_stat_locked p c"
  by (simp_all add: pod_stat_locked_def)

lemma add_packet_effect:
  assumes "pr_uid p \<noteq> []" and "0 \<le> n"
  shows "sc_packets (add_packet_locked (Some p) n c) = sc_packets c + 1 \<and>
    sc_bytes (add_packet_locked (Some p) n c) = sc_bytes c + word_of_int n \<and>
    ps_packets (pod_stat_locked p (add_packet_locked (Some p) n c)) =
      ps_packets (pod_stat_locked p c) + 1 \<and>
    ps_bytes (pod_stat_locked p (add_packet_locked (Some p) n c)) =
      ps_bytes (pod_stat_locked p c) + word_of_int n \<and>
    unattributed (add_packet_locked (Some p) n c) = unattributed c"
  using assms by (simp add: add_packet_locked_def Let_def unattributed_def pod_sum_put)

lemma add_packet_anonymous:
  assumes "pod = None \<or> pr_uid (the pod) = []"
  shows "sc_per_pod (add_packet_locked pod n c) = sc_per_pod c"
  using assms by (cases pod) (simp_all add: add_packet_locked_def Let_def)

text \<open>
  Counting a committed frame charges its wire length (the payload length when the
  original length is zero) once to the session and once to its pod, and to no other pod: the
  difference between the session's totals and the sum over its pods does not change.
\<close>

theorem counted_commit_charges_pod:
  assumes "commit_capture_record node sid (WireFrame f) True s = Inr t"
    and "pf_pod f = Some p" and "pr_uid p \<noteq> []"
  defines "n \<equiv> (if pf_original_length f = 0 then int (length (pf_payload f))
                 else uint (pf_original_length f))"
  shows "sc_packets (ss_stats t) = sc_packets (ss_stats s) + 1 \<and>
    sc_bytes (ss_stats t) = sc_bytes (ss_stats s) + word_of_int n \<and>
    ps_packets (pod_stat_locked p (ss_stats t)) = ps_packets (pod_stat_locked p (ss_stats s)) + 1 \<and>
    ps_bytes (pod_stat_locked p (ss_stats t)) =
      ps_bytes (pod_stat_locked p (ss_stats s)) + word_of_int n \<and>
    unattributed (ss_stats t) = unattributed (ss_stats s)"
proof -
  have "ss_stats t = add_packet_locked (Some p) n (ss_stats s)"
    using assms(1,2)
    by (auto simp: commit_capture_record_def Let_def n_def uint_0_iff split: option.splits if_splits)
  moreover have "0 \<le> n" by (simp add: n_def)
  ultimately show ?thesis using add_packet_effect [OF assms(3)] by simp
qed

text \<open>
  Records the agent reports as dropped are charged to the session but to no pod when the
  hub has no pod for them, as in its only call: the total grows by exactly \<open>n\<close> and every
  per-pod counter keeps its value.
\<close>

theorem dropped_without_pod:
  "sc_dropped (ss_stats (add_dropped n None s)) = sc_dropped (ss_stats s) + n \<and>
   sc_per_pod (ss_stats (add_dropped n None s)) = sc_per_pod (ss_stats s)"
  by (simp add: add_dropped_def Let_def)

section \<open>Claims and identities\<close>

lemma update_same: "map_of m k = Some v \<Longrightarrow> AList.update k v m = m"
  by (induction m) (auto split: if_splits)

lemma update_update: "AList.update k v (AList.update k w m) = AList.update k v m"
  by (induction m) auto

text \<open>
  A capture stream is exclusive: while a claim is held every other claim on the node is
  refused, and releasing it restores the state before the claim.
\<close>

theorem claim_is_exclusive:
  assumes "claim_capture_stream node pod sid s = Inr t"
  shows "(\<exists>e. claim_capture_stream node pod' sid' t = Inl e) \<and>
    release_capture_stream node sid t = s"
proof -
  from assms obtain rec where rec: "map_of (ss_agents s) node = Some rec" "ar_stream_id rec = sid"
    "\<not> ar_ingest_active rec"
    and t: "t = s\<lparr>ss_agents := AList.update node (rec\<lparr>ar_ingest_active := True\<rparr>) (ss_agents s)\<rparr>"
    by (auto simp: claim_capture_stream_def split: option.splits if_splits)
  have same: "rec\<lparr>ar_ingest_active := False\<rparr> = rec" using rec(3) by simp
  have "release_capture_stream node sid t =
      s\<lparr>ss_agents := AList.update node (rec\<lparr>ar_ingest_active := False\<rparr>) (ss_agents s)\<rparr>"
    using rec by (simp add: release_capture_stream_def t update_update)
  then have "release_capture_stream node sid t = s"
    unfolding same by (simp add: update_same [OF rec(1)])
  then show ?thesis by (simp add: claim_capture_stream_def t)
qed

text \<open>
  Only the agent an assignment was made for can read it: \<open>assignmentFor\<close> answers with
  an assignment exactly to the pod and stream id recorded for the node, and the assignment
  carries the session's id, that node and that stream id.
\<close>

theorem assignment_for_own_agent:
  assumes "session_op\<^sup>*\<^sup>* (new_session_state now sid0 sp) s"
    and "assignment_for node pod sid s = Inr a"
  shows "as_node a = node \<and> as_stream_id a = sid \<and> as_session_id a = ss_id s \<and>
    (\<exists>rec. map_of (ss_agents s) node = Some rec \<and> ar_pod_name rec = pod \<and> ar_stream_id rec = sid)"
proof -
  from assms(2) obtain rec where "map_of (ss_agents s) node = Some rec" "ar_pod_name rec = pod"
    "ar_stream_id rec = sid" "map_of (ss_assigns s) node = Some a"
    by (auto simp: assignment_for_def split: if_splits option.splits)
  moreover from this have "agent_consistent s node rec a"
    using session_reachable_ok [OF assms(1)] by (simp add: session_ok_def)
  ultimately show ?thesis by (simp add: agent_consistent_def)
qed

section \<open>Waiting\<close>

lemma generations_mono:
  "session_op s t \<Longrightarrow> ss_state_gen s \<le> ss_state_gen t \<and> ss_assign_chan s \<le> ss_assign_chan t"
  by (erule session_op.cases)
    (auto simp: signal_stop_def set_nodes_def begin_ensure_def end_ensure_def record_agent_def
      update_assignment_def notify_assign_locked_def remove_agent_def Let_def add_dropped_def
      commit_capture_record_def claim_capture_stream_def release_capture_stream_def
      split: option.splits if_splits)

lemma state_changes_notify:
  "session_op s t \<Longrightarrow> ss_state_gen t = ss_state_gen s \<Longrightarrow> ss_state t = ss_state s"
  by (erule session_op.cases)
    (auto simp: signal_stop_def set_nodes_def begin_ensure_def end_ensure_def record_agent_def
      update_assignment_def notify_assign_locked_def remove_agent_def Let_def add_dropped_def
      commit_capture_record_def claim_capture_stream_def release_capture_stream_def
      split: option.splits if_splits)

lemma assign_changes_notify:
  "session_op s t \<Longrightarrow> ss_assign_chan t = ss_assign_chan s \<Longrightarrow>
     ss_assign_gen t = ss_assign_gen s \<and>
     (map_of (ss_agents t) node = None) = (map_of (ss_agents s) node = None)"
  by (erule session_op.cases)
    (auto simp: signal_stop_def set_nodes_def begin_ensure_def end_ensure_def record_agent_def
      update_assignment_def notify_assign_locked_def remove_agent_def Let_def add_dropped_def
      commit_capture_record_def claim_capture_stream_def release_capture_stream_def
      split: option.splits if_splits)

text \<open>
  No wake-up is lost by the two waiting loops.  A caller of \<open>waitUntilRunning\<close> whose
  channel has not been closed since it parked would park again; a caller of
  \<open>waitAssignChange\<close> whose channel has not been closed would park again, unless the session
  is stopping or done, for which \<open>done()\<close> wakes it.
\<close>

theorem session_waiters_not_stuck:
  assumes "session_op\<^sup>*\<^sup>* s t"
  shows "(wait_until_running s = LookPark g \<longrightarrow> ss_state_gen t = g \<longrightarrow>
      wait_until_running t = LookPark g) \<and>
    (wait_assign_change node gen s = LookPark c \<longrightarrow> ss_assign_chan t = c \<longrightarrow>
      wait_assign_change node gen t = LookPark c \<or> ss_ctx_done t \<or>
      ss_state t \<in> {Session_Stopping, Session_Stopped, Session_Failed})"
proof -
  have "ss_state_gen s \<le> ss_state_gen t \<and> ss_assign_chan s \<le> ss_assign_chan t \<and>
      (ss_state_gen t = ss_state_gen s \<longrightarrow> ss_state t = ss_state s) \<and>
      (ss_assign_chan t = ss_assign_chan s \<longrightarrow> ss_assign_gen t = ss_assign_gen s \<and>
        (map_of (ss_agents t) node = None) = (map_of (ss_agents s) node = None))"
    using assms
  proof (induction rule: rtranclp_induct)
    case (step t u)
    then show ?case
      using generations_mono [OF step(2)] state_changes_notify [OF step(2)]
        assign_changes_notify [OF step(2), of node] by auto
  qed simp
  then show ?thesis
    by (auto simp: wait_until_running_def wait_assign_change_def isTerminalState_def
        split: session_phase.splits if_splits)
qed

section \<open>A small session\<close>

definition demo_ref :: pod_ref where
  "demo_ref = \<lparr>pr_namespace = ''prod'', pr_name = ''pay-1'', pr_uid = ''u1'', pr_node = ''n1'',
     pr_container_id = []\<rparr>"

definition demo_assignment :: agent_assignment where
  "demo_assignment = \<lparr>as_session_id = ''s1'', as_node = ''n1'', as_stream_id = ''str1'',
     as_targets = [\<lparr>tg_pod = Some demo_ref, tg_interfaces = [], tg_bpf_filter = [],
       tg_tls_mode = TLSModeAuto, tg_snaplen = 262144\<rparr>]\<rparr>"

definition demo_wire :: "u64 \<Rightarrow> capture_record" where
  "demo_wire q = WireFrame \<lparr>pf_pod = Some demo_ref, pf_source = PACKET_SOURCE_WIRE,
     pf_timestamp = Some \<lparr>ts_time = 0, ts_valid = True\<rparr>, pf_link_type = LINK_TYPE_ETHERNET,
     pf_original_length = 60, pf_payload = ''abc'', pf_sequence = q\<rparr>"

definition demo_capture_spec :: capture_spec where
  "demo_capture_spec = \<lparr>cs_namespace = ''prod'', cs_pod_patterns = [''pay''], cs_bpf_filter = [],
     cs_duration = None, cs_tls_mode = TLSModeAuto, cs_snaplen = 262144\<rparr>"

definition demo_new :: session where
  "demo_new = new_session_state 0 ''s1'' demo_capture_spec"

definition demo_session :: session where
  "demo_session =
     set_state Session_Running None (record_agent ''n1'' ''agent-0'' ''str1'' demo_assignment demo_new)"

definition demo_batch :: capture_batch where
  "demo_batch = \<lparr>cb_session_id = ''s1'', cb_node = ''n1'', cb_stream_id = ''str1'',
     cb_records = [demo_wire 1, demo_wire 2], cb_dropped = 0\<rparr>"

lemma demo_new_simps: "ss_id demo_new = ''s1''" "ss_agents demo_new = []" "ss_assigns demo_new = []"
  by (simp_all add: demo_new_def new_session_state_def)

lemma demo_session_simps:
  "ss_id demo_session = ''s1''" "ss_state demo_session = Session_Running"
  "ss_agents demo_session = [(''n1'', \<lparr>ar_node = ''n1'', ar_pod_name = ''agent-0'',
     ar_stream_id = ''str1'', ar_last_sequence = 0, ar_ingest_active = False\<rparr>)]"
  "ss_assigns demo_session = [(''n1'', demo_assignment)]"
  by (simp_all add: demo_session_def record_agent_def notify_assign_locked_def demo_new_simps)

lemma demo_session_reachable:
  "session_op\<^sup>*\<^sup>* (new_session_state 0 ''s1'' demo_capture_spec) demo_session"
proof -
  have "session_op demo_new (record_agent ''n1'' ''agent-0'' ''str1'' demo_assignment demo_new)"
    by (rule op_record_agent) (simp_all add: demo_new_simps demo_assignment_def)
  moreover have "session_op (record_agent ''n1'' ''agent-0'' ''str1'' demo_assignment demo_new)
      demo_session"
    unfolding demo_session_def by (rule op_set_state)
  ultimately show ?thesis
    unfolding demo_new_def by (rule converse_rtranclp_into_rtranclp [OF _ r_into_rtranclp])
qed

lemma demo_batch_accepted: "validate_capture_batch demo_batch demo_session = None"
  by (simp add: validate_batch_None_iff demo_batch_def demo_session_simps demo_wire_def
      record_acceptable_def)

theorem accepted_batch_commits_witness:
  "\<exists>t rec'. commit_all ''n1'' ''str1'' (\<lambda>r. True) [demo_wire 1, demo_wire 2] demo_session = Inr t \<and>
     map_of (ss_agents t) ''n1'' = Some rec' \<and> ar_last_sequence rec' = 2"
  using accepted_batch_commits [OF demo_batch_accepted, of _ "\<lambda>r. True"]
  by (simp add: demo_batch_def demo_session_simps demo_wire_def)

definition demo_committed :: session where
  "demo_committed = (case commit_capture_record ''n1'' ''str1'' (demo_wire 1) True demo_session of
     Inr t \<Rightarrow> t | Inl _ \<Rightarrow> demo_session)"

lemma demo_committed: "commit_capture_record ''n1'' ''str1'' (demo_wire 1) True demo_session =
    Inr demo_committed"
  by (simp add: demo_committed_def commit_capture_record_def demo_wire_def demo_session_simps Let_def)

theorem counted_commit_charges_pod_witness:
  "sc_packets (ss_stats demo_committed) = sc_packets (ss_stats demo_session) + 1 \<and>
   sc_bytes (ss_stats demo_committed) = sc_bytes (ss_stats demo_session) + 60"
proof -
  have "pr_uid demo_ref \<noteq> []" by (simp add: demo_ref_def)
  from counted_commit_charges_pod [OF demo_committed [unfolded demo_wire_def] _ this]
  show ?thesis by simp
qed

lemma demo_assignment_for: "assignment_for ''n1'' ''agent-0'' ''str1'' demo_session = Inr demo_assignment"
  by (simp add: assignment_for_def demo_session_simps)

theorem assignment_for_own_agent_witness:
  "as_node demo_assignment = ''n1'' \<and> as_session_id demo_assignment = ''s1''"
  using assignment_for_own_agent [OF demo_session_reachable demo_assignment_for]
  by (simp add: demo_session_simps)

definition demo_claimed :: session where
  "demo_claimed = (case claim_capture_stream ''n1'' ''agent-0'' ''str1'' demo_session of
     Inr t \<Rightarrow> t | Inl _ \<Rightarrow> demo_session)"

lemma demo_claimed: "claim_capture_stream ''n1'' ''agent-0'' ''str1'' demo_session = Inr demo_claimed"
  by (simp add: demo_claimed_def claim_capture_stream_def demo_session_simps)

theorem claim_is_exclusive_witness:
  "release_capture_stream ''n1'' ''str1'' demo_claimed = demo_session \<and>
   (\<exists>e. claim_capture_stream ''n1'' ''agent-0'' ''str1'' demo_claimed = Inl e)"
  using claim_is_exclusive [OF demo_claimed, of "''agent-0''" "''str1''"] by simp

theorem session_waiters_not_stuck_witness:
  "wait_until_running (signal_stop demo_new) = LookPark 0"
proof -
  have "session_op\<^sup>*\<^sup>* demo_new (signal_stop demo_new)"
    by (rule r_into_rtranclp) (rule op_signal_stop)
  from session_waiters_not_stuck [OF this, of 0] show ?thesis
    by (simp add: demo_new_def new_session_state_def wait_until_running_def signal_stop_def)
qed


section \<open>The flush grace\<close>

lemma idle_polls_facts:
  "k \<le> idle_polls active k n \<and> idle_polls active k n \<le> k + n \<and>
   (active (idle_polls active k n) = 0 \<or> idle_polls active k n = k + n) \<and>
   list_all (\<lambda>j. active j \<noteq> 0) [k..<idle_polls active k n]"
proof (induction active k n rule: idle_polls.induct)
  case (2 active k n)
  show ?case
  proof (cases "active k = 0")
    case False
    let ?m = "idle_polls active (Suc k) n"
    have "Suc k \<le> ?m" "[k..<?m] = k # [Suc k..<?m]" using 2 False by (simp_all add: upt_conv_Cons)
    then show ?thesis using 2 False by simp
  qed simp
qed simp

text \<open>
  Stopping a session never hangs on an agent: the wait for the capture streams ends at the
  first poll that finds none active, and at the latest after as many polls as fit into its time
  limit, whatever the streams do.
\<close>

theorem flush_grace_ends:
  "let k = wait_capture_streams_idle timeout active; bound = nat (timeout div idle_poll_interval) in
     k \<le> bound \<and> (active k = 0 \<or> k = bound) \<and> list_all (\<lambda>j. active j \<noteq> 0) [0..<k]"
  using idle_polls_facts [of 0 active "nat (timeout div idle_poll_interval)"]
  by (simp add: wait_capture_streams_idle_def Let_def)

end
