(* ===== verification/Agent_Facts.thy ===== *)
theory Agent_Facts imports Agent_Runner Session_Facts begin

text \<open>
  What the agent guarantees by itself: the captures that run after an assignment, the frames a
  capture hands over, their numbering on the stream, and the stage every failure is reported
  with.
\<close>

section \<open>Assignments\<close>

lemma map_of_fold_update:
  "map_of (fold (\<lambda>t m. AList.update (f t) t m) ts m) u =
     (case find (\<lambda>t. f t = u) (rev ts) of Some t \<Rightarrow> Some t | None \<Rightarrow> map_of m u)"
proof (induction ts rule: rev_induct)
  case (snoc t ts)
  then show ?case by (auto simp: update_conv')
qed simp

lemma keys_fold_update:
  "distinct (keys m) \<Longrightarrow> distinct (keys (fold (\<lambda>t m. AList.update (f t) t m) ts m))"
  by (induction ts arbitrary: m) (simp_all add: distinct_update)

lemma map_of_desired: "map_of (desired_targets asg) u = find (\<lambda>t. tgt_uid t = u) (rev (as_targets asg))"
  by (simp add: desired_targets_def map_of_fold_update split: option.split)

lemma desired_entry: "(u, t) \<in> set (desired_targets asg) \<Longrightarrow> tgt_uid t = u"
proof -
  assume a: "(u, t) \<in> set (desired_targets asg)"
  have "distinct (keys (desired_targets asg))" unfolding desired_targets_def by (rule keys_fold_update) simp
  with a have "map_of (desired_targets asg) u = Some t" by simp
  then show "tgt_uid t = u" by (simp add: map_of_desired find_Some_iff) blast
qed

lemma map_of_stop_all: "map_of (fold stop_target us caps) u = (if u \<in> set us then None else map_of caps u)"
  by (induction us arbitrary: caps) (auto simp: stop_target_def delete_conv')

lemma map_of_start_all:
  assumes "distinct (keys ds)" "\<And>u t. (u, t) \<in> set ds \<Longrightarrow> tgt_uid t = u"
  shows "map_of (fold (\<lambda>(uid, t). start_target asg t) ds caps) u =
    (case map_of caps u of Some c \<Rightarrow> Some c | None \<Rightarrow> map_option (Pair asg) (map_of ds u))"
  using assms
proof (induction ds arbitrary: caps)
  case (Cons d ds)
  obtain v t where d: "d = (v, t)" by (cases d)
  with Cons.prems have v: "tgt_uid t = v" "v \<notin> set (keys ds)" by auto
  then have nv: "map_of ds v = None" by (simp add: map_of_eq_None_iff)
  have "map_of (start_target asg t caps) u =
      (case map_of caps u of Some c \<Rightarrow> Some c | None \<Rightarrow> if u = v then Some (asg, t) else None)"
    by (auto simp: start_target_def v update_conv' split: option.split)
  with Cons d nv show ?case by (auto split: option.splits)
qed (simp split: option.split)


section \<open>Frames\<close>

fun is_packet :: "pcap_read \<Rightarrow> bool" where
  "is_packet (ReadPacket d n t) = True"
| "is_packet _ = False"

definition packet_batch ::
    "(int \<Rightarrow> timestamp) \<Rightarrow> link_type \<Rightarrow> pod_ref option \<Rightarrow> agent_assignment \<Rightarrow> pcap_read \<Rightarrow> capture_batch" where
  "packet_batch newts lt pod asg r =
     (empty_batch asg)\<lparr>cb_records := [WireFrame (projr (read_frame newts lt pod r))]\<rparr>"

lemma clone_batch_id [simp]: "clone_batch b = b"
  by (cases b) (simp add: clone_batch_def)

lemma empty_batch_simps [simp]: "cb_records (empty_batch a) = []" "(empty_batch a)\<lparr>cb_records := []\<rparr> = empty_batch a"
  by (simp_all add: empty_batch_def)

lemma capture_loop_step:
  "capture_loop newts lt pod (t # ts) (empty_batch asg) =
     (case ct_read t of
        ReadPacket d n tm \<Rightarrow>
          (case ct_send t of
             Some e \<Rightarrow> ([], LoopReturned (Some (PlainErr e)))
           | None \<Rightarrow> (case capture_loop newts lt pod ts (empty_batch asg) of
               (bs, r) \<Rightarrow> (packet_batch newts lt pod asg (ct_read t) # bs, r)))
      | ReadEOF \<Rightarrow> ([], LoopReturned None)
      | ReadError e \<Rightarrow> ([], LoopReturned (Some (case ct_ctx t of
            Some ce \<Rightarrow> PlainErr ce
          | None \<Rightarrow> CaptureFailure Stage_Capture_Stream Reason_Tool_Failed (GoErr e False)))))"
  by (cases "ct_read t")
    (auto simp: read_frame_def defaultBatchSize_def flush_batch_def packet_batch_def Let_def
      split: option.split)


section \<open>Numbering\<close>

lemma consecutive_append:
  "consecutive p (xs @ ys) \<longleftrightarrow> consecutive p xs \<and> consecutive (p + of_nat (length xs)) ys"
proof (induction xs arbitrary: p)
  case (Cons x xs)
  show ?case by (auto simp: Cons add.assoc)
qed simp

text \<open>A record without its number.\<close>

fun unstamp :: "capture_record \<Rightarrow> capture_record" where
  "unstamp (WireFrame f) = WireFrame (f\<lparr>pf_sequence := 0\<rparr>)"
| "unstamp r = r"

definition unstamp_batch :: "capture_batch \<Rightarrow> capture_batch" where
  "unstamp_batch b = b\<lparr>cb_records := map unstamp (cb_records b)\<rparr>"

lemma stamp_records_facts:
  assumes "stamp_records p rs = (rs', n)"
  shows "consecutive p (frames rs') \<and> n = p + of_nat (length (frames rs')) \<and>
    map unstamp rs' = map unstamp rs"
  using assms
proof (induction p rs arbitrary: rs' n rule: stamp_records.induct)
  case (2 p r rs)
  then show ?case by (cases r) (auto simp: ac_simps split: prod.splits)
qed simp

lemma frames_append: "frames (xs @ ys) = frames xs @ frames ys"
  by (induction xs) (auto split: option.split)

lemma send_batches_numbered:
  assumes "send_batches p bs = (sent, err)"
  shows "consecutive p (frames (concat (map cb_records sent))) \<and>
    (\<exists>n. n \<le> length bs \<and> map unstamp_batch sent = map (unstamp_batch \<circ> fst) (take n bs) \<and>
       (err = None \<longrightarrow> n = length bs))"
  using assms
proof (induction p bs arbitrary: sent err rule: send_batches.induct)
  case (2 p b res bs)
  obtain rs n where st: "stamp_records p (cb_records b) = (rs, n)" by (cases "stamp_records p (cb_records b)")
  note facts = stamp_records_facts [OF st]
  show ?case
  proof (cases res)
    case None
    obtain sent' where sent': "send_batches n bs = (sent', err)" "sent = b\<lparr>cb_records := rs\<rparr> # sent'"
      using 2(2) st None by (auto split: prod.splits)
    from 2(1) [OF st [symmetric] None sent'(1)] obtain m where
      m: "consecutive n (frames (concat (map cb_records sent')))" "m \<le> length bs"
        "map unstamp_batch sent' = map (unstamp_batch \<circ> fst) (take m bs)" "err = None \<longrightarrow> m = length bs" by blast
    have "unstamp_batch (b\<lparr>cb_records := rs\<rparr>) = unstamp_batch b"
      using facts by (simp add: unstamp_batch_def)
    then show ?thesis using m facts sent'
      by (auto simp: consecutive_append frames_append intro!: exI [of _ "Suc m"])
  next
    case (Some e)
    with 2(2) st show ?thesis by (auto intro: exI [of _ 0])
  qed
qed simp

text \<open>
  The frames on an agent's capture stream are numbered 1, 2, 3, ... without a gap across
  batches, and nothing else of a batch changes: the batches sent are the first ones taken from
  the channel, all of them unless a send failed.
\<close>

theorem sent_frames_consecutive:
  assumes "send_batches p bs = (sent, err)"
  shows "consecutive p (frames (concat (map cb_records sent))) \<and>
    (\<exists>n. n \<le> length bs \<and> map unstamp_batch sent = map (unstamp_batch \<circ> fst) (take n bs) \<and>
       (err = None \<longrightarrow> n = length bs))"
  using assms by (rule send_batches_numbered)

section \<open>The TLS worker's pid\<close>

lemma split_proc_path:
  assumes "CHR ''/'' \<notin> set x"
  shows "split_on CHR ''/'' (trim_byte CHR ''/'' (''/proc/'' @ x @ ''/ns/net'')) = [''proc'', x, ''ns'', ''net'']"
proof -
  have t: "trim_byte CHR ''/'' (''/proc/'' @ x @ ''/ns/net'') = ''proc'' @ CHR ''/'' # x @ CHR ''/'' # ''ns/net''"
    by (simp add: trim_byte_def)
  have "split_on CHR ''/'' (''proc'' @ CHR ''/'' # x @ CHR ''/'' # ''ns/net'') = ''proc'' # x # split_on CHR ''/'' ''ns/net''"
    by (subst split_on_append, simp) (subst split_on_append, use assms in simp_all)
  then show ?thesis unfolding t by simp
qed

lemma pid_from_netns_path_inverse:
  assumes "0 < pid" "int64_range pid"
  shows "pid_from_netns_path (netns_path pid) = pid"
proof -
  have s: "show_int pid = show_nat (nat pid)" using assms(1) by (simp add: show_int_def)
  have d: "list_all is_digit (show_nat (nat pid))" by (rule show_nat_digits)
  then have "CHR ''/'' \<notin> set (show_nat (nat pid))" using not_digit_slash by (auto simp: list_all_iff)
  from split_proc_path [OF this] have p: "split_on CHR ''/'' (trim_byte CHR ''/'' (netns_path pid)) =
    [''proc'', show_nat (nat pid), ''ns'', ''net'']" by (simp add: netns_path_def s)
  have "sscanf_d (show_nat (nat pid)) = Some (int (nat pid))"
    by (rule sscanf_d_show_nat) (use assms in \<open>simp add: int64_range_def\<close>)
  then show ?thesis using assms(1) d by (simp add: pid_from_netns_path_def p)
qed

context proc_resolver begin

lemma resolved_pid: "resolve pod = Inr path \<Longrightarrow> 0 < pid_from_netns_path path \<and> path = netns_path (pid_from_netns_path path)"
  using resolve_path [of pod path] pid_from_netns_path_inverse by auto

end

text \<open>
  The TLS worker is attached to the process the resolver found: a namespace path the CRI
  resolver returned, read back, gives a positive pid and is the path written for that pid.
\<close>

theorem tls_pid_is_resolved_pid:
  assumes "cri_resolve R pod = Inr path"
  shows "0 < pid_from_netns_path path \<and> path = netns_path (pid_from_netns_path path)"
  by (rule cri_resolver.resolved_pid [OF assms])

theorem tls_pid_is_resolved_pid_witness: "0 < pid_from_netns_path (netns_path 42)"
  using tls_pid_is_resolved_pid [OF demo_cri_resolve] by (rule conjunct1)

section \<open>Failures\<close>

lemma capture_loop_failure:
  assumes "capture_loop newts lt pod turns (empty_batch asg) = (bs, LoopReturned (Some e))"
    and "list_all (\<lambda>t. ct_ctx t = None \<and> ct_send t = None) turns"
  shows "te_failure e = Some (Stage_Capture_Stream, Reason_Tool_Failed)"
  using assms
proof (induction turns arbitrary: bs)
  case (Cons t ts)
  from Cons.prems(2) have t: "ct_ctx t = None" "ct_send t = None" by auto
  show ?case
  proof (cases "ct_read t")
    case (ReadPacket d n tm)
    with Cons.prems(1) t obtain bs' where
      "capture_loop newts lt pod ts (empty_batch asg) = (bs', LoopReturned (Some e))"
      unfolding capture_loop_step by (auto split: prod.splits)
    with Cons show ?thesis by auto
  qed (use Cons.prems(1) t in \<open>unfold capture_loop_step, auto\<close>)
qed simp

lemma deferred_close_failure:
  assumes "deferred_close None closeErr ret = Some e"
    and "ret = None \<or> (\<exists>r. ret = Some r \<and> te_failure r = Some f)" "f = (Stage_Capture_Stream, Reason_Tool_Failed) \<or> f = (Stage_Capture_Start, Reason_Tool_Failed)"
  shows "te_failure e \<in> {Some (Stage_Capture_Stream, Reason_Tool_Failed), Some (Stage_Capture_Start, Reason_Tool_Failed)}"
  using assms by (auto simp: deferred_close_def split: option.splits)


section \<open>Witnesses\<close>

definition demo_newts :: "int \<Rightarrow> timestamp" where
  "demo_newts t = \<lparr>ts_time = t, ts_valid = True\<rparr>"

definition demo_turns :: "capture_turn list" where
  "demo_turns = [\<lparr>ct_read = ReadPacket ''abc'' 3 5, ct_ctx = None, ct_send = None\<rparr>,
     \<lparr>ct_read = ReadPacket ''de'' 9 6, ct_ctx = None, ct_send = None\<rparr>,
     \<lparr>ct_read = ReadEOF, ct_ctx = None, ct_send = None\<rparr>]"

definition demo_capture_batch :: "pcap_read \<Rightarrow> capture_batch" where
  "demo_capture_batch = packet_batch demo_newts LINK_TYPE_ETHERNET (Some demo_ref) demo_assignment"

lemma demo_loop:
  "capture_loop demo_newts LINK_TYPE_ETHERNET (Some demo_ref) demo_turns (empty_batch demo_assignment) =
     ([demo_capture_batch (ReadPacket ''abc'' 3 5), demo_capture_batch (ReadPacket ''de'' 9 6)], LoopReturned None)"
  by (simp add: demo_turns_def capture_loop_step demo_capture_batch_def del: capture_loop.simps(2))


definition demo_sent :: "capture_batch list" where
  "demo_sent = fst (send_batches 0 [(demo_capture_batch (ReadPacket ''abc'' 3 5), None),
     (demo_capture_batch (ReadPacket ''de'' 9 6), None)])"

lemma demo_send: "send_batches 0 [(demo_capture_batch (ReadPacket ''abc'' 3 5), None),
     (demo_capture_batch (ReadPacket ''de'' 9 6), None)] = (demo_sent, None)"
  by (simp add: demo_sent_def demo_capture_batch_def packet_batch_def split: prod.split)

theorem sent_frames_consecutive_witness:
  "consecutive 0 (frames (concat (map cb_records demo_sent)))"
  using sent_frames_consecutive [OF demo_send] by (rule conjunct1)

definition demo_world :: capture_world where
  "demo_world = \<lparr>cw_resolve = (\<lambda>_. Inr (netns_path 42)), cw_start = (\<lambda>_ _ _ _. None),
     cw_header = Inl (GoErr ''EOF'' False), cw_turns = [], cw_ctx_end = None,
     cw_close = Some (GoErr ''tcpdump exit: exit status 1'' False), cw_has_tls = False,
     cw_newts = demo_newts\<rparr>"


end
