(* ===== verification/Agent_Run.thy ===== *)
theory Agent_Run imports Agent_Facts begin

text \<open>
  \<open>Runner.Run\<close> of \<open>pkg/agent/runner.go\<close> once the stream is open: the goroutines and what they
  share.  The shared state is \<open>run_state\<close>: the channel of batches, the map of running captures
  (from the pod UID to an entry of the list of captures ever started), the captured errors, the
  contexts.  Each goroutine has a place in it: \<open>r_main\<close> for \<open>Run\<close> itself, \<open>r_watch\<close> for the
  goroutine that receives assignments, \<open>r_sender\<close> for \<open>sendBatches\<close>, and in each capture
  \<open>ci_wire\<close> for \<open>captureTarget\<close> and \<open>ci_tls\<close> for its \<open>runTLS\<close>.

  \<open>run_step\<close> is one atomic action of one of them, and it is \<open>None\<close> where that action cannot
  happen now: an interleaving is a list of events.  What a goroutine reads from outside (a
  frame, an assignment, the outcome of a send) comes with the event.
\<close>

section \<open>The goroutines\<close>

text \<open>A goroutine that puts batches on the channel: reading, inside \<open>sendBatch\<close>, or returned.\<close>

datatype batch_source = Reading | Offering capture_batch | Ended

record capture_inst =
  ci_asg :: agent_assignment
  ci_target :: target
  ci_cancelled :: bool
  ci_wire :: batch_source
  ci_tls :: batch_source
  ci_err :: "target_error option"
  ci_done :: bool

datatype main_pc =
    MSelect
  | MCollect
  | MWait "nat list"
  | MClose
  | MJoin
  | MReturned "run_error option"

datatype watch_pc =
    WRecv
  | WStop "string list" agent_assignment "target list"
  | WJoin nat "string list" agent_assignment "target list"
  | WStart agent_assignment "target list"
  | WEnded

datatype sender_pc = SLoop u64 "go_err option" | SDone "go_err option"

record run_state =
  r_insts :: "capture_inst list"
  r_captures :: "(string, nat) gomap"
  r_chan :: "capture_batch list"
  r_closed :: bool
  r_ctx :: "go_err option"
  r_capture_cancelled :: bool
  r_errs :: "run_error list"
  r_reports :: "status_report list"
  r_sent :: "capture_batch list"
  r_main :: main_pc
  r_watch :: watch_pc
  r_sender :: sender_pc
  r_panicked :: bool

record run_env =
  re_cfg :: config
  re_has_tls :: bool

section \<open>What they do to the shared state\<close>

definition batch_chan_cap :: nat where "batch_chan_cap = 8"

datatype source_id = WireSource | TlsSource

fun source_of :: "source_id \<Rightarrow> capture_inst \<Rightarrow> batch_source" where
  "source_of WireSource c = ci_wire c"
| "source_of TlsSource c = ci_tls c"

fun set_source :: "source_id \<Rightarrow> batch_source \<Rightarrow> capture_inst \<Rightarrow> capture_inst" where
  "set_source WireSource v c = c\<lparr>ci_wire := v\<rparr>"
| "set_source TlsSource v c = c\<lparr>ci_tls := v\<rparr>"

definition upd_inst :: "nat \<Rightarrow> (capture_inst \<Rightarrow> capture_inst) \<Rightarrow> run_state \<Rightarrow> run_state" where
  "upd_inst i f s = s\<lparr>r_insts := (r_insts s)[i := f (r_insts s ! i)]\<rparr>"

definition cancel_inst :: "nat \<Rightarrow> run_state \<Rightarrow> run_state" where
  "cancel_inst i s = upd_inst i (\<lambda>c. c\<lparr>ci_cancelled := True\<rparr>) s"

text \<open>The context of a capture: its own, the captures', the run's.\<close>

definition inst_cancelled :: "run_state \<Rightarrow> nat \<Rightarrow> bool" where
  "inst_cancelled s i = (ci_cancelled (r_insts s ! i) \<or> r_capture_cancelled s \<or> r_ctx s \<noteq> None)"

definition fresh_inst :: "run_env \<Rightarrow> agent_assignment \<Rightarrow> target \<Rightarrow> capture_inst" where
  "fresh_inst env asg t = \<lparr>ci_asg = asg, ci_target = t, ci_cancelled = False, ci_wire = Reading,
     ci_tls = (if re_has_tls env \<and> wants_attach (tg_tls_mode t) then Reading else Ended),
     ci_err = None, ci_done = False\<rparr>"

text \<open>\<open>startTarget\<close>: a pod that is captured already is left alone.\<close>

definition start_inst :: "run_env \<Rightarrow> agent_assignment \<Rightarrow> target \<Rightarrow> run_state \<Rightarrow> run_state" where
  "start_inst env asg t s =
     (case map_of (r_captures s) (tgt_uid t) of
        Some _ \<Rightarrow> s
      | None \<Rightarrow> s\<lparr>r_insts := r_insts s @ [fresh_inst env asg t],
                 r_captures := AList.update (tgt_uid t) (length (r_insts s)) (r_captures s)\<rparr>)"

text \<open>The end of the goroutine of \<open>startTarget\<close>: the error is kept and reported, \<open>done\<close> is closed.\<close>

definition target_run_error :: "target \<Rightarrow> target_error \<Rightarrow> run_error" where
  "target_run_error t e =
     RunTarget (pr_namespace (deref_pod (tg_pod t))) (pr_name (deref_pod (tg_pod t))) e"

definition finish_inst :: "run_env \<Rightarrow> nat \<Rightarrow> run_state \<Rightarrow> run_state" where
  "finish_inst env i s =
     (let c = r_insts s ! i in
      case capture_ended (r_ctx s \<noteq> None) (ci_asg c) (cf_agent_pod (re_cfg env)) (ci_target c) (ci_err c) of
        (errs, reports) \<Rightarrow>
          (upd_inst i (\<lambda>c. c\<lparr>ci_done := True\<rparr>) s)
            \<lparr>r_errs := r_errs s @ map (target_run_error (ci_target c)) errs,
             r_reports := r_reports s @ reports\<rparr>)"

section \<open>The actions\<close>

datatype run_event =
    EvRead nat source_id capture_batch
  | EvPut nat source_id capture_batch
  | EvGiveUp nat source_id go_err
  | EvPutClosed nat source_id
  | EvWireEnd nat "target_error option"
  | EvTlsEnd nat
  | EvDone nat
  | EvSend "go_err option"
  | EvSenderEnd
  | EvUpdate "agent_assignment option"
  | EvWatchStep
  | EvWatchErr
  | EvCtxDone go_err
  | EvSelect
  | EvCollect
  | EvWait
  | EvClose
  | EvReturn "go_err option"

definition inst_at :: "run_state \<Rightarrow> nat \<Rightarrow> capture_inst option" where
  "inst_at s i = (if i < length (r_insts s) then Some (r_insts s ! i) else None)"

text \<open>
  A capture's own actions.  \<open>EvPut\<close> is the send case of \<open>sendBatch\<close>'s \<open>select\<close>, \<open>EvGiveUp\<close> its
  \<open>ctx.Done\<close> case; on a closed channel the send case is always ready, and it panics.
\<close>

fun capture_step :: "run_env \<Rightarrow> run_event \<Rightarrow> run_state \<Rightarrow> run_state option" where
  "capture_step env (EvRead i src b) s =
     (case inst_at s i of
        Some c \<Rightarrow> if source_of src c = Reading then Some (upd_inst i (set_source src (Offering b)) s) else None
      | None \<Rightarrow> None)"
| "capture_step env (EvPut i src b) s =
     (case inst_at s i of
        Some c \<Rightarrow>
          if source_of src c = Offering b \<and> \<not> r_closed s \<and> length (r_chan s) < batch_chan_cap
          then Some ((upd_inst i (set_source src Reading) s)\<lparr>r_chan := r_chan s @ [b]\<rparr>) else None
      | None \<Rightarrow> None)"
| "capture_step env (EvPutClosed i src) s =
     (case inst_at s i of
        Some c \<Rightarrow>
          (case source_of src c of
             Offering b \<Rightarrow> if r_closed s then Some (s\<lparr>r_panicked := True\<rparr>) else None
           | _ \<Rightarrow> None)
      | None \<Rightarrow> None)"
| "capture_step env (EvGiveUp i src e) s =
     (case inst_at s i of
        Some c \<Rightarrow>
          (case source_of src c of
             Offering b \<Rightarrow>
               if inst_cancelled s i
               then Some (upd_inst i (\<lambda>c. case src of
                      WireSource \<Rightarrow> c\<lparr>ci_wire := Ended, ci_err := Some (PlainErr e)\<rparr>
                    | TlsSource \<Rightarrow> c\<lparr>ci_tls := Ended\<rparr>) s)
               else None
           | _ \<Rightarrow> None)
      | None \<Rightarrow> None)"
| "capture_step env (EvWireEnd i err) s =
     (case inst_at s i of
        Some c \<Rightarrow> if ci_wire c = Reading
                  then Some (upd_inst i (\<lambda>c. c\<lparr>ci_wire := Ended, ci_err := err\<rparr>) s) else None
      | None \<Rightarrow> None)"
| "capture_step env (EvTlsEnd i) s =
     (case inst_at s i of
        Some c \<Rightarrow> if ci_tls c = Reading then Some (upd_inst i (\<lambda>c. c\<lparr>ci_tls := Ended\<rparr>) s) else None
      | None \<Rightarrow> None)"
| "capture_step env (EvDone i) s =
     (case inst_at s i of
        Some c \<Rightarrow> if ci_wire c = Ended \<and> ci_tls c = Ended \<and> \<not> ci_done c
                  then Some (finish_inst env i s) else None
      | None \<Rightarrow> None)"
| "capture_step env _ s = None"

text \<open>\<open>sendBatches\<close>: one batch taken from the channel, or the end of a closed and empty channel.\<close>

fun sender_step :: "run_event \<Rightarrow> run_state \<Rightarrow> run_state option" where
  "sender_step (EvSend res) s =
     (case (r_chan s, r_sender s) of
        (b # bs, SLoop q None) \<Rightarrow>
          (case stamp_records q (cb_records b) of
             (rs, n) \<Rightarrow>
               (case res of
                  None \<Rightarrow> Some (s\<lparr>r_chan := bs, r_sent := r_sent s @ [b\<lparr>cb_records := rs\<rparr>], r_sender := SLoop n None\<rparr>)
                | Some e \<Rightarrow> Some (s\<lparr>r_chan := bs, r_capture_cancelled := True, r_sender := SLoop n (Some e)\<rparr>)))
      | (b # bs, SLoop q (Some e)) \<Rightarrow> (if res = None then Some (s\<lparr>r_chan := bs\<rparr>) else None)
      | _ \<Rightarrow> None)"
| "sender_step EvSenderEnd s =
     (case r_sender s of
        SLoop q err \<Rightarrow> if r_chan s = [] \<and> r_closed s then Some (s\<lparr>r_sender := SDone err\<rparr>) else None
      | SDone err \<Rightarrow> None)"
| "sender_step _ s = None"

text \<open>The goroutine of the watch: \<open>apply\<close> on each assignment received, action by action.\<close>

definition begin_update :: "run_env \<Rightarrow> agent_assignment option \<Rightarrow> run_state \<Rightarrow> run_state" where
  "begin_update env next s =
     (case (next, validate_assignment (re_cfg env) next) of
        (Some asg, None) \<Rightarrow>
          (let desired = desired_targets asg;
               removed = filter (\<lambda>uid. map_of desired uid = None) (keys (r_captures s)) in
           s\<lparr>r_watch := WStop removed asg (map snd desired)\<rparr>)
      | _ \<Rightarrow> s)"

fun watch_step :: "run_env \<Rightarrow> run_event \<Rightarrow> run_state \<Rightarrow> run_state option" where
  "watch_step env (EvUpdate next) s = (if r_watch s = WRecv then Some (begin_update env next s) else None)"
| "watch_step env EvWatchErr s = (if r_watch s = WRecv then Some (s\<lparr>r_watch := WEnded\<rparr>) else None)"
| "watch_step env EvWatchStep s =
     (case r_watch s of
        WStop (uid # us) asg ds \<Rightarrow>
          (case map_of (r_captures s) uid of
             None \<Rightarrow> Some (s\<lparr>r_watch := WStop us asg ds\<rparr>)
           | Some i \<Rightarrow> Some ((cancel_inst i s)
               \<lparr>r_captures := AList.delete uid (r_captures s), r_watch := WJoin i us asg ds\<rparr>))
      | WStop [] asg ds \<Rightarrow> Some (s\<lparr>r_watch := WStart asg ds\<rparr>)
      | WJoin i us asg ds \<Rightarrow>
          (if ci_done (r_insts s ! i) then Some (s\<lparr>r_watch := WStop us asg ds\<rparr>) else None)
      | WStart asg (t # ds) \<Rightarrow> Some ((start_inst env asg t s)\<lparr>r_watch := WStart asg ds\<rparr>)
      | WStart asg [] \<Rightarrow> Some (s\<lparr>r_watch := WRecv\<rparr>)
      | _ \<Rightarrow> None)"
| "watch_step env _ s = None"

text \<open>
  \<open>Run\<close> itself: the \<open>select\<close>, the captures still in the map, each cancelled and waited for,
  the close of the channel, the sender's end, the result.
\<close>

definition stopping :: "run_state \<Rightarrow> bool" where
  "stopping s = (r_ctx s \<noteq> None \<or> r_watch s = WEnded \<or> r_capture_cancelled s)"

definition main_wait :: "nat list \<Rightarrow> run_state \<Rightarrow> run_state" where
  "main_wait is s =
     (case is of
        [] \<Rightarrow> s\<lparr>r_main := MClose\<rparr>
      | i # _ \<Rightarrow> (cancel_inst i s)\<lparr>r_main := MWait is\<rparr>)"

fun main_step :: "run_event \<Rightarrow> run_state \<Rightarrow> run_state option" where
  "main_step EvSelect s =
     (if r_main s = MSelect \<and> stopping s
      then Some (s\<lparr>r_capture_cancelled := True, r_main := MCollect\<rparr>) else None)"
| "main_step EvCollect s =
     (if r_main s = MCollect then Some (main_wait (map snd (r_captures s)) s) else None)"
| "main_step EvWait s =
     (case r_main s of
        MWait (i # is) \<Rightarrow> if ci_done (r_insts s ! i) then Some (main_wait is s) else None
      | _ \<Rightarrow> None)"
| "main_step EvClose s =
     (if r_main s = MClose then Some (s\<lparr>r_closed := True, r_main := MJoin\<rparr>) else None)"
| "main_step (EvReturn closeErr) s =
     (case (r_main s, r_sender s) of
        (MJoin, SDone senderErr) \<Rightarrow>
          Some (s\<lparr>r_main := MReturned (run_finish (r_ctx s) senderErr closeErr (r_errs s))\<rparr>)
      | _ \<Rightarrow> None)"
| "main_step _ s = None"

fun run_event_step :: "run_env \<Rightarrow> run_event \<Rightarrow> run_state \<Rightarrow> run_state option" where
  "run_event_step env (EvCtxDone e) s = (if r_ctx s = None then Some (s\<lparr>r_ctx := Some e\<rparr>) else None)"
| "run_event_step env e s =
     (case capture_step env e s of Some t \<Rightarrow> Some t | None \<Rightarrow>
     (case sender_step e s of Some t \<Rightarrow> Some t | None \<Rightarrow>
     (case watch_step env e s of Some t \<Rightarrow> Some t | None \<Rightarrow> main_step e s)))"

text \<open>A panic ends the process.\<close>

definition run_step :: "run_env \<Rightarrow> run_event \<Rightarrow> run_state \<Rightarrow> run_state option" where
  "run_step env e s = (if r_panicked s then None else run_event_step env e s)"

fun run_events :: "run_env \<Rightarrow> run_event list \<Rightarrow> run_state \<Rightarrow> run_state option" where
  "run_events env [] s = Some s"
| "run_events env (e # es) s = (case run_step env e s of None \<Rightarrow> None | Some t \<Rightarrow> run_events env es t)"

text \<open>
  The state when the watch goroutine is started: the first assignment has been applied, to no
  captures.
\<close>

definition run_empty :: run_state where
  "run_empty = \<lparr>r_insts = [], r_captures = [], r_chan = [], r_closed = False, r_ctx = None,
     r_capture_cancelled = False, r_errs = [], r_reports = [], r_sent = [], r_main = MSelect,
     r_watch = WRecv, r_sender = SLoop 0 None, r_panicked = False\<rparr>"

definition run_boot :: "run_env \<Rightarrow> agent_assignment \<Rightarrow> run_state" where
  "run_boot env asg =
     (if validate_assignment (re_cfg env) (Some asg) = None
      then fold (\<lambda>(uid, t). start_inst env asg t) (desired_targets asg) run_empty
      else run_empty)"

end
