(* ===== verification/Agent_Run_Facts.thy ===== *)
theory Agent_Run_Facts imports Agent_Run begin

text \<open>
  What the goroutines of \<open>Run\<close> guarantee together, in every interleaving: the state stays well
  formed, the assignments are applied in the order they arrive, and every batch a capture put
  on the channel is sent in that order.
\<close>

section \<open>Runs\<close>

lemma run_events_append:
  "run_events env (xs @ ys) s = (case run_events env xs s of None \<Rightarrow> None | Some t \<Rightarrow> run_events env ys t)"
  by (induction xs arbitrary: s) (simp_all split: option.split)

lemma run_events_snoc:
  "run_events env (xs @ [e]) s = Some u \<longleftrightarrow> (\<exists>t. run_events env xs s = Some t \<and> run_step env e t = Some u)"
  by (simp add: run_events_append split: option.split)

text \<open>A run as a sequence of steps, whatever the events.\<close>

inductive run_next :: "run_env \<Rightarrow> run_state \<Rightarrow> run_state \<Rightarrow> bool" for env where
  run_next: "run_step env e s = Some t \<Longrightarrow> run_next env s t"

inductive_cases run_nextE [elim!]: "run_next env s t"

lemma run_events_steps: "run_events env evs s = Some t \<Longrightarrow> (run_next env)\<^sup>*\<^sup>* s t"
proof (induction evs arbitrary: s)
  case (Cons e es)
  then obtain u where u: "run_step env e s = Some u" "run_events env es u = Some t"
    by (auto split: option.splits)
  show ?case by (rule converse_rtranclp_into_rtranclp [OF run_next [OF u(1)] Cons.IH [OF u(2)]])
qed simp

lemma run_step_not_panicked: "run_step env e s = Some t \<Longrightarrow> \<not> r_panicked s"
  by (simp add: run_step_def split: if_splits)

lemma inst_at_Some: "inst_at s i = Some c \<longleftrightarrow> i < length (r_insts s) \<and> c = r_insts s ! i"
  by (auto simp: inst_at_def)

text \<open>The actions one by one: when each can happen and the state it leaves.\<close>

lemma run_step_cases [consumes 1]:
  assumes "run_step env e s = Some t"
  obtains
    (ctx) er where "e = EvCtxDone er" "r_ctx s = None" "t = s\<lparr>r_ctx := Some er\<rparr>"
  | (read) i src b where "e = EvRead i src b" "i < length (r_insts s)" "source_of src (r_insts s ! i) = Reading"
      "t = upd_inst i (set_source src (Offering b)) s"
  | (put) i src b where "e = EvPut i src b" "i < length (r_insts s)" "source_of src (r_insts s ! i) = Offering b"
      "\<not> r_closed s" "length (r_chan s) < batch_chan_cap"
      "t = (upd_inst i (set_source src Reading) s)\<lparr>r_chan := r_chan s @ [b]\<rparr>"
  | (panic) i src b where "e = EvPutClosed i src" "i < length (r_insts s)"
      "source_of src (r_insts s ! i) = Offering b" "r_closed s" "t = s\<lparr>r_panicked := True\<rparr>"
  | (give_up_wire) i b er where "e = EvGiveUp i WireSource er" "i < length (r_insts s)"
      "ci_wire (r_insts s ! i) = Offering b" "inst_cancelled s i"
      "t = upd_inst i (\<lambda>c. c\<lparr>ci_wire := Ended, ci_err := Some (PlainErr er)\<rparr>) s"
  | (give_up_tls) i b er where "e = EvGiveUp i TlsSource er" "i < length (r_insts s)"
      "ci_tls (r_insts s ! i) = Offering b" "inst_cancelled s i"
      "t = upd_inst i (\<lambda>c. c\<lparr>ci_tls := Ended\<rparr>) s"
  | (wire_end) i err where "e = EvWireEnd i err" "i < length (r_insts s)" "ci_wire (r_insts s ! i) = Reading"
      "t = upd_inst i (\<lambda>c. c\<lparr>ci_wire := Ended, ci_err := err\<rparr>) s"
  | (tls_end) i where "e = EvTlsEnd i" "i < length (r_insts s)" "ci_tls (r_insts s ! i) = Reading"
      "t = upd_inst i (\<lambda>c. c\<lparr>ci_tls := Ended\<rparr>) s"
  | (finish) i where "e = EvDone i" "i < length (r_insts s)" "ci_wire (r_insts s ! i) = Ended"
      "ci_tls (r_insts s ! i) = Ended" "\<not> ci_done (r_insts s ! i)" "t = finish_inst env i s"
  | (send) b bs q rs n where "e = EvSend None" "r_chan s = b # bs" "r_sender s = SLoop q None"
      "stamp_records q (cb_records b) = (rs, n)"
      "t = s\<lparr>r_chan := bs, r_sent := r_sent s @ [b\<lparr>cb_records := rs\<rparr>], r_sender := SLoop n None\<rparr>"
  | (send_failed) b bs q rs n er where "e = EvSend (Some er)" "r_chan s = b # bs" "r_sender s = SLoop q None"
      "stamp_records q (cb_records b) = (rs, n)"
      "t = s\<lparr>r_chan := bs, r_capture_cancelled := True, r_sender := SLoop n (Some er)\<rparr>"
  | (drain) b bs q er where "e = EvSend None" "r_chan s = b # bs" "r_sender s = SLoop q (Some er)"
      "t = s\<lparr>r_chan := bs\<rparr>"
  | (sender_end) q err where "e = EvSenderEnd" "r_sender s = SLoop q err" "r_chan s = []" "r_closed s"
      "t = s\<lparr>r_sender := SDone err\<rparr>"
  | (update) nxt where "e = EvUpdate nxt" "r_watch s = WRecv" "t = begin_update env nxt s"
  | (watch_err) "e = EvWatchErr" "r_watch s = WRecv" "t = s\<lparr>r_watch := WEnded\<rparr>"
  | (watch_stop_none) u us asg ds where "e = EvWatchStep" "r_watch s = WStop (u # us) asg ds"
      "map_of (r_captures s) u = None" "t = s\<lparr>r_watch := WStop us asg ds\<rparr>"
  | (watch_stop) u us asg ds i where "e = EvWatchStep" "r_watch s = WStop (u # us) asg ds"
      "map_of (r_captures s) u = Some i"
      "t = (cancel_inst i s)\<lparr>r_captures := AList.delete u (r_captures s), r_watch := WJoin i us asg ds\<rparr>"
  | (watch_stopped) asg ds where "e = EvWatchStep" "r_watch s = WStop [] asg ds" "t = s\<lparr>r_watch := WStart asg ds\<rparr>"
  | (watch_joined) i us asg ds where "e = EvWatchStep" "r_watch s = WJoin i us asg ds" "ci_done (r_insts s ! i)"
      "t = s\<lparr>r_watch := WStop us asg ds\<rparr>"
  | (watch_start) tg asg ds where "e = EvWatchStep" "r_watch s = WStart asg (tg # ds)"
      "t = (start_inst env asg tg s)\<lparr>r_watch := WStart asg ds\<rparr>"
  | (watch_started) asg where "e = EvWatchStep" "r_watch s = WStart asg []" "t = s\<lparr>r_watch := WRecv\<rparr>"
  | (select) "e = EvSelect" "r_main s = MSelect" "stopping s"
      "t = s\<lparr>r_capture_cancelled := True, r_main := MCollect\<rparr>"
  | (collect) "e = EvCollect" "r_main s = MCollect" "t = main_wait (map snd (r_captures s)) s"
  | (wait) i "is" where "e = EvWait" "r_main s = MWait (i # is)" "ci_done (r_insts s ! i)" "t = main_wait is s"
  | (close) "e = EvClose" "r_main s = MClose" "t = s\<lparr>r_closed := True, r_main := MJoin\<rparr>"
  | (return) closeErr senderErr where "e = EvReturn closeErr" "r_main s = MJoin" "r_sender s = SDone senderErr"
      "t = s\<lparr>r_main := MReturned (run_finish (r_ctx s) senderErr closeErr (r_errs s))\<rparr>"
proof -
  have st: "run_event_step env e s = Some t"
    using assms by (simp add: run_step_def split: if_splits)
  show thesis
  proof (cases e)
    case (EvGiveUp i src er)
    then show thesis using st give_up_wire [of i er] give_up_tls [of i er]
      by (cases src) (auto simp: inst_at_Some split: option.splits batch_source.splits if_splits)
  next
    case EvWatchStep
    then show thesis using st watch_stop_none watch_stop watch_stopped watch_joined watch_start watch_started
      by (auto split: watch_pc.splits list.splits option.splits if_splits)
  next
    case (EvSend res)
    then show thesis using st send send_failed drain
      by (auto split: list.splits option.splits if_splits sender_pc.splits prod.splits)
  next
    case (EvRead i src b)
    then show thesis using st read by (auto simp: inst_at_Some split: option.splits if_splits)
  next
    case (EvPut i src b)
    then show thesis using st put by (auto simp: inst_at_Some split: option.splits if_splits)
  next
    case (EvPutClosed i src)
    then show thesis using st panic by (auto simp: inst_at_Some split: option.splits batch_source.splits if_splits)
  next
    case (EvWireEnd i err)
    then show thesis using st wire_end by (auto simp: inst_at_Some split: option.splits if_splits)
  next
    case (EvTlsEnd i)
    then show thesis using st tls_end by (auto simp: inst_at_Some split: option.splits if_splits)
  next
    case (EvDone i)
    then show thesis using st finish by (auto simp: inst_at_Some split: option.splits if_splits)
  next
    case EvSenderEnd
    then show thesis using st sender_end by (auto simp: inst_at_Some split: sender_pc.splits if_splits)
  next
    case (EvUpdate n)
    then show thesis using st update by (auto simp: inst_at_Some split: option.splits if_splits)
  next
    case EvWatchErr
    then show thesis using st watch_err by (auto simp: inst_at_Some split: option.splits if_splits)
  next
    case (EvCtxDone er)
    then show thesis using st ctx by (auto simp: inst_at_Some split: option.splits if_splits)
  next
    case EvSelect
    then show thesis using st select by (auto simp: inst_at_Some split: option.splits if_splits)
  next
    case EvCollect
    then show thesis using st collect by (auto simp: inst_at_Some split: option.splits if_splits)
  next
    case EvWait
    then show thesis using st wait by (auto simp: inst_at_Some split: main_pc.splits list.splits if_splits)
  next
    case EvClose
    then show thesis using st close by (auto simp: inst_at_Some split: option.splits if_splits)
  next
    case (EvReturn er)
    then show thesis using st return by (auto simp: inst_at_Some split: main_pc.splits sender_pc.splits)
  qed
qed

section \<open>Fields\<close>

lemma nth_upd: "j < length xs \<Longrightarrow> xs[i := x] ! j = (if i = j then x else xs ! j)"
  by (auto simp: nth_list_update)

lemma upd_inst_fields [simp]:
  "r_insts (upd_inst i f s) = (r_insts s)[i := f (r_insts s ! i)]"
  "r_captures (upd_inst i f s) = r_captures s" "r_chan (upd_inst i f s) = r_chan s"
  "r_closed (upd_inst i f s) = r_closed s" "r_ctx (upd_inst i f s) = r_ctx s"
  "r_capture_cancelled (upd_inst i f s) = r_capture_cancelled s" "r_sent (upd_inst i f s) = r_sent s"
  "r_main (upd_inst i f s) = r_main s" "r_watch (upd_inst i f s) = r_watch s"
  "r_sender (upd_inst i f s) = r_sender s" "r_panicked (upd_inst i f s) = r_panicked s"
  by (simp_all add: upd_inst_def)

lemma cancel_inst_fields [simp]:
  "r_insts (cancel_inst i s) = (r_insts s)[i := (r_insts s ! i)\<lparr>ci_cancelled := True\<rparr>]"
  "r_captures (cancel_inst i s) = r_captures s" "r_chan (cancel_inst i s) = r_chan s"
  "r_closed (cancel_inst i s) = r_closed s" "r_ctx (cancel_inst i s) = r_ctx s"
  "r_capture_cancelled (cancel_inst i s) = r_capture_cancelled s" "r_sent (cancel_inst i s) = r_sent s"
  "r_main (cancel_inst i s) = r_main s" "r_watch (cancel_inst i s) = r_watch s"
  "r_sender (cancel_inst i s) = r_sender s" "r_panicked (cancel_inst i s) = r_panicked s"
  by (simp_all add: cancel_inst_def)

lemma finish_inst_fields [simp]:
  "r_insts (finish_inst env i s) = (r_insts s)[i := (r_insts s ! i)\<lparr>ci_done := True\<rparr>]"
  "r_captures (finish_inst env i s) = r_captures s" "r_chan (finish_inst env i s) = r_chan s"
  "r_closed (finish_inst env i s) = r_closed s" "r_ctx (finish_inst env i s) = r_ctx s"
  "r_capture_cancelled (finish_inst env i s) = r_capture_cancelled s" "r_sent (finish_inst env i s) = r_sent s"
  "r_main (finish_inst env i s) = r_main s" "r_watch (finish_inst env i s) = r_watch s"
  "r_sender (finish_inst env i s) = r_sender s" "r_panicked (finish_inst env i s) = r_panicked s"
  by (simp_all add: finish_inst_def Let_def split: prod.split)

lemma start_inst_fields [simp]:
  "r_chan (start_inst env asg tg s) = r_chan s"
  "r_closed (start_inst env asg tg s) = r_closed s" "r_ctx (start_inst env asg tg s) = r_ctx s"
  "r_capture_cancelled (start_inst env asg tg s) = r_capture_cancelled s" "r_sent (start_inst env asg tg s) = r_sent s"
  "r_main (start_inst env asg tg s) = r_main s" "r_watch (start_inst env asg tg s) = r_watch s"
  "r_sender (start_inst env asg tg s) = r_sender s" "r_panicked (start_inst env asg tg s) = r_panicked s"
  by (simp_all add: start_inst_def split: option.split)

lemma start_inst_running [simp]: "map_of (r_captures s) (tgt_uid tg) = Some i \<Longrightarrow> start_inst env asg tg s = s"
  by (simp add: start_inst_def)

lemma start_inst_new [simp]:
  assumes "map_of (r_captures s) (tgt_uid tg) = None"
  shows "r_insts (start_inst env asg tg s) = r_insts s @ [fresh_inst env asg tg]"
    "r_captures (start_inst env asg tg s) = AList.update (tgt_uid tg) (length (r_insts s)) (r_captures s)"
  using assms by (simp_all add: start_inst_def)

lemma begin_update_fields [simp]:
  "r_insts (begin_update env nxt s) = r_insts s"
  "r_captures (begin_update env nxt s) = r_captures s" "r_chan (begin_update env nxt s) = r_chan s"
  "r_closed (begin_update env nxt s) = r_closed s" "r_ctx (begin_update env nxt s) = r_ctx s"
  "r_capture_cancelled (begin_update env nxt s) = r_capture_cancelled s" "r_sent (begin_update env nxt s) = r_sent s"
  "r_main (begin_update env nxt s) = r_main s"
  "r_sender (begin_update env nxt s) = r_sender s" "r_panicked (begin_update env nxt s) = r_panicked s"
  by (simp_all add: begin_update_def Let_def split: option.split)

lemma main_wait_fields [simp]:
  "length (r_insts (main_wait is s)) = length (r_insts s)"
  "r_captures (main_wait is s) = r_captures s" "r_chan (main_wait is s) = r_chan s"
  "r_closed (main_wait is s) = r_closed s" "r_ctx (main_wait is s) = r_ctx s"
  "r_capture_cancelled (main_wait is s) = r_capture_cancelled s" "r_sent (main_wait is s) = r_sent s"
  "r_main (main_wait is s) = (if is = [] then MClose else MWait is)" "r_watch (main_wait is s) = r_watch s"
  "r_sender (main_wait is s) = r_sender s" "r_panicked (main_wait is s) = r_panicked s"
  by (simp_all add: main_wait_def split: list.split)

lemma main_wait_insts:
  "r_insts (main_wait is s) =
     (case is of [] \<Rightarrow> r_insts s | i # _ \<Rightarrow> (r_insts s)[i := (r_insts s ! i)\<lparr>ci_cancelled := True\<rparr>])"
  by (simp add: main_wait_def split: list.split)

lemma set_source_fields [simp]:
  "ci_asg (set_source src v c) = ci_asg c" "ci_target (set_source src v c) = ci_target c"
  "ci_cancelled (set_source src v c) = ci_cancelled c" "ci_done (set_source src v c) = ci_done c"
  by (cases src; simp)+

section \<open>Well-formed states\<close>

text \<open>What every place of the program may rely on.\<close>

definition captures_wf :: "run_state \<Rightarrow> bool" where
  "captures_wf s \<longleftrightarrow> gomap_ok (r_captures s) \<and> (\<forall>u i. map_of (r_captures s) u = Some i \<longrightarrow> i < length (r_insts s))"

definition insts_wf :: "run_state \<Rightarrow> bool" where
  "insts_wf s \<longleftrightarrow> (\<forall>i < length (r_insts s).
     ci_done (r_insts s ! i) \<longrightarrow> ci_wire (r_insts s ! i) = Ended \<and> ci_tls (r_insts s ! i) = Ended)"

definition watch_wf :: "run_state \<Rightarrow> bool" where
  "watch_wf s \<longleftrightarrow> (case r_watch s of
     WJoin i us asg ds \<Rightarrow> i < length (r_insts s) \<and> ci_cancelled (r_insts s ! i)
   | _ \<Rightarrow> True)"

definition main_wf :: "run_state \<Rightarrow> bool" where
  "main_wf s \<longleftrightarrow> (case r_main s of
     MSelect \<Rightarrow> \<not> r_closed s
   | MCollect \<Rightarrow> \<not> r_closed s \<and> r_capture_cancelled s
   | MWait is \<Rightarrow> \<not> r_closed s \<and> r_capture_cancelled s \<and> is \<noteq> [] \<and> (\<forall>i \<in> set is. i < length (r_insts s))
   | MClose \<Rightarrow> \<not> r_closed s \<and> r_capture_cancelled s
   | MJoin \<Rightarrow> r_closed s \<and> r_capture_cancelled s
   | MReturned res \<Rightarrow> r_closed s \<and> r_capture_cancelled s \<and> (\<exists>err. r_sender s = SDone err))"

definition chan_wf :: "run_state \<Rightarrow> bool" where
  "chan_wf s \<longleftrightarrow> length (r_chan s) \<le> batch_chan_cap \<and>
     (\<forall>err. r_sender s = SDone err \<longrightarrow> r_closed s \<and> r_chan s = [])"

definition run_wf :: "run_state \<Rightarrow> bool" where
  "run_wf s \<longleftrightarrow> captures_wf s \<and> insts_wf s \<and> watch_wf s \<and> main_wf s \<and> chan_wf s"

lemmas run_wf_parts = captures_wf_def insts_wf_def watch_wf_def main_wf_def chan_wf_def

lemma captures_wf_D: "captures_wf s \<Longrightarrow> i \<in> set (map snd (r_captures s)) \<Longrightarrow> i < length (r_insts s)"
  by (auto simp: captures_wf_def)

lemma captures_wf_step:
  assumes "run_step env e s = Some t" "captures_wf s"
  shows "captures_wf t"
  using assms(1)
proof (cases rule: run_step_cases)
  case (watch_start tg asg ds)
  with assms(2) show ?thesis
    by (cases "map_of (r_captures s) (tgt_uid tg)") (auto simp: captures_wf_def update_conv' less_Suc_eq)
qed (use assms(2) in \<open>auto simp: captures_wf_def delete_conv'\<close>)

lemma insts_wf_step:
  assumes "run_step env e s = Some t" "insts_wf s"
  shows "insts_wf t"
  using assms(1)
proof (cases rule: run_step_cases)
  case (read i src b)
  with assms(2) show ?thesis by (cases src) (auto simp: insts_wf_def nth_upd)
next
  case (put i src b)
  with assms(2) show ?thesis by (cases src) (auto simp: insts_wf_def nth_upd)
next
  case (watch_start tg asg ds)
  with assms(2) show ?thesis
    by (cases "map_of (r_captures s) (tgt_uid tg)") (auto simp: insts_wf_def nth_append fresh_inst_def less_Suc_eq)
next
  case collect
  with assms(2) show ?thesis by (auto simp: insts_wf_def main_wait_insts nth_upd split: list.splits if_splits)
next
  case (wait i "is")
  with assms(2) show ?thesis by (auto simp: insts_wf_def main_wait_insts nth_upd split: list.splits if_splits)
qed (use assms(2) in \<open>auto simp: insts_wf_def nth_upd split: if_splits\<close>)

lemma inst_still_cancelled:
  assumes "run_step env e s = Some t" "i < length (r_insts s)"
  shows "i < length (r_insts t) \<and> (ci_cancelled (r_insts s ! i) \<longrightarrow> ci_cancelled (r_insts t ! i)) \<and>
    (ci_done (r_insts s ! i) \<longrightarrow> ci_done (r_insts t ! i)) \<and>
    ci_asg (r_insts t ! i) = ci_asg (r_insts s ! i) \<and> ci_target (r_insts t ! i) = ci_target (r_insts s ! i)"
  using assms(1)
proof (cases rule: run_step_cases)
  case (watch_start tg asg ds)
  with assms(2) show ?thesis by (cases "map_of (r_captures s) (tgt_uid tg)") (auto simp: nth_append)
qed (use assms(2) in \<open>auto simp: nth_upd main_wait_insts split: list.split\<close>)

lemma watch_wf_step:
  assumes "run_step env e s = Some t" "watch_wf s" "captures_wf s"
  shows "watch_wf t"
proof (cases "r_watch t = r_watch s")
  case True
  with assms(2) inst_still_cancelled [OF assms(1)] show ?thesis
    by (auto simp: watch_wf_def split: watch_pc.splits)
next
  case False
  from assms(1) show ?thesis
  proof (cases rule: run_step_cases)
    case (update nxt)
    then show ?thesis by (auto simp: watch_wf_def begin_update_def Let_def split: option.splits)
  qed (use assms(3) False in \<open>auto simp: watch_wf_def captures_wf_def\<close>)
qed

lemma main_wf_step:
  assumes "run_step env e s = Some t" "main_wf s" "captures_wf s" "chan_wf s"
  shows "main_wf t"
proof (cases "r_main t = r_main s")
  case True
  have "length (r_insts s) \<le> length (r_insts t)"
    using inst_still_cancelled [OF assms(1), of "length (r_insts s) - 1"] by (cases "r_insts s") auto
  moreover have "r_capture_cancelled s \<longrightarrow> r_capture_cancelled t" "r_closed t = r_closed s"
    "r_sender s = SDone err \<longrightarrow> r_sender t = SDone err" for err
    using assms(1) True by (cases rule: run_step_cases; auto split: if_splits)+
  ultimately show ?thesis using assms(2) True
    by (auto simp: main_wf_def split: main_pc.splits)
next
  case False
  from assms(1) show ?thesis
    by (cases rule: run_step_cases)
      (use False assms(2,3) captures_wf_D [OF assms(3)] in \<open>auto simp: main_wf_def\<close>)
qed

lemma chan_wf_step:
  assumes "run_step env e s = Some t" "chan_wf s"
  shows "chan_wf t"
  using assms(1)
  by (cases rule: run_step_cases) (use assms(2) in \<open>auto simp: chan_wf_def\<close>)

lemma run_wf_step: "run_wf s \<Longrightarrow> run_step env e s = Some t \<Longrightarrow> run_wf t"
  unfolding run_wf_def
  using captures_wf_step insts_wf_step watch_wf_step main_wf_step chan_wf_step by blast

lemma run_empty_wf: "run_wf run_empty"
  by (simp add: run_wf_def run_wf_parts run_empty_def)

section \<open>Assignments in order\<close>

text \<open>The captures of a state as \<open>apply_assignment\<close> sees them.\<close>

definition inst_key :: "capture_inst \<Rightarrow> agent_assignment \<times> target" where
  "inst_key c = (ci_asg c, ci_target c)"

definition run_captures :: "run_state \<Rightarrow> captures" where
  "run_captures s = map (\<lambda>(uid, i). (uid, inst_key (r_insts s ! i))) (r_captures s)"

text \<open>The captures once the update in progress is over.\<close>

definition captures_goal :: "run_state \<Rightarrow> captures" where
  "captures_goal s =
     (case r_watch s of
        WStop us asg ds \<Rightarrow> fold (start_target asg) ds (fold stop_target us (run_captures s))
      | WJoin i us asg ds \<Rightarrow> fold (start_target asg) ds (fold stop_target us (run_captures s))
      | WStart asg ds \<Rightarrow> fold (start_target asg) ds (run_captures s)
      | _ \<Rightarrow> run_captures s)"

lemma keys_run_captures [simp]: "keys (run_captures s) = keys (r_captures s)"
  by (simp add: run_captures_def case_prod_beta comp_def)

lemma map_of_run_captures:
  "map_of (run_captures s) u = map_option (\<lambda>i. inst_key (r_insts s ! i)) (map_of (r_captures s) u)"
  by (simp add: run_captures_def map_of_map)

lemma update_map_snd:
  "AList.update k (f v) (map (\<lambda>(k, v). (k, f v)) xs) = map (\<lambda>(k, v). (k, f v)) (AList.update k v xs)"
  by (induction xs) auto

lemma delete_map_snd:
  "AList.delete k (map (\<lambda>(k, v). (k, f v)) xs) = map (\<lambda>(k, v). (k, f v)) (AList.delete k xs)"
  by (induction xs) auto

lemma run_captures_stop:
  "map_of (r_captures s) u = Some i \<Longrightarrow> r_captures t = AList.delete u (r_captures s) \<Longrightarrow>
   (\<And>j. inst_key (r_insts t ! j) = inst_key (r_insts s ! j)) \<Longrightarrow> run_captures t = stop_target u (run_captures s)"
  by (simp add: run_captures_def stop_target_def delete_map_snd)

lemma stop_absent: "map_of caps u = None \<Longrightarrow> stop_target u caps = caps"
  by (simp add: stop_target_def delete_id map_of_eq_None_iff)

lemma run_captures_same:
  assumes "captures_wf s" "r_captures t = r_captures s"
    "\<And>i. i < length (r_insts s) \<Longrightarrow> inst_key (r_insts t ! i) = inst_key (r_insts s ! i)"
  shows "run_captures t = run_captures s"
proof -
  have "i < length (r_insts s)" if "(u, i) \<in> set (r_captures s)" for u i
    using captures_wf_D [OF assms(1), of i] that by force
  with assms(2,3) show ?thesis by (auto simp: run_captures_def intro!: map_cong)
qed

lemma run_captures_start:
  assumes "captures_wf s"
  shows "run_captures (start_inst env asg tg s) = start_target asg tg (run_captures s)"
proof (cases "map_of (r_captures s) (tgt_uid tg)")
  case None
  let ?t = "start_inst env asg tg s"
  have old: "run_captures (?t\<lparr>r_captures := r_captures s\<rparr>) = run_captures s"
    by (rule run_captures_same [OF assms]) (simp_all add: None nth_append)
  have "run_captures ?t = AList.update (tgt_uid tg) (asg, tg) (run_captures (?t\<lparr>r_captures := r_captures s\<rparr>))"
    using update_map_snd [of "tgt_uid tg" "\<lambda>i. inst_key (r_insts ?t ! i)" "length (r_insts s)" "r_captures s"]
    by (simp add: run_captures_def None inst_key_def fresh_inst_def)
  then show ?thesis by (simp add: old start_target_def map_of_run_captures None)
qed (simp add: start_target_def map_of_run_captures)

text \<open>The updates among the events.\<close>

fun updates_of :: "run_event list \<Rightarrow> agent_assignment list" where
  "updates_of [] = []"
| "updates_of (EvUpdate (Some asg) # es) = asg # updates_of es"
| "updates_of (e # es) = updates_of es"

lemma fold_targets: "fold (\<lambda>(uid, tg). f tg) ds = fold f (map snd ds)"
  by (induction ds) auto

lemma captures_goal_step:
  assumes "run_step env e s = Some t" "captures_wf s"
  shows "captures_goal t = fold (apply_assignment (re_cfg env)) (updates_of [e]) (captures_goal s)"
proof -
  have same: "run_captures t = run_captures s" if "r_captures t = r_captures s"
    by (rule run_captures_same [OF assms(2) that])
      (use inst_still_cancelled [OF assms(1)] in \<open>simp add: inst_key_def\<close>)
  from assms(1) show ?thesis
  proof (cases rule: run_step_cases)
    case (update nxt)
    then show ?thesis using same
      by (cases nxt) (auto simp: captures_goal_def begin_update_def apply_assignment_def Let_def fold_targets
          validate_assignment_def split: option.splits)
  next
    case (watch_stop u us asg ds i)
    have "run_captures t = stop_target u (run_captures s)"
      by (rule run_captures_stop [OF watch_stop(3)])
        (use watch_stop captures_wf_def assms(2) in \<open>auto simp: nth_upd inst_key_def nth_list_update\<close>)
    with watch_stop show ?thesis by (simp add: captures_goal_def)
  next
    case (watch_stop_none u us asg ds)
    then have "stop_target u (run_captures s) = run_captures s"
      by (intro stop_absent) (simp add: map_of_run_captures)
    with watch_stop_none same show ?thesis by (simp add: captures_goal_def)
  next
    case (watch_start tg asg ds)
    have "run_captures t = run_captures (start_inst env asg tg s)"
      using watch_start by (simp add: run_captures_def)
    with watch_start run_captures_start [OF assms(2)] show ?thesis by (simp add: captures_goal_def)
  qed (use same in \<open>simp_all add: captures_goal_def split: watch_pc.split\<close>)
qed

lemma updates_of_append: "updates_of (xs @ ys) = updates_of xs @ updates_of ys"
  by (induction xs rule: updates_of.induct) simp_all

lemma captures_goal_run:
  assumes "run_events env evs s = Some t" "captures_wf s"
  shows "captures_goal t = fold (apply_assignment (re_cfg env)) (updates_of evs) (captures_goal s) \<and> captures_wf t"
  using assms
proof (induction evs arbitrary: s)
  case (Cons e es)
  then obtain u where u: "run_step env e s = Some u" "run_events env es u = Some t"
    by (auto split: option.splits)
  from Cons.IH [OF u(2) captures_wf_step [OF u(1) Cons.prems(2)]] captures_goal_step [OF u(1) Cons.prems(2)]
  show ?case using updates_of_append [of "[e]" es] by simp
qed simp

lemma start_inst_wf:
  assumes "run_wf s" "r_watch s = WRecv" "r_main s = MSelect"
  shows "run_wf (start_inst env asg tg s) \<and> r_watch (start_inst env asg tg s) = WRecv \<and>
    r_main (start_inst env asg tg s) = MSelect"
  using assms by (cases "map_of (r_captures s) (tgt_uid tg)")
    (auto simp: run_wf_def run_wf_parts nth_append fresh_inst_def update_conv' less_Suc_eq)

lemma start_all_wf:
  assumes "run_wf s" "r_watch s = WRecv" "r_main s = MSelect"
  shows "run_wf (fold (start_inst env asg) ds s) \<and> r_watch (fold (start_inst env asg) ds s) = WRecv \<and>
    r_main (fold (start_inst env asg) ds s) = MSelect \<and>
    run_captures (fold (start_inst env asg) ds s) = fold (start_target asg) ds (run_captures s)"
  using assms
proof (induction ds arbitrary: s)
  case (Cons d ds)
  have "captures_wf s" using Cons.prems(1) by (simp add: run_wf_def)
  from Cons.IH [of "start_inst env asg d s"] start_inst_wf [OF Cons.prems] run_captures_start [OF this]
  show ?case by simp
qed simp

lemma run_boot_facts:
  "run_wf (run_boot env asg) \<and> r_watch (run_boot env asg) = WRecv \<and> r_main (run_boot env asg) = MSelect \<and>
   run_captures (run_boot env asg) = apply_assignment (re_cfg env) asg []"
proof (cases "validate_assignment (re_cfg env) (Some asg)")
  case None
  have empty: "r_watch run_empty = WRecv" "r_main run_empty = MSelect" "run_captures run_empty = []"
    by (simp_all add: run_empty_def run_captures_def)
  from start_all_wf [OF run_empty_wf empty(1,2)] empty None show ?thesis
    by (simp add: run_boot_def apply_assignment_def Let_def fold_targets)
next
  case (Some e)
  then show ?thesis using run_empty_wf
    by (simp add: run_boot_def apply_assignment_def run_empty_def run_captures_def)
qed

lemma run_boot_wf: "run_wf (run_boot env asg)"
  using run_boot_facts by blast

interpretation run_sys: invariant_system "\<lambda>s. s = run_boot env asg" "run_next env" run_wf for env asg
  by unfold_locales (auto intro: run_boot_wf run_wf_step)

lemma run_boot_run_wf: "run_events env evs (run_boot env asg) = Some s \<Longrightarrow> run_wf s"
  by (rule run_sys.reachable_inv [OF refl run_events_steps])

text \<open>
  C14. The goroutines refine \<open>apply_assignment\<close>: in every interleaving, whenever no update is in
  progress the captures in the map, with their assignments and targets, are exactly what applying
  the first assignment and then every update received, in order, gives.
\<close>

theorem updates_applied_in_order:
  assumes "run_events env evs (run_boot env asg) = Some s" and "r_watch s = WRecv \<or> r_watch s = WEnded"
  shows "run_captures s =
    fold (apply_assignment (re_cfg env)) (updates_of evs) (apply_assignment (re_cfg env) asg [])"
proof -
  have "captures_wf (run_boot env asg)" using run_boot_wf by (simp add: run_wf_def)
  from captures_goal_run [OF assms(1) this] run_boot_facts [of env asg] assms(2)
  show ?thesis by (auto simp: captures_goal_def)
qed

text \<open>Whether an update is being applied, and whether \<open>Run\<close> has returned.\<close>

definition updating :: "run_state \<Rightarrow> bool" where
  "updating s = (r_watch s \<noteq> WRecv \<and> r_watch s \<noteq> WEnded)"

definition returned :: "run_state \<Rightarrow> bool" where
  "returned s = (case r_main s of MReturned res \<Rightarrow> True | _ \<Rightarrow> False)"

section \<open>Batches in order\<close>

text \<open>The batches put on the channel, and the outcomes of the sender's turns.\<close>

fun accepted_of :: "run_event list \<Rightarrow> capture_batch list" where
  "accepted_of [] = []"
| "accepted_of (EvPut i src b # es) = b # accepted_of es"
| "accepted_of (e # es) = accepted_of es"

fun sends_of :: "run_event list \<Rightarrow> go_err option list" where
  "sends_of [] = []"
| "sends_of (EvSend res # es) = res # sends_of es"
| "sends_of (e # es) = sends_of es"

lemma accepted_of_append: "accepted_of (xs @ ys) = accepted_of xs @ accepted_of ys"
  by (induction xs rule: accepted_of.induct) simp_all

lemma sends_of_append: "sends_of (xs @ ys) = sends_of xs @ sends_of ys"
  by (induction xs rule: sends_of.induct) simp_all

lemma send_batches_snoc:
  assumes "send_batches p bs = (sent, err)"
  shows "send_batches p (bs @ [(b, res)]) =
    (case err of
       Some e \<Rightarrow> (sent, Some e)
     | None \<Rightarrow>
         (case stamp_records (p + of_nat (length (frames (concat (map cb_records sent))))) (cb_records b) of
            (rs, n) \<Rightarrow> (case res of None \<Rightarrow> (sent @ [b\<lparr>cb_records := rs\<rparr>], None) | Some e \<Rightarrow> (sent, Some e))))"
  using assms
proof (induction p bs arbitrary: sent err rule: send_batches.induct)
  case (1 p)
  then show ?case by (auto simp: frames_def split: option.split prod.split)
next
  case (2 p c r bs)
  obtain rs n where st: "stamp_records p (cb_records c) = (rs, n)" by (cases "stamp_records p (cb_records c)")
  note n = stamp_records_facts [OF st]
  show ?case
  proof (cases r)
    case None
    obtain sent' where s': "send_batches n bs = (sent', err)" "sent = c\<lparr>cb_records := rs\<rparr> # sent'"
      using 2(2) st None by (auto split: prod.splits)
    from 2(1) [OF st [symmetric] None s'(1)] st None s' n show ?thesis
      by (auto simp: frames_append add.assoc split: option.splits prod.splits)
  next
    case (Some e)
    with 2(2) st show ?thesis by auto
  qed
qed

definition sender_error :: "sender_pc \<Rightarrow> go_err option" where
  "sender_error p = (case p of SLoop q err \<Rightarrow> err | SDone err \<Rightarrow> err)"

text \<open>The sender has done what \<open>send_batches\<close> does with the batches it took.\<close>

definition sender_inv :: "run_event list \<Rightarrow> run_state \<Rightarrow> bool" where
  "sender_inv evs s \<longleftrightarrow>
     length (sends_of evs) \<le> length (accepted_of evs) \<and>
     r_chan s = drop (length (sends_of evs)) (accepted_of evs) \<and>
     send_batches 0 (zip (accepted_of evs) (sends_of evs)) = (r_sent s, sender_error (r_sender s)) \<and>
     (\<forall>q. r_sender s = SLoop q None \<longrightarrow> q = of_nat (length (frames (concat (map cb_records (r_sent s))))))"

lemma sender_inv_take:
  assumes "sender_inv evs s" "r_chan s = b # bs"
  shows "length (sends_of evs) < length (accepted_of evs) \<and>
    bs = drop (Suc (length (sends_of evs))) (accepted_of evs) \<and>
    zip (accepted_of evs) (sends_of evs @ [res]) = zip (accepted_of evs) (sends_of evs) @ [(b, res)]"
proof -
  let ?n = "length (sends_of evs)"
  have d: "drop ?n (accepted_of evs) = b # bs" using assms by (simp add: sender_inv_def)
  then have n: "?n < length (accepted_of evs)" by (cases "?n < length (accepted_of evs)") auto
  have "zip (accepted_of evs) (sends_of evs) = zip (take ?n (accepted_of evs)) (sends_of evs)"
    using zip_append2 [of "accepted_of evs" "sends_of evs" "[]"] by simp
  moreover have "drop (Suc ?n) (accepted_of evs) = bs"
    using d drop_drop [of 1 ?n "accepted_of evs"] by simp
  ultimately show ?thesis using n d by (simp add: zip_append2)
qed

lemma sender_inv_step:
  assumes "run_step env e s = Some t" "sender_inv evs s"
  shows "sender_inv (evs @ [e]) t"
  using assms(1)
proof (cases rule: run_step_cases)
  case (send b bs q rs n)
  note tk = sender_inv_take [OF assms(2) send(2), of None]
  from assms(2) send have sb: "send_batches 0 (zip (accepted_of evs) (sends_of evs)) = (r_sent s, None)"
    "q = of_nat (length (frames (concat (map cb_records (r_sent s)))))"
    by (simp_all add: sender_inv_def sender_error_def)
  from send_batches_snoc [OF sb(1), of b None] stamp_records_facts [OF send(4)] send tk sb
  show ?thesis
    by (auto simp: sender_inv_def sender_error_def accepted_of_append sends_of_append frames_append)
next
  case (send_failed b bs q rs n er)
  note tk = sender_inv_take [OF assms(2) send_failed(2), of "Some er"]
  from assms(2) send_failed have sb: "send_batches 0 (zip (accepted_of evs) (sends_of evs)) = (r_sent s, None)"
    "q = of_nat (length (frames (concat (map cb_records (r_sent s)))))"
    by (simp_all add: sender_inv_def sender_error_def)
  from send_batches_snoc [OF sb(1), of b "Some er"] send_failed tk sb show ?thesis
    by (auto simp: sender_inv_def sender_error_def accepted_of_append sends_of_append)
next
  case (drain b bs q er)
  note tk = sender_inv_take [OF assms(2) drain(2), of None]
  from assms(2) drain have sb: "send_batches 0 (zip (accepted_of evs) (sends_of evs)) = (r_sent s, Some er)"
    by (simp add: sender_inv_def sender_error_def)
  from send_batches_snoc [OF sb, of b None] drain tk show ?thesis
    by (auto simp: sender_inv_def sender_error_def accepted_of_append sends_of_append)
next
  case (put i src b)
  with assms(2) show ?thesis
    by (auto simp: sender_inv_def accepted_of_append sends_of_append zip_append1)
next
  case (update nxt)
  with assms(2) show ?thesis by (cases nxt) (auto simp: sender_inv_def accepted_of_append sends_of_append)
qed (use assms(2) in \<open>auto simp: sender_inv_def accepted_of_append sends_of_append sender_error_def\<close>)

lemma sender_inv_run:
  "run_events env evs s = Some t \<Longrightarrow> sender_inv [] s \<Longrightarrow> sender_inv evs t"
proof (induction evs arbitrary: t rule: rev_induct)
  case (snoc e evs)
  then show ?case by (auto simp: run_events_snoc intro: sender_inv_step)
qed simp

lemma start_all_fields:
  "r_chan (fold (start_inst env asg) ds s) = r_chan s \<and> r_sent (fold (start_inst env asg) ds s) = r_sent s \<and>
   r_sender (fold (start_inst env asg) ds s) = r_sender s \<and> r_closed (fold (start_inst env asg) ds s) = r_closed s \<and>
   r_panicked (fold (start_inst env asg) ds s) = r_panicked s"
  by (induction ds arbitrary: s) simp_all

lemma run_boot_fields:
  "r_chan (run_boot env asg) = []" "r_sent (run_boot env asg) = []" "r_sender (run_boot env asg) = SLoop 0 None"
  "r_closed (run_boot env asg) = False" "r_panicked (run_boot env asg) = False"
  using start_all_fields [of env asg "map snd (desired_targets asg)" run_empty]
  by (simp_all add: run_boot_def fold_targets) (simp_all add: run_empty_def)

lemma run_boot_sender: "sender_inv [] (run_boot env asg)"
  by (simp add: sender_inv_def run_boot_fields sender_error_def frames_def List.map_filter_simps)

text \<open>
  C10. Nothing the captures handed over is lost, reordered or sent twice: in every interleaving of
  the captures with the sender, what the stream has got is what \<open>send_batches\<close> makes of the
  batches put on the channel, in the order they were put; once \<open>Run\<close> has returned every one of
  them was taken, and if no send failed they were all sent, numbered 1, 2, 3, ... across batches
  and otherwise unchanged.
\<close>

theorem accepted_batches_sent:
  assumes "run_events env evs (run_boot env asg) = Some s"
  shows "send_batches 0 (zip (accepted_of evs) (sends_of evs)) = (r_sent s, sender_error (r_sender s)) \<and>
    r_chan s = drop (length (sends_of evs)) (accepted_of evs) \<and>
    (case r_main s of
       MReturned res \<Rightarrow> length (sends_of evs) = length (accepted_of evs) \<and>
         (sender_error (r_sender s) \<noteq> None \<or>
          map unstamp_batch (r_sent s) = map unstamp_batch (accepted_of evs) \<and>
          consecutive 0 (frames (concat (map cb_records (r_sent s)))))
     | _ \<Rightarrow> True)"
proof -
  have wf: "run_wf s" by (rule run_boot_run_wf [OF assms])
  note inv = sender_inv_run [OF assms run_boot_sender, unfolded sender_inv_def]
  from send_batches_numbered inv obtain k where
    k: "consecutive 0 (frames (concat (map cb_records (r_sent s))))"
      "map unstamp_batch (r_sent s) = map (unstamp_batch \<circ> fst) (take k (zip (accepted_of evs) (sends_of evs)))"
      "sender_error (r_sender s) = None \<longrightarrow> k = length (zip (accepted_of evs) (sends_of evs))" by blast
  have taken: "length (sends_of evs) = length (accepted_of evs)" if "r_main s = MReturned res" for res
    using wf that inv by (auto simp: run_wf_def main_wf_def chan_wf_def)
  have all: "map unstamp_batch (r_sent s) = map unstamp_batch (accepted_of evs)"
    if "r_main s = MReturned res" "sender_error (r_sender s) = None" for res
    using k(2,3) that taken [OF that(1)] by (simp flip: map_map)
  from inv taken all k(1) show ?thesis by (auto split: main_pc.split)
qed

section \<open>Two runs\<close>

definition demo_run_env :: run_env where
  "demo_run_env = \<lparr>re_cfg = demo_config, re_has_tls = False\<rparr>"

definition demo_other_ref :: pod_ref where
  "demo_other_ref = \<lparr>pr_namespace = ''prod'', pr_name = ''pay-2'', pr_uid = ''u2'', pr_node = ''n1'',
     pr_container_id = []\<rparr>"

text \<open>The pod of the first assignment is gone, another one is to be captured.\<close>

definition demo_update :: agent_assignment where
  "demo_update = \<lparr>as_session_id = ''s1'', as_node = ''n1'', as_stream_id = ''str1'',
     as_targets = [\<lparr>tg_pod = Some demo_other_ref, tg_interfaces = [], tg_bpf_filter = [],
       tg_tls_mode = TLSModeAuto, tg_snaplen = 262144\<rparr>]\<rparr>"

definition demo_frame_batch :: capture_batch where
  "demo_frame_batch = \<lparr>cb_session_id = ''s1'', cb_node = ''n1'', cb_stream_id = ''str1'',
     cb_records = [demo_wire 0], cb_dropped = 0\<rparr>"

lemma demo_run_valid:
  "validate_assignment demo_config (Some demo_assignment) = None"
  "validate_assignment demo_config (Some demo_update) = None"
  by (simp_all add: validate_assignment_def demo_config_def demo_assignment_def demo_update_def demo_ref_def
      demo_other_ref_def Let_def)

lemma demo_run_desired:
  "desired_targets demo_assignment = [(''u1'', hd (as_targets demo_assignment))]"
  "desired_targets demo_update = [(''u2'', hd (as_targets demo_update))]"
  "tgt_uid (hd (as_targets demo_assignment)) = ''u1''" "tgt_uid (hd (as_targets demo_update)) = ''u2''"
  by (simp_all add: desired_targets_def demo_assignment_def demo_update_def demo_ref_def demo_other_ref_def tgt_uid_def)

lemma demo_boot:
  "run_boot demo_run_env demo_assignment =
     run_empty\<lparr>r_insts := [fresh_inst demo_run_env demo_assignment (hd (as_targets demo_assignment))],
       r_captures := [(''u1'', 0)]\<rparr>"
  by (simp add: run_boot_def demo_run_env_def demo_run_valid demo_run_desired start_inst_def run_empty_def)

lemma demo_run_env_simps: "re_cfg demo_run_env = demo_config" "re_has_tls demo_run_env = False"
  by (simp_all add: demo_run_env_def)

lemmas demo_run_simps = demo_boot demo_run_env_simps demo_run_desired demo_run_valid run_step_def inst_at_def upd_inst_def
  cancel_inst_def finish_inst_def fresh_inst_def begin_update_def main_wait_def inst_cancelled_def
  stopping_def capture_ended_def run_empty_def batch_chan_cap_def start_inst_def

text \<open>A frame is captured and sent, the session is stopped, the run returns.\<close>

definition demo_working :: "run_event list" where
  "demo_working = [EvRead 0 WireSource demo_frame_batch, EvPut 0 WireSource demo_frame_batch, EvSend None,
     EvCtxDone (GoErr ''context canceled'' True)]"

definition demo_ending :: "run_event list" where
  "demo_ending = [EvWireEnd 0 None, EvDone 0, EvWait, EvClose, EvSenderEnd, EvReturn None]"

text \<open>An update detaches the pod; the session is stopped while its capture is being stopped.\<close>

definition demo_race :: "run_event list" where
  "demo_race = [EvUpdate (Some demo_update), EvWatchStep, EvRead 0 WireSource demo_frame_batch,
     EvCtxDone (GoErr ''context canceled'' True), EvSelect, EvCollect, EvClose, EvPutClosed 0 WireSource]"

definition demo_state :: "run_event list \<Rightarrow> run_state" where
  "demo_state evs = the (run_events demo_run_env evs (run_boot demo_run_env demo_assignment))"

lemma demo_working_run:
  "run_events demo_run_env demo_working (run_boot demo_run_env demo_assignment) = Some (demo_state demo_working)"
  "stopping (demo_state demo_working) \<and> \<not> r_panicked (demo_state demo_working) \<and> \<not> updating (demo_state demo_working)
     \<and> r_watch (demo_state demo_working) = WRecv"
  by (simp_all add: demo_state_def demo_working_def demo_run_simps updating_def split: prod.split)

lemma demo_select_run:
  "run_events demo_run_env (demo_working @ [EvSelect]) (run_boot demo_run_env demo_assignment) =
     Some (demo_state (demo_working @ [EvSelect]))"
  "\<not> updating (demo_state (demo_working @ [EvSelect]))"
  by (simp_all add: demo_state_def demo_working_def demo_run_simps updating_def split: prod.split)

lemma demo_ending_run:
  "run_events demo_run_env (EvCollect # demo_ending) (demo_state (demo_working @ [EvSelect])) =
     Some (demo_state (demo_working @ [EvSelect, EvCollect] @ demo_ending))"
  "returned (demo_state (demo_working @ [EvSelect, EvCollect] @ demo_ending))"
  by (simp_all add: demo_state_def demo_working_def demo_ending_def demo_run_simps returned_def split: prod.split)

lemma demo_full_run:
  "run_events demo_run_env (demo_working @ [EvSelect, EvCollect] @ demo_ending) (run_boot demo_run_env demo_assignment) =
     Some (demo_state (demo_working @ [EvSelect, EvCollect] @ demo_ending))"
  using demo_select_run(1) demo_ending_run(1)
    run_events_append [of demo_run_env "demo_working @ [EvSelect]" "EvCollect # demo_ending"
      "run_boot demo_run_env demo_assignment"] by simp

lemma demo_full_sender: "sender_error (r_sender (demo_state (demo_working @ [EvSelect, EvCollect] @ demo_ending))) = None"
  by (simp add: demo_state_def demo_working_def demo_ending_def demo_run_simps sender_error_def split: prod.split)

theorem updates_applied_in_order_witness:
  "run_captures (demo_state demo_working) = apply_assignment demo_config demo_assignment []"
  using updates_applied_in_order [OF demo_working_run(1)] demo_working_run(2)
  by (simp add: demo_working_def demo_run_env_simps)

theorem accepted_batches_sent_witness:
  "map unstamp_batch (r_sent (demo_state (demo_working @ [EvSelect, EvCollect] @ demo_ending))) =
     [unstamp_batch demo_frame_batch]"
  using accepted_batches_sent [OF demo_full_run] demo_ending_run(2) demo_full_sender
  by (auto simp: returned_def demo_working_def demo_ending_def split: main_pc.splits)

end
