(* ===== verification/Agent_Teardown.thy ===== *)
theory Agent_Teardown imports Agent_Run_Facts begin

text \<open>
  The end of \<open>Run\<close>: a run that is stopping is never stuck and returns after a bounded number of
  actions, and a capture sends on the closed channel only if an assignment update overlaps the
  teardown - which can happen, and ends the agent with a panic.
\<close>

section \<open>Never stuck\<close>

text \<open>
  The actions a run that is stopping takes by itself: those of \<open>Run\<close> and of the sender, and the
  ends of cancelled captures.  A frame, an assignment or the end of the context is not one.
\<close>

fun teardown_event :: "run_state \<Rightarrow> run_event \<Rightarrow> bool" where
  "teardown_event s (EvGiveUp i src e) = True"
| "teardown_event s (EvWireEnd i err) = inst_cancelled s i"
| "teardown_event s (EvTlsEnd i) = inst_cancelled s i"
| "teardown_event s (EvDone i) = True"
| "teardown_event s (EvSend res) = True"
| "teardown_event s EvSenderEnd = True"
| "teardown_event s EvSelect = True"
| "teardown_event s EvCollect = True"
| "teardown_event s EvWait = True"
| "teardown_event s EvClose = True"
| "teardown_event s (EvReturn e) = True"
| "teardown_event s _ = False"

lemma cancelled_capture_ends:
  assumes "i < length (r_insts s)" "\<not> ci_done (r_insts s ! i)" "inst_cancelled s i" "\<not> r_panicked s"
  shows "\<exists>e. teardown_event s e \<and> run_step env e s \<noteq> None"
proof (cases "ci_wire (r_insts s ! i)")
  case Reading
  with assms have "teardown_event s (EvWireEnd i None) \<and> run_step env (EvWireEnd i None) s \<noteq> None"
    by (simp add: run_step_def inst_at_def)
  then show ?thesis by blast
next
  case (Offering b)
  with assms have "run_step env (EvGiveUp i WireSource er) s \<noteq> None" for er
    by (simp add: run_step_def inst_at_def)
  then show ?thesis using teardown_event.simps(1) by blast
next
  case wire: Ended
  show ?thesis
  proof (cases "ci_tls (r_insts s ! i)")
    case Reading
    with assms have "teardown_event s (EvTlsEnd i) \<and> run_step env (EvTlsEnd i) s \<noteq> None"
      by (simp add: run_step_def inst_at_def)
    then show ?thesis by blast
  next
    case (Offering b)
    with assms have "run_step env (EvGiveUp i TlsSource er) s \<noteq> None" for er
      by (simp add: run_step_def inst_at_def)
    then show ?thesis using teardown_event.simps(1) by blast
  next
    case Ended
    with assms wire have "teardown_event s (EvDone i) \<and> run_step env (EvDone i) s \<noteq> None"
      by (simp add: run_step_def inst_at_def)
    then show ?thesis by blast
  qed
qed

lemma stopping_progress:
  assumes "run_wf s" "stopping s" "\<not> r_panicked s" "\<not> returned s"
  shows "\<exists>e. teardown_event s e \<and> run_step env e s \<noteq> None"
proof -
  have own: "\<exists>e. teardown_event s e \<and> run_step env e s \<noteq> None"
    if "teardown_event s e" "run_event_step env e s \<noteq> None" for e
    using that assms(3) by (auto simp: run_step_def)
  show ?thesis
  proof (cases "r_main s")
    case MSelect
    with assms(2) show ?thesis by (intro own [of EvSelect]) auto
  next
    case MCollect
    then show ?thesis by (intro own [of EvCollect]) auto
  next
    case (MWait "is")
    with assms(1) obtain i js where w: "is = i # js" "i < length (r_insts s)" "inst_cancelled s i"
      by (cases "is") (auto simp: run_wf_def main_wf_def inst_cancelled_def)
    show ?thesis
    proof (cases "ci_done (r_insts s ! i)")
      case True
      with MWait w show ?thesis by (intro own [of EvWait]) auto
    next
      case False
      with w assms(3) show ?thesis by (intro cancelled_capture_ends)
    qed
  next
    case MClose
    then show ?thesis by (intro own [of EvClose]) auto
  next
    case MJoin
    with assms(1) have c: "r_closed s" by (simp add: run_wf_def main_wf_def)
    show ?thesis
    proof (cases "r_sender s")
      case (SDone err)
      with MJoin show ?thesis by (intro own [of "EvReturn None"]) auto
    next
      case (SLoop q err)
      show ?thesis
      proof (cases "r_chan s")
        case Nil
        with SLoop c show ?thesis by (intro own [of EvSenderEnd]) auto
      next
        case (Cons b bs)
        with SLoop show ?thesis
          by (intro own [of "EvSend None"]) (auto split: option.splits prod.splits)
      qed
    qed
  next
    case (MReturned res)
    with assms(4) show ?thesis by (simp add: returned_def)
  qed
qed

text \<open>
  C11. Every state \<open>Run\<close> can get into is well formed: the map names existing captures, a channel
  holds at most 8 batches, it is closed exactly in the last two steps, a capture whose \<open>done\<close>
  is closed has no goroutine left, \<open>Run\<close> has returned only when the sender has.  And a
  well-formed state is never stuck: once the context ended, the watch ended or a send failed,
  some goroutine can act until \<open>Run\<close> has returned.
\<close>

theorem run_state_typed:
  assumes "run_events env evs (run_boot env asg) = Some s"
  shows "run_wf s \<and> (\<not> stopping s \<or> r_panicked s \<or> returned s \<or>
    (\<exists>e. teardown_event s e \<and> run_step env e s \<noteq> None))"
  using run_boot_run_wf [OF assms] stopping_progress by blast

section \<open>The teardown ends\<close>

fun teardown_events :: "run_env \<Rightarrow> run_event list \<Rightarrow> run_state \<Rightarrow> run_state option" where
  "teardown_events env [] s = Some s"
| "teardown_events env (e # es) s =
     (if teardown_event s e
      then (case run_step env e s of None \<Rightarrow> None | Some t \<Rightarrow> teardown_events env es t)
      else None)"

text \<open>What is left to do.\<close>

definition inst_work :: "capture_inst \<Rightarrow> nat" where
  "inst_work c = (if ci_wire c = Ended then 0 else 1) + (if ci_tls c = Ended then 0 else 1)
     + (if ci_done c then 0 else 1)"

definition main_work :: "run_state \<Rightarrow> nat" where
  "main_work s =
     (case r_main s of
        MSelect \<Rightarrow> length (r_captures s) + 4
      | MCollect \<Rightarrow> length (r_captures s) + 3
      | MWait is \<Rightarrow> length is + 2
      | MClose \<Rightarrow> 2
      | MJoin \<Rightarrow> 1
      | MReturned res \<Rightarrow> 0)"

definition teardown_work :: "run_state \<Rightarrow> nat" where
  "teardown_work s = sum_list (map inst_work (r_insts s)) + length (r_chan s) + main_work s
     + (case r_sender s of SLoop q err \<Rightarrow> 1 | SDone err \<Rightarrow> 0)"

lemma sum_list_work_update:
  "i < length cs \<Longrightarrow> inst_work c < inst_work (cs ! i) \<Longrightarrow>
   sum_list (map inst_work (cs[i := c])) < sum_list (map inst_work cs)"
  by (induction cs arbitrary: i) (auto split: nat.split simp: nth_Cons')

lemma sum_list_work_cancel:
  "sum_list (map inst_work (cs[i := (cs ! i)\<lparr>ci_cancelled := True\<rparr>])) = sum_list (map inst_work cs)"
proof -
  have "inst_work ((cs ! i)\<lparr>ci_cancelled := True\<rparr>) = inst_work (cs ! i)" by (simp add: inst_work_def)
  then show ?thesis by (metis list_update_id map_update)
qed

lemma teardown_work_inst:
  assumes "i < length (r_insts s)" "inst_work c < inst_work (r_insts s ! i)" "r_insts t = (r_insts s)[i := c]"
    "r_chan t = r_chan s" "r_main t = r_main s" "r_captures t = r_captures s" "r_sender t = r_sender s"
  shows "teardown_work t < teardown_work s"
proof -
  have "main_work t = main_work s" unfolding main_work_def assms(5,6) ..
  with assms sum_list_work_update [OF assms(1,2)] show ?thesis by (simp add: teardown_work_def)
qed

lemma teardown_work_less:
  assumes "run_step env e s = Some t" "teardown_event s e"
  shows "teardown_work t < teardown_work s"
  using assms(1)
proof (cases rule: run_step_cases)
  case collect
  then show ?thesis
    by (cases "r_captures s") (auto simp: teardown_work_def main_work_def main_wait_insts sum_list_work_cancel)
next
  case (wait i "is")
  then show ?thesis
    by (cases "is") (auto simp: teardown_work_def main_work_def main_wait_insts sum_list_work_cancel)
next
  case (give_up_wire i b er)
  then show ?thesis by (intro teardown_work_inst [where i = i]) (simp_all add: inst_work_def)
next
  case (give_up_tls i b er)
  then show ?thesis by (intro teardown_work_inst [where i = i]) (simp_all add: inst_work_def)
next
  case (wire_end i err)
  then show ?thesis by (intro teardown_work_inst [where i = i]) (simp_all add: inst_work_def)
next
  case (tls_end i)
  then show ?thesis by (intro teardown_work_inst [where i = i]) (simp_all add: inst_work_def)
next
  case (finish i)
  then show ?thesis by (intro teardown_work_inst [where i = i]) (simp_all add: inst_work_def)
qed (use assms(2) in \<open>auto simp: teardown_work_def main_work_def split: main_pc.split\<close>)

lemma teardown_keeps:
  assumes "run_step env e s = Some t" "teardown_event s e" "stopping s"
  shows "stopping t \<and> \<not> r_panicked t"
  using assms(1) run_step_not_panicked [OF assms(1)]
  by (cases rule: run_step_cases) (use assms(2,3) in \<open>auto simp: stopping_def\<close>)

lemma teardown_bounded:
  "teardown_events env es s = Some t \<Longrightarrow> length es + teardown_work t \<le> teardown_work s"
proof (induction es arbitrary: s)
  case (Cons e es)
  then obtain u where u: "teardown_event s e" "run_step env e s = Some u" "teardown_events env es u = Some t"
    by (auto split: if_splits option.splits)
  from Cons.IH [OF u(3)] teardown_work_less [OF u(2,1)] show ?case by simp
qed simp

lemma teardown_completes:
  assumes "run_wf s" "stopping s" "\<not> r_panicked s"
  shows "\<exists>es t. teardown_events env es s = Some t \<and> returned t"
  using assms
proof (induction "teardown_work s" arbitrary: s rule: less_induct)
  case less
  show ?case
  proof (cases "returned s")
    case True
    then show ?thesis by (intro exI [of _ "[]"] exI [of _ s]) simp
  next
    case False
    from stopping_progress [OF less.prems False] obtain e u where
      e: "teardown_event s e" "run_step env e s = Some u" by blast
    from less.hyps [OF teardown_work_less [OF e(2,1)] run_wf_step [OF less.prems(1) e(2)]]
      teardown_keeps [OF e(2,1) less.prems(2)] obtain es t where
      "teardown_events env es u = Some t" "returned t" by blast
    with e show ?thesis by (intro exI [of _ "e # es"] exI [of _ t]) simp
  qed
qed


section \<open>The closed channel\<close>

text \<open>Every capture that has not ended is in the map, or is the one the watch waits for.\<close>

definition live_known :: "run_state \<Rightarrow> bool" where
  "live_known s \<longleftrightarrow> (\<forall>i < length (r_insts s). ci_done (r_insts s ! i) \<or>
     (\<exists>u. map_of (r_captures s) u = Some i) \<or> (\<exists>us asg ds. r_watch s = WJoin i us asg ds))"

text \<open>Between the collection and the return, with no update in progress.\<close>

definition teardown_safe :: "run_state \<Rightarrow> bool" where
  "teardown_safe s \<longleftrightarrow> \<not> updating s \<and> \<not> r_panicked s \<and>
     (case r_main s of
        MSelect \<Rightarrow> False
      | MCollect \<Rightarrow> False
      | MWait is \<Rightarrow> \<forall>i < length (r_insts s). ci_done (r_insts s ! i) \<or> i \<in> set is
      | _ \<Rightarrow> \<forall>i < length (r_insts s). ci_done (r_insts s ! i))"

fun is_update :: "run_event \<Rightarrow> bool" where
  "is_update (EvUpdate nxt) = True"
| "is_update e = False"

lemma live_known_start:
  assumes "live_known s"
  shows "live_known (start_inst env asg d s)"
proof (cases "map_of (r_captures s) (tgt_uid d)")
  case None
  have "ci_done (r_insts (start_inst env asg d s) ! i) \<or>
      (\<exists>u. map_of (r_captures (start_inst env asg d s)) u = Some i) \<or> (\<exists>us asg ds. r_watch s = WJoin i us asg ds)"
    if "i < Suc (length (r_insts s))" for i
  proof (cases "i = length (r_insts s)")
    case True
    then show ?thesis using None by (auto simp: update_conv')
  next
    case False
    with that have i: "i < length (r_insts s)" by simp
    then consider "ci_done (r_insts s ! i)" | u where "map_of (r_captures s) u = Some i"
      | us asg ds where "r_watch s = WJoin i us asg ds" using assms unfolding live_known_def by blast
    then show ?thesis
    proof cases
      case (2 u)
      with None have "map_of (r_captures (start_inst env asg d s)) u = Some i" by (auto simp: update_conv')
      then show ?thesis by blast
    qed (use None i in \<open>simp_all add: nth_append\<close>)
  qed
  then show ?thesis using None by (simp add: live_known_def)
qed (use assms in simp)

lemma live_known_step:
  assumes "run_step env e s = Some t" "live_known s"
  shows "live_known t"
  using assms(1)
proof (cases rule: run_step_cases)
  case (watch_start tg asg ds)
  with live_known_start [OF assms(2), of env asg tg] show ?thesis by (simp add: live_known_def)
next
  case (watch_stop u us asg ds i)
  with assms(2) show ?thesis
    by (auto simp: live_known_def nth_upd delete_conv' split: if_splits) (metis option.inject)
next
  case (update nxt)
  with assms(2) show ?thesis by (auto simp: live_known_def)
next
  case collect
  with assms(2) show ?thesis
    by (auto simp: live_known_def main_wait_insts nth_upd split: list.splits if_splits)
next
  case (wait i "is")
  with assms(2) show ?thesis
    by (auto simp: live_known_def main_wait_insts nth_upd split: list.splits if_splits)
qed (use assms(2) in \<open>auto simp: live_known_def nth_upd split: if_splits\<close>)

lemma start_all_live:
  "live_known s \<Longrightarrow> live_known (fold (start_inst env asg) ds s)"
proof (induction ds arbitrary: s)
  case (Cons d ds)
  from Cons.IH [OF live_known_start [OF Cons.prems]] show ?case by simp
qed simp

lemma run_boot_live: "live_known (run_boot env asg)"
proof -
  have "live_known run_empty" by (simp add: live_known_def run_empty_def)
  then show ?thesis using start_all_live by (simp add: run_boot_def fold_targets)
qed

interpretation live_sys: invariant_system "\<lambda>s. s = run_boot env asg" "run_next env" live_known for env asg
  by unfold_locales (auto intro: run_boot_live live_known_step)

lemma collect_safe:
  assumes "run_step env EvCollect s = Some t" "live_known s" "\<not> updating s"
  shows "teardown_safe t"
proof -
  from assms(1) have t: "r_main s = MCollect" "t = main_wait (map snd (r_captures s)) s"
    by (cases rule: run_step_cases; simp)+
  have live: "ci_done (r_insts s ! i) \<or> i \<in> set (map snd (r_captures s))" if "i < length (r_insts s)" for i
    using assms(2,3) that map_of_SomeD by (fastforce simp: live_known_def updating_def image_iff)
  have dn: "ci_done (r_insts t ! i) \<longleftrightarrow> ci_done (r_insts s ! i)" if "i < length (r_insts s)" for i
    using that t by (auto simp: main_wait_insts nth_upd split: list.split)
  show ?thesis using live dn t run_step_not_panicked [OF assms(1)] assms(3)
    by (auto simp: teardown_safe_def updating_def)
qed

lemma teardown_safe_step:
  assumes "run_step env e s = Some t" "teardown_safe s" "run_wf s" "\<not> is_update e"
  shows "teardown_safe t"
proof -
  have keep: "length (r_insts t) = length (r_insts s)" "\<not> updating t"
    using assms(1)
    by (cases rule: run_step_cases; use assms(2,4) in \<open>auto simp: teardown_safe_def updating_def\<close>)+
  have dn: "ci_done (r_insts s ! i) \<Longrightarrow> ci_done (r_insts t ! i)" if "i < length (r_insts s)" for i
    using inst_still_cancelled [OF assms(1) that] by blast
  from assms(1) show ?thesis
  proof (cases rule: run_step_cases)
    case (panic i src b)
    with assms(3) have "ci_done (r_insts s ! i)" using assms(2)
      by (auto simp: teardown_safe_def run_wf_def main_wf_def split: main_pc.splits)
    with assms(3) panic have False by (cases src) (auto simp: run_wf_def insts_wf_def)
    then show ?thesis ..
  next
    case (wait i "is")
    with assms(2) keep dn show ?thesis by (auto simp: teardown_safe_def)
  qed (use assms(2) keep dn in \<open>auto simp: teardown_safe_def split: main_pc.splits\<close>)
qed

text \<open>
  C13. A capture puts a batch on the closed channel, which ends the agent with a panic, only if an
  assignment update overlaps the teardown: if no update is in progress when \<open>Run\<close> collects the
  captures to wait for and none is received after that, no interleaving panics.
\<close>

theorem closed_channel_needs_update:
  assumes "run_events env evs (run_boot env asg) = Some s" and "\<not> updating s"
    and "run_events env (EvCollect # later) s = Some t" and "list_all (\<lambda>e. \<not> is_update e) later"
  shows "\<not> r_panicked t"
proof -
  have wf: "run_wf s" by (rule run_boot_run_wf [OF assms(1)])
  have live: "live_known s"
    by (rule live_sys.reachable_inv [OF refl run_events_steps [OF assms(1)]])
  obtain u where u: "run_step env EvCollect s = Some u" "run_events env later u = Some t"
    using assms(3) by (auto split: option.splits)
  have "teardown_safe t \<and> run_wf t"
    if "run_events env es u' = Some t" "teardown_safe u'" "run_wf u'" "list_all (\<lambda>e. \<not> is_update e) es" for es u'
    using that
  proof (induction es arbitrary: u')
    case (Cons e es)
    then obtain v where v: "run_step env e u' = Some v" "run_events env es v = Some t"
      by (auto split: option.splits)
    with Cons.prems show ?case
      by (intro Cons.IH [OF v(2)] teardown_safe_step [OF v(1)] run_wf_step [OF _ v(1)]) simp_all
  qed simp
  from this [OF u(2) collect_safe [OF u(1) live assms(2)] run_wf_step [OF wf u(1)] assms(4)]
  show ?thesis by (simp add: teardown_safe_def)
qed

section \<open>Witnesses\<close>

theorem run_state_typed_witness:
  "\<exists>e. run_step demo_run_env e (demo_state demo_working) \<noteq> None"
proof -
  have "\<not> returned (demo_state demo_working)"
    by (simp add: demo_state_def demo_working_def demo_run_simps returned_def split: prod.split)
  with run_state_typed [OF demo_working_run(1)] demo_working_run(2) show ?thesis by blast
qed


theorem closed_channel_needs_update_witness:
  "\<not> r_panicked (demo_state (demo_working @ [EvSelect, EvCollect] @ demo_ending))"
  by (rule closed_channel_needs_update [OF demo_select_run demo_ending_run(1)]) (simp add: demo_ending_def)

text \<open>
  The update can overlap the teardown.  \<open>stopTarget\<close> takes the capture out of the map before it
  waits for it, so \<open>Run\<close>, stopped at that moment, neither sees it nor waits for it and closes
  the channel while the capture is in \<open>sendBatch\<close>; its \<open>select\<close> may take the send case, which
  panics and ends the agent process.
\<close>

theorem detach_race_panics:
  "\<exists>s. run_events demo_run_env demo_race (run_boot demo_run_env demo_assignment) = Some s \<and> r_panicked s"
  by (simp add: demo_race_def demo_run_simps)

end
