(* ===== verification/Hub_Watch.thy ===== *)
theory Hub_Watch imports Session_Facts begin

text \<open>
  \<open>pkg/hub/watch.go\<close> and \<open>buildAssignment\<close> of \<open>server.go\<close>: scheduling the agent of a node,
  live reconciliation of a running session with the cluster, and the loop that triggers it.
  What the code takes from outside is gathered in \<open>hub_env\<close>: the libraries, the image
  reference, the cluster (whose calls see whether their context is already done), the UUID
  source, the order in which a Go map is ranged over, and what the other goroutines do to the
  session while \<open>ensureNodeAgent\<close> has released \<open>reconcileMu\<close> to wait for a pod.
\<close>

record ('re, 'w) hub_env =
  he_lib :: "'re ext_lib"
  he_image_ref :: string
  he_kube :: "bool \<Rightarrow> 'w kube"
  he_manager :: manager
  he_uuid :: "'w \<Rightarrow> string \<times> 'w"
  he_order :: "string list \<Rightarrow> string list"
  he_others :: "session \<Rightarrow> 'w \<Rightarrow> session \<times> 'w"

section \<open>Assignments\<close>

definition build_assignment :: "string \<Rightarrow> node_group \<Rightarrow> spec \<Rightarrow> string \<Rightarrow> agent_assignment" where
  "build_assignment sid grp sp streamID =
     \<lparr>as_session_id = sid, as_node = ng_node grp, as_stream_id = streamID,
      as_targets = map (\<lambda>pod. \<lparr>tg_pod = Some pod, tg_interfaces = [],
        tg_bpf_filter = sp_bpf_filter sp, tg_tls_mode = sp_tls_mode sp,
        tg_snaplen = sp_snaplen sp\<rparr>) (ng_targets grp)\<rparr>"

definition targets_from_assignment :: "agent_assignment \<Rightarrow> pod_ref option list" where
  "targets_from_assignment a = map tg_pod (as_targets a)"

definition target_uid :: "target \<Rightarrow> string" where
  "target_uid t = pr_uid (deref_pod (tg_pod t))"

definition assignment_targets_equal :: "agent_assignment option \<Rightarrow> node_group \<Rightarrow> bool" where
  "assignment_targets_equal assignment grp =
     (case assignment of
        None \<Rightarrow> False
      | Some a \<Rightarrow>
          if length (as_targets a) \<noteq> length (ng_targets grp) then False
          else list_all (\<lambda>p. pr_uid p \<in> set (map target_uid (as_targets a))) (ng_targets grp))"

fun emit_attach_loop :: "string \<Rightarrow> string set \<Rightarrow> pod_ref list \<Rightarrow> session \<Rightarrow> session" where
  "emit_attach_loop sid had [] s = s"
| "emit_attach_loop sid had (pod # pods) s =
     (if pr_uid pod \<in> had then emit_attach_loop sid had pods s
      else emit_attach_loop sid had pods
        (emit (session_event_of sid Severity_Info (MsgMatched (pr_name pod) (pr_node pod))
                 (PodAttached (Some pod))) s))"

definition emit_new_attaches ::
    "string \<Rightarrow> agent_assignment option \<Rightarrow> node_group \<Rightarrow> session \<Rightarrow> session" where
  "emit_new_attaches sid prev grp s =
     emit_attach_loop sid
       (case prev of None \<Rightarrow> {}
        | Some a \<Rightarrow> set (filter (\<lambda>uid. uid \<noteq> []) (map target_uid (as_targets a))))
       (ng_targets grp) s"

definition remaining_active_deadline :: "int \<Rightarrow> int option \<Rightarrow> int \<Rightarrow> int" where
  "remaining_active_deadline duration createdAt now =
     (if duration \<le> 0 then 0
      else case createdAt of
        None \<Rightarrow> duration
      | Some c \<Rightarrow> let left = duration - (now - c) in if left \<le> 0 then 0 else left)"

section \<open>One node\<close>

definition agent_event ::
    "string \<Rightarrow> message \<Rightarrow> string \<Rightarrow> string \<Rightarrow> agent_phase \<Rightarrow> pod_ref option list \<Rightarrow> session_event" where
  "agent_event sid msg node agentPod phase targets =
     session_event_of sid Severity_Info msg
       (AgentStateEvent \<lparr>asc_node = node, asc_agent_pod = agentPod, asc_phase = phase,
          asc_targets = targets\<rparr>)"

definition abandon_node_agent ::
    "('re, 'w) hub_env \<Rightarrow> string \<Rightarrow> session \<Rightarrow> 'w \<Rightarrow> session \<times> 'w" where
  "abandon_node_agent E node s w =
     (case delete_agent_on_node (he_lib E) (he_kube E (ss_ctx_done s)) (he_manager E) (ss_id s) node w of
        (_, w1) \<Rightarrow> (remove_agent node s, w1))"

definition create_and_wait ::
    "('re, 'w) hub_env \<Rightarrow> spec \<Rightarrow> node_group \<Rightarrow> session \<Rightarrow> 'w \<Rightarrow> hub_error option \<times> session \<times> 'w" where
  "create_and_wait E sp grp s w =
     (let sid = ss_id s; node = ng_node grp; K = he_kube E (ss_ctx_done s) in
      case he_uuid E w of
        (requestedStreamID, w0) \<Rightarrow>
      case create_for_node (he_lib E) (he_image_ref E) K (he_manager E) sid node
             \<lparr>op_active_deadline = remaining_active_deadline (sp_duration sp)
                 (sn_created_at (ss_proto s)) (ss_clock s),
              op_stream_id = requestedStreamID\<rparr> w0 of
        (Inl e, w1) \<Rightarrow> (Some (AgentErr e), s, w1)
      | (Inr pod, w1) \<Rightarrow>
          (case stream_id_from_pod (Some pod) of
             Inl e \<Rightarrow> (Some (StreamIdErr e), s, w1)
           | Inr streamID \<Rightarrow>
               (let assignment = build_assignment sid grp sp streamID;
                    s1 = record_agent node (kp_name pod) streamID assignment s;
                    s2 = emit (agent_event sid (MsgScheduling (kp_name pod) node) node (kp_name pod)
                                 Agent_Scheduling (targets_from_assignment assignment)) s1 in
                case he_others E s2 w1 of
                  (s3, w2) \<Rightarrow>
                (case wait_ready (he_kube E (ss_ctx_done s3)) (he_manager E) None (Some pod) w2 of
                   (Some e, w3) \<Rightarrow>
                     (case abandon_node_agent E node s3 w3 of
                        (s4, w4) \<Rightarrow> (Some (WaitForAgent node e), s4, w4))
                 | (None, w3) \<Rightarrow>
                     if \<not> sessionScheduling (ss_state s3) then
                       (case abandon_node_agent E node s3 w3 of
                          (s4, w4) \<Rightarrow> (Some (StoppedWhileWaiting node), s4, w4))
                     else
                       (None,
                        emit_new_attaches sid None grp
                          (emit (agent_event sid (MsgReady (kp_name pod) node) node (kp_name pod)
                                   Agent_Ready (targets_from_assignment assignment)) s3),
                        w3)))))"

definition schedule_node_agent ::
    "('re, 'w) hub_env \<Rightarrow> spec \<Rightarrow> node_group \<Rightarrow> session \<Rightarrow> 'w \<Rightarrow> hub_error option \<times> session \<times> 'w" where
  "schedule_node_agent E sp grp s w =
     (if ss_ctx_done s then (Some ContextEnded, s, w)
      else if \<not> sessionScheduling (ss_state s) then (Some SessionNotActive, s, w)
      else case begin_ensure (ng_node grp) s of
        (False, s1) \<Rightarrow> (None, s1, w)
      | (True, s1) \<Rightarrow>
          (case create_and_wait E sp grp s1 w of
             (r, s2, w2) \<Rightarrow> (r, end_ensure (ng_node grp) s2, w2)))"

definition ensure_node_agent ::
    "('re, 'w) hub_env \<Rightarrow> spec \<Rightarrow> node_group \<Rightarrow> session \<Rightarrow> 'w \<Rightarrow> hub_error option \<times> session \<times> 'w" where
  "ensure_node_agent E sp grp s w =
     (let sid = ss_id s; node = ng_node grp in
      case agent_on_node (he_lib E) (he_kube E (ss_ctx_done s)) (he_manager E) sid node w of
        (Inl e, w1) \<Rightarrow> (Some (AgentErr e), s, w1)
      | (Inr None, w1) \<Rightarrow> schedule_node_agent E sp grp (remove_agent node s) w1
      | (Inr (Some _), w1) \<Rightarrow>
          (case assignment_for_node node s of
             None \<Rightarrow> schedule_node_agent E sp grp s w1
           | Some existing \<Rightarrow>
               if assignment_targets_equal (Some existing) grp then (None, s, w1)
               else
                 let updated = build_assignment sid grp sp (as_stream_id existing);
                     s1 = update_assignment node updated s;
                     s2 = emit (agent_event sid (MsgTargetsUpdated node) node [] Agent_Capturing
                                  (targets_from_assignment updated)) s1 in
                 (None, emit_new_attaches sid (Some existing) grp s2, w1)))"

definition remove_node_agent ::
    "('re, 'w) hub_env \<Rightarrow> string \<Rightarrow> session \<Rightarrow> 'w \<Rightarrow> hub_error option \<times> session \<times> 'w" where
  "remove_node_agent E node s w =
     (if assignment_for_node node s = None then (None, s, w)
      else
        let sid = ss_id s;
            agentPod = (case map_of (ss_agents s) node of None \<Rightarrow> [] | Some rec \<Rightarrow> ar_pod_name rec);
            s1 = emit (agent_event sid (MsgRemoving node) node agentPod Agent_Terminating []) s in
        case delete_agent_on_node (he_lib E) (he_kube E (ss_ctx_done s1)) (he_manager E) sid node w of
          (err, w1) \<Rightarrow>
            (case err of
               Some e \<Rightarrow>
                 if \<not> ss_ctx_done s1 then (Some (AgentErr e), s1, w1)
                 else (None, emit (agent_event sid (MsgGone node) node agentPod Agent_Gone [])
                               (remove_agent node s1), w1)
             | None \<Rightarrow>
                 (None, emit (agent_event sid (MsgGone node) node agentPod Agent_Gone [])
                    (remove_agent node s1), w1)))"

section \<open>Reconciling\<close>

definition desired_uids :: "node_group list \<Rightarrow> string set" where
  "desired_uids groups = set (concat (map (\<lambda>g. map pr_uid (ng_targets g)) groups))"

fun emit_detached :: "string \<Rightarrow> string set \<Rightarrow> (string, pod_ref) gomap \<Rightarrow> string list \<Rightarrow> session \<Rightarrow> session"
  where
  "emit_detached sid desired current [] s = s"
| "emit_detached sid desired current (uid # uids) s =
     emit_detached sid desired current uids
       (case map_of current uid of
          None \<Rightarrow> s
        | Some ref \<Rightarrow>
            if uid \<in> desired then s
            else emit (session_event_of sid Severity_Info (MsgDetached (pr_name ref) (pr_node ref))
                         (PodDetached ref ''no longer matching or running'')) s)"

text \<open>\<open>desired\<close> is a map filled group by group, so a later group of the same node wins.\<close>

definition desired_group :: "node_group list \<Rightarrow> string \<Rightarrow> node_group option" where
  "desired_group groups node = find (\<lambda>g. ng_node g = node) (rev groups)"

definition live_update_failed :: "string \<Rightarrow> string \<Rightarrow> hub_error \<Rightarrow> session_event" where
  "live_update_failed sid node e =
     session_event_of sid Severity_Warning (MsgLiveUpdate node e)
       (ErrorEvent (empty_error\<lparr>ce_stage := Stage_Agent_Scheduling, ce_reason := Reason_Internal,
          ce_detail := MsgErr e, ce_retryable := True, ce_node := node\<rparr>))"

text \<open>The loop over the nodes; \<open>True\<close> when it was left early because the session ended.\<close>

fun reconcile_nodes ::
    "('re, 'w) hub_env \<Rightarrow> spec \<Rightarrow> node_group list \<Rightarrow> string list \<Rightarrow> session \<Rightarrow> 'w
       \<Rightarrow> bool \<times> session \<times> 'w" where
  "reconcile_nodes E sp groups [] s w = (False, s, w)"
| "reconcile_nodes E sp groups (node # nodes) s w =
     (case desired_group groups node of
        None \<Rightarrow>
          (case remove_node_agent E node s w of
             (_, s1, w1) \<Rightarrow> reconcile_nodes E sp groups nodes s1 w1)
      | Some grp \<Rightarrow>
          if ng_targets grp = [] then
            (case remove_node_agent E node s w of
               (_, s1, w1) \<Rightarrow> reconcile_nodes E sp groups nodes s1 w1)
          else
            (case ensure_node_agent E sp grp s w of
               (None, s1, w1) \<Rightarrow> reconcile_nodes E sp groups nodes s1 w1
             | (Some e, s1, w1) \<Rightarrow>
                 if ss_ctx_done s1 then (True, s1, w1)
                 else reconcile_nodes E sp groups nodes
                        (emit (live_update_failed (ss_id s1) node e) s1) w1))"

definition reconcile_groups ::
    "('re, 'w) hub_env \<Rightarrow> spec \<Rightarrow> node_group list \<Rightarrow> session \<Rightarrow> 'w \<Rightarrow> session \<times> 'w" where
  "reconcile_groups E sp groups s w =
     (let current = current_targets s;
          s1 = emit_detached (ss_id s) (desired_uids groups) current
                 (he_order E (keys current)) s;
          nodes = remdups (map ng_node groups @ agent_nodes s1) in
      case reconcile_nodes E sp groups (he_order E nodes) s1 w of
        (True, s2, w2) \<Rightarrow> (s2, w2)
      | (False, s2, w2) \<Rightarrow> (set_nodes (map ng_node groups) s2, w2))"

definition reconcile_session ::
    "('re, 'w) hub_env \<Rightarrow> spec \<Rightarrow> session \<Rightarrow> 'w \<Rightarrow> session \<times> 'w" where
  "reconcile_session E sp s w =
     (if ss_state s \<noteq> Session_Running then (s, w)
      else case new_pod_matcher (he_lib E) sp of
        Inl e \<Rightarrow> (s, w)
      | Inr matcher \<Rightarrow>
          (case list_matching_pods (he_lib E) (he_kube E (ss_ctx_done s)) (sp_namespace sp)
                  (Some matcher) w of
             (Inl e, w1) \<Rightarrow> (s, w1)
           | (Inr pods, w1) \<Rightarrow>
               (case group_by_node pods of
                  (groups, skipped) \<Rightarrow> reconcile_groups E sp groups s w1)))"

section \<open>The loops\<close>

definition defaultWatchInterval :: int where "defaultWatchInterval = 1000000000"
definition defaultStatsInterval :: int where "defaultStatsInterval = 5000000000"

definition interval_or :: "int \<Rightarrow> int \<Rightarrow> int" where
  "interval_or dflt interval = (if interval \<le> 0 then dflt else interval)"

definition is_expired_watch :: "api_error option \<Rightarrow> bool" where
  "is_expired_watch obj =
     (case obj of None \<Rightarrow> False | Some e \<Rightarrow> ae_reason e = Api_Expired \<or> ae_reason e = Api_Gone)"

text \<open>
  What the select of \<open>watchPods\<close> can receive: the end of the session, a tick, the closing of
  the watch, an error event, or another event with the resource version of its object, if it
  has one.
\<close>

datatype watch_input =
    WatchDone | WatchTick | WatchChannelClosed
  | WatchErrorEvent "api_error option" | WatchObject "string option"

record watch_state =
  ws_open :: bool
  ws_rv :: string

text \<open>\<open>start rv\<close> says whether the API server accepts a watch from that version.\<close>

definition start_watch :: "(string \<Rightarrow> bool) \<Rightarrow> watch_state \<Rightarrow> watch_state" where
  "start_watch start st = st\<lparr>ws_open := start (ws_rv st)\<rparr>"

text \<open>One round: the new state and whether it reconciles; \<open>None\<close> to leave the loop.\<close>

definition watch_pods_step ::
    "(string \<Rightarrow> bool) \<Rightarrow> watch_input \<Rightarrow> watch_state \<Rightarrow> (watch_state \<times> bool) option" where
  "watch_pods_step start inp st =
     (case inp of
        WatchDone \<Rightarrow> None
      | WatchTick \<Rightarrow> Some (if \<not> ws_open st then start_watch start st else st, True)
      | WatchChannelClosed \<Rightarrow> Some (start_watch start st, True)
      | WatchErrorEvent obj \<Rightarrow>
          Some (start_watch start (if is_expired_watch obj then st\<lparr>ws_rv := []\<rparr> else st), True)
      | WatchObject v \<Rightarrow>
          Some (case v of None \<Rightarrow> st | Some rv \<Rightarrow> if rv \<noteq> [] then st\<lparr>ws_rv := rv\<rparr> else st, True))"

text \<open>\<open>watchPods\<close> over a sequence of inputs, with the session and the cluster.\<close>

fun watch_pods ::
    "('re, 'w) hub_env \<Rightarrow> spec \<Rightarrow> (string \<Rightarrow> bool) \<Rightarrow> watch_input list \<Rightarrow> watch_state \<Rightarrow> session \<Rightarrow> 'w
       \<Rightarrow> session \<times> 'w" where
  "watch_pods E sp start [] st s w = (s, w)"
| "watch_pods E sp start (inp # inps) st s w =
     (case watch_pods_step start inp st of
        None \<Rightarrow> (s, w)
      | Some (st', rec) \<Rightarrow>
          (case (if rec then reconcile_session E sp s w else (s, w)) of
             (s1, w1) \<Rightarrow> watch_pods E sp start inps st' s1 w1))"

text \<open>\<open>runStats\<close>: \<open>True\<close> for a tick, \<open>False\<close> for the end of the session.\<close>

fun run_stats :: "bool list \<Rightarrow> session \<Rightarrow> session" where
  "run_stats [] s = s"
| "run_stats (True # ticks) s = run_stats ticks (emit_stats s)"
| "run_stats (False # ticks) s = s"

section \<open>Every path is made of the session's critical sections\<close>

text \<open>What is needed of the other goroutines: they only run critical sections too.\<close>

definition others_ok :: "('re, 'w) hub_env \<Rightarrow> bool" where
  "others_ok E \<longleftrightarrow> (\<forall>s w. session_op\<^sup>*\<^sup>* s (fst (he_others E s w)) \<and>
     ss_id (fst (he_others E s w)) = ss_id s)"

lemma ops1: "session_op s t \<Longrightarrow> session_op\<^sup>*\<^sup>* s t"
  by (rule r_into_rtranclp)

lemma ops_snoc: "session_op\<^sup>*\<^sup>* s t \<Longrightarrow> session_op t u \<Longrightarrow> session_op\<^sup>*\<^sup>* s u"
  by (rule rtranclp.rtrancl_into_rtrancl)

lemma ops_cons: "session_op s t \<Longrightarrow> session_op\<^sup>*\<^sup>* t u \<Longrightarrow> session_op\<^sup>*\<^sup>* s u"
  by (rule converse_rtranclp_into_rtranclp)

lemma ops_trans: "session_op\<^sup>*\<^sup>* s t \<Longrightarrow> session_op\<^sup>*\<^sup>* t u \<Longrightarrow> session_op\<^sup>*\<^sup>* s u"
  by (rule rtranclp_trans)

lemma emit_attach_loop_ops: "session_op\<^sup>*\<^sup>* s (emit_attach_loop sid had pods s)"
  by (induction pods arbitrary: s)
    (auto intro: ops_cons [OF op_emit])

lemma emit_new_attaches_ops: "session_op\<^sup>*\<^sup>* s (emit_new_attaches sid prev grp s)"
  by (simp add: emit_new_attaches_def emit_attach_loop_ops)

lemma emit_detached_ops: "session_op\<^sup>*\<^sup>* s (emit_detached sid desired current uids s)"
  by (induction uids arbitrary: s)
    (auto split: option.split intro: ops_cons [OF op_emit])

lemma build_assignment_simps [simp]:
  "as_session_id (build_assignment sid grp sp str) = sid"
  "as_node (build_assignment sid grp sp str) = ng_node grp"
  "as_stream_id (build_assignment sid grp sp str) = str"
  "map target_uid (as_targets (build_assignment sid grp sp str)) = map pr_uid (ng_targets grp)"
  by (simp_all add: build_assignment_def target_uid_def comp_def)

lemma abandon_ops:
  assumes "abandon_node_agent E node s w = (t, w')"
  shows "session_op\<^sup>*\<^sup>* s t"
  using assms by (auto simp: abandon_node_agent_def split: prod.splits intro: ops1 op_remove_agent)

lemma create_and_wait_ops:
  assumes "others_ok E" and "create_and_wait E sp grp s w = (r, t, w')"
  shows "session_op\<^sup>*\<^sup>* s t"
proof -
  let ?node = "ng_node grp"
  have rec: "session_op\<^sup>*\<^sup>* s (emit ev (record_agent ?node pod str
      (build_assignment (ss_id s) grp sp str) s))" for ev pod str
    by (rule ops_snoc [OF ops1 op_emit], rule op_record_agent) simp_all
  have others: "session_op\<^sup>*\<^sup>* s u" if "session_op\<^sup>*\<^sup>* s v" "he_others E v x = (u, y)" for u v x y
  proof -
    have "session_op\<^sup>*\<^sup>* v u" using assms(1) that(2) unfolding others_ok_def by (metis fst_conv)
    with that(1) show ?thesis by (rule ops_trans)
  qed
  have ready: "session_op\<^sup>*\<^sup>* s (emit_new_attaches sid None grp (emit ev u))"
    if "session_op\<^sup>*\<^sup>* s u" for u sid ev
    by (rule ops_trans [OF ops_snoc [OF that op_emit] emit_new_attaches_ops])
  have abandon: "session_op\<^sup>*\<^sup>* s v" if "session_op\<^sup>*\<^sup>* s u" "abandon_node_agent E n u x = (v, y)"
    for u v n x y
    by (rule ops_trans [OF that(1) abandon_ops [OF that(2)]])
  show ?thesis
    using assms(2)
    by (auto simp: create_and_wait_def Let_def
        split: prod.splits sum.splits option.splits if_splits
        intro: ready abandon others [OF rec])
qed

lemma begin_ensure_op: "begin_ensure node s = (b, t) \<Longrightarrow> session_op\<^sup>*\<^sup>* s t"
  using op_begin_ensure [of s node] by auto

lemma schedule_ops:
  assumes "others_ok E" and "schedule_node_agent E sp grp s w = (r, t, w')"
  shows "session_op\<^sup>*\<^sup>* s t"
  using assms(2)
  by (auto simp: schedule_node_agent_def split: if_splits prod.splits bool.splits
      intro: begin_ensure_op
        ops_snoc [OF ops_trans [OF begin_ensure_op create_and_wait_ops [OF assms(1)]] op_end_ensure])

lemma update_targets_ops:
  assumes "assignment_for_node (ng_node grp) s = Some existing"
  shows "session_op\<^sup>*\<^sup>* s (emit_new_attaches sid (Some existing) grp (emit ev
     (update_assignment (ng_node grp) (build_assignment (ss_id s) grp sp (as_stream_id existing)) s)))"
proof -
  have "session_op s (update_assignment (ng_node grp)
      (build_assignment (ss_id s) grp sp (as_stream_id existing)) s)"
    using assms by (intro op_update_assignment) (auto simp: assignment_for_node_def)
  then show ?thesis
    by (intro ops_trans [OF ops_snoc [OF ops1 op_emit] emit_new_attaches_ops])
qed

lemma ensure_ops:
  assumes "others_ok E" and "ensure_node_agent E sp grp s w = (r, t, w')"
  shows "session_op\<^sup>*\<^sup>* s t"
  using assms(2)
  by (auto simp: ensure_node_agent_def Let_def
      split: if_splits prod.splits sum.splits option.splits
      intro: schedule_ops [OF assms(1)] update_targets_ops
        ops_cons [OF op_remove_agent schedule_ops [OF assms(1)]])

lemma remove_node_agent_ops:
  assumes "remove_node_agent E node s w = (r, t, w')"
  shows "session_op\<^sup>*\<^sup>* s t"
  using assms
  by (auto simp: remove_node_agent_def Let_def
      split: if_splits prod.splits option.splits
      intro: ops1 [OF op_emit] ops_snoc [OF ops_snoc [OF ops1 [OF op_emit] op_remove_agent] op_emit])

lemma reconcile_nodes_ops:
  "others_ok E \<Longrightarrow> reconcile_nodes E sp groups nodes s w = (b, t, w') \<Longrightarrow> session_op\<^sup>*\<^sup>* s t"
proof (induction nodes arbitrary: s w)
  case (Cons node nodes)
  note IH = Cons.IH [OF Cons.prems(1)]
  have step: "session_op\<^sup>*\<^sup>* s t" if "session_op\<^sup>*\<^sup>* s u"
    "reconcile_nodes E sp groups nodes u x = (b, t, w')" for u x
    by (rule ops_trans [OF that(1) IH [OF that(2)]])
  from Cons.prems(2) show ?case
    by (auto split: option.splits prod.splits if_splits
        intro: step remove_node_agent_ops ensure_ops [OF Cons.prems(1)]
          ops_snoc [OF ensure_ops [OF Cons.prems(1)] op_emit])
qed simp

lemma reconcile_groups_ops:
  assumes "others_ok E" and "reconcile_groups E sp groups s w = (t, w')"
  shows "session_op\<^sup>*\<^sup>* s t"
  using assms(2)
  by (auto simp: reconcile_groups_def Let_def split: prod.splits bool.splits
      intro: ops_trans [OF emit_detached_ops reconcile_nodes_ops [OF assms(1)]]
        ops_snoc [OF ops_trans [OF emit_detached_ops reconcile_nodes_ops [OF assms(1)]] op_set_nodes])

lemma reconcile_session_ops:
  assumes "others_ok E" and "reconcile_session E sp s w = (t, w')"
  shows "session_op\<^sup>*\<^sup>* s t"
  using assms(2)
  by (auto simp: reconcile_session_def split: if_splits sum.splits prod.splits
      intro: reconcile_groups_ops [OF assms(1)])

lemma watch_pods_ops:
  "others_ok E \<Longrightarrow> watch_pods E sp start inps st s w = (t, w') \<Longrightarrow> session_op\<^sup>*\<^sup>* s t"
proof (induction inps arbitrary: st s w)
  case (Cons inp inps)
  have step: "session_op\<^sup>*\<^sup>* s t"
    if "reconcile_session E sp s w = (u, x)" "watch_pods E sp start inps st' u x = (t, w')" for u x st'
    by (rule ops_trans [OF reconcile_session_ops [OF Cons.prems(1) that(1)]
          Cons.IH [OF Cons.prems(1) that(2)]])
  from Cons.prems(2) Cons.IH [OF Cons.prems(1)] show ?case
    by (auto split: option.splits prod.splits if_splits intro: step)
qed simp

section \<open>Properties\<close>

text \<open>
  C22. Whatever events the watch delivers, whatever the cluster answers and whatever the other
  goroutines do during the waits, live following keeps the session consistent: agents and
  assignments are on the same nodes, every assignment carries its node's stream id and the
  session's id, and the counters stay keyed by pod.
\<close>

theorem watch_pods_keeps_session:
  assumes "others_ok E" and "session_op\<^sup>*\<^sup>* (new_session_state now sid csp) s"
    and "watch_pods E sp start inps st s w = (t, w')"
  shows "session_ok t"
  by (rule session_reachable_ok [OF ops_trans [OF assms(2) watch_pods_ops [OF assms(1,3)]]])

lemma assignment_targets_equal_uids:
  assumes "assignment_targets_equal (Some a) grp" and "distinct (map pr_uid (ng_targets grp))"
  shows "set (map target_uid (as_targets a)) = pr_uid ` set (ng_targets grp)"
proof -
  let ?A = "set (map target_uid (as_targets a))" and ?U = "pr_uid ` set (ng_targets grp)"
  from assms(1) have len: "length (as_targets a) = length (ng_targets grp)" and sub: "?U \<subseteq> ?A"
    by (auto simp: assignment_targets_equal_def list_all_iff split: if_splits)
  have "card ?U = length (ng_targets grp)"
    using distinct_card [OF assms(2)] by simp
  moreover have "card ?A \<le> length (as_targets a)" using card_length [of "map target_uid (as_targets a)"] by simp
  ultimately show ?thesis
    using len sub by (metis List.finite_set card_seteq)
qed

lemma emit_attach_loop_simps [simp]:
  "ss_proto (emit_attach_loop sid had pods s) = ss_proto s"
  "ss_agents (emit_attach_loop sid had pods s) = ss_agents s"
  "ss_assigns (emit_attach_loop sid had pods s) = ss_assigns s"
  "ss_ensuring (emit_attach_loop sid had pods s) = ss_ensuring s"
  "ss_clock (emit_attach_loop sid had pods s) = ss_clock s"
  "ss_ctx_done (emit_attach_loop sid had pods s) = ss_ctx_done s"
  by (induction pods arbitrary: s) simp_all

lemma emit_new_attaches_simps [simp]:
  "ss_proto (emit_new_attaches sid prev grp s) = ss_proto s"
  "ss_agents (emit_new_attaches sid prev grp s) = ss_agents s"
  "ss_assigns (emit_new_attaches sid prev grp s) = ss_assigns s"
  "ss_ensuring (emit_new_attaches sid prev grp s) = ss_ensuring s"
  by (simp_all add: emit_new_attaches_def)

lemma assigns_simps [simp]:
  "map_of (ss_assigns (record_agent node pod sid a s)) node = Some a"
  "map_of (ss_assigns (update_assignment node a s)) node = Some a"
  "map_of (ss_agents (remove_agent node s)) node = None"
  "map_of (ss_assigns (remove_agent node s)) node = None"
  "ss_proto (record_agent node pod sid a s) = ss_proto s"
  "ss_ensuring (record_agent node pod sid a s) = ss_ensuring s"
  "ss_ensuring (update_assignment node a s) = ss_ensuring s"
  "ss_ensuring (remove_agent node s) = ss_ensuring s"
  "ss_assigns (end_ensure node s) = ss_assigns s"
  "ss_agents (end_ensure node s) = ss_agents s"
  by (simp_all add: record_agent_def update_assignment_def notify_assign_locked_def remove_agent_def
      end_ensure_def Let_def)

definition covers :: "session \<Rightarrow> node_group \<Rightarrow> bool" where
  "covers s grp \<longleftrightarrow> (\<exists>a. map_of (ss_assigns s) (ng_node grp) = Some a \<and>
     set (map target_uid (as_targets a)) = pr_uid ` set (ng_targets grp))"

lemma covers_build:
  assumes "map_of (ss_assigns s) (ng_node grp) = Some (build_assignment sid grp sp str)"
  shows "covers s grp"
proof -
  have "set (map target_uid (as_targets (build_assignment sid grp sp str))) =
      pr_uid ` set (ng_targets grp)"
    unfolding build_assignment_simps by simp
  with assms show ?thesis unfolding covers_def by blast
qed

lemma covers_equal:
  assumes "map_of (ss_assigns s) (ng_node grp) = Some a" and "assignment_targets_equal (Some a) grp"
    and "distinct (map pr_uid (ng_targets grp))"
  shows "covers s grp"
  unfolding covers_def using assignment_targets_equal_uids [OF assms(2,3)] assms(1) by blast

definition undisturbed :: "('re, 'w) hub_env \<Rightarrow> bool" where
  "undisturbed E \<longleftrightarrow> (\<forall>s w. fst (he_others E s w) = s)"

lemma create_and_wait_covers:
  assumes "undisturbed E" and "create_and_wait E sp grp s w = (None, t, w')"
  shows "covers t grp"
proof -
  have *: "u = s" if "he_others E s x = (u, y)" for s x u y
    using assms(1) that unfolding undisturbed_def by (metis fst_conv)
  from assms(2) show ?thesis
    by (auto simp: create_and_wait_def Let_def
        split: prod.splits sum.splits option.splits if_splits dest!: * intro!: covers_build)
qed

text \<open>
  C21. Scheduling a node succeeds only with the node covered: if \<open>ensureNodeAgent\<close> returns nil,
  was not already running for that node, and nobody else touched the session during its wait,
  then the node has an assignment whose targets are exactly the group's pods.
\<close>

theorem ensure_node_agent_covers:
  assumes "ensure_node_agent E sp grp s w = (None, t, w')" and "undisturbed E"
    and "ng_node grp \<notin> set (ss_ensuring s)" and "distinct (map pr_uid (ng_targets grp))"
  shows "covers t grp"
proof -
  have sched: "covers t grp"
    if "schedule_node_agent E sp grp u x = (None, t, w')" "ng_node grp \<notin> set (ss_ensuring u)" for u x
    using that
    by (auto simp: schedule_node_agent_def begin_ensure_def covers_def
        split: if_splits prod.splits
        dest!: create_and_wait_covers [OF assms(2)])
  from assms(1,3) show ?thesis
    by (auto simp: ensure_node_agent_def Let_def assignment_for_node_def
        split: prod.splits sum.splits option.splits if_splits
        intro: sched covers_build covers_equal [OF _ _ assms(4)])
qed

text \<open>
  A failed wait leaves nothing behind: when \<open>ensureNodeAgent\<close> gives up after creating the
  pod (not ready, or the session left scheduling meanwhile), the session has neither an agent
  nor an assignment for the node, whatever the other goroutines did during the wait.
\<close>

theorem failed_wait_leaves_no_agent:
  assumes "create_and_wait E sp grp s w = (Some e, t, w')"
    and "e = WaitForAgent (ng_node grp) le \<or> e = StoppedWhileWaiting (ng_node grp)"
  shows "map_of (ss_agents t) (ng_node grp) = None \<and> map_of (ss_assigns t) (ng_node grp) = None"
  using assms
  by (auto simp: create_and_wait_def Let_def abandon_node_agent_def
      split: prod.splits sum.splits option.splits if_splits)

text \<open>
  Removing a node works or says so: when \<open>removeNodeAgent\<close> returns nil the session has no
  agent and no assignment for the node.
\<close>

theorem remove_node_agent_removes:
  assumes "session_op\<^sup>*\<^sup>* (new_session_state now sid csp) s"
    and "remove_node_agent E node s w = (None, t, w')"
  shows "map_of (ss_agents t) node = None \<and> map_of (ss_assigns t) node = None"
proof -
  have "(map_of (ss_agents s) node = None) = (map_of (ss_assigns s) node = None)"
    using session_reachable_ok [OF assms(1)] unfolding session_ok_def by blast
  with assms(2) show ?thesis
    by (auto simp: remove_node_agent_def Let_def assignment_for_node_def
        split: prod.splits option.splits if_splits)
qed

text \<open>The events of an attach or a detach loop, stamped with the session's clock.\<close>

definition stamped :: "session \<Rightarrow> session_event \<Rightarrow> session_event" where
  "stamped s ev = ev\<lparr>se_timestamp := Some (ss_clock s)\<rparr>"

lemma emit_event_of:
  assumes "\<not> el_closed (ss_events s)"
  shows "el_events (ss_events (emit (session_event_of sid sev m p) s)) =
    el_events (ss_events s) @ [stamped s (session_event_of sid sev m p)]"
  using assms by (simp add: emit_events stamped_def session_event_of_def)

definition detach_event :: "string \<Rightarrow> pod_ref \<Rightarrow> session_event" where
  "detach_event sid ref = session_event_of sid Severity_Info
     (MsgDetached (pr_name ref) (pr_node ref)) (PodDetached ref ''no longer matching or running'')"

definition attach_event :: "string \<Rightarrow> pod_ref \<Rightarrow> session_event" where
  "attach_event sid pod = session_event_of sid Severity_Info
     (MsgMatched (pr_name pod) (pr_node pod)) (PodAttached (Some pod))"

lemma emit_clock [simp]: "ss_clock (emit ev s) = ss_clock s"
  by simp

lemma stamped_emit [simp]: "stamped (emit ev s) = stamped s"
  by (simp add: stamped_def fun_eq_iff)

lemma emit_attach_loop_events:
  "\<not> el_closed (ss_events s) \<Longrightarrow>
   el_events (ss_events (emit_attach_loop sid had pods s)) = el_events (ss_events s) @
     map (\<lambda>p. stamped s (attach_event sid p)) (filter (\<lambda>p. pr_uid p \<notin> had) pods)"
  by (induction pods arbitrary: s) (simp_all add: emit_event_of attach_event_def emit_events(2))

lemma emit_detached_events:
  "\<not> el_closed (ss_events s) \<Longrightarrow> set uids \<subseteq> set (keys current) \<Longrightarrow>
   el_events (ss_events (emit_detached sid desired current uids s)) = el_events (ss_events s) @
     map (\<lambda>uid. stamped s (detach_event sid (the (map_of current uid))))
       (filter (\<lambda>uid. uid \<notin> desired) uids)"
proof (induction uids arbitrary: s)
  case (Cons uid uids)
  then obtain ref where "map_of current uid = Some ref"
    by (metis insert_subset list.simps(15) map_of_keys_None not_None_eq)
  with Cons show ?case by (simp add: emit_event_of detach_event_def emit_events(2))
qed simp

text \<open>
  Attach and detach events are exact: an update of a node reports, in order and once each,
  the pods whose UID the previous assignment did not have; a reconciliation reports as
  detached, in the order the map is ranged over, exactly the current targets whose UID is no
  longer desired.
\<close>

theorem attach_detach_events_exact:
  assumes "\<not> el_closed (ss_events s)" and "set uids \<subseteq> set (keys current)"
  shows "el_events (ss_events (emit_new_attaches sid (Some a) grp s)) = el_events (ss_events s) @
      map (\<lambda>p. stamped s (attach_event sid p))
        (filter (\<lambda>p. pr_uid p = [] \<or> pr_uid p \<notin> set (map target_uid (as_targets a))) (ng_targets grp)) \<and>
    el_events (ss_events (emit_detached sid desired current uids s)) = el_events (ss_events s) @
      map (\<lambda>uid. stamped s (detach_event sid (the (map_of current uid))))
        (filter (\<lambda>uid. uid \<notin> desired) uids)"
  using emit_detached_events [OF assms] emit_attach_loop_events [OF assms(1)]
  by (simp add: emit_new_attaches_def disj_commute)

text \<open>
  C40. The deadline given to an agent never exceeds the session's duration, nor what is left of
  it; but once nothing is left the value is zero, which the manifest reads as no deadline.
\<close>

theorem remaining_deadline_bounds:
  assumes "0 < d" and "c \<le> now"
  shows "0 \<le> remaining_active_deadline d (Some c) now \<and> remaining_active_deadline d (Some c) now \<le> d \<and>
    (now < c + d \<longrightarrow> now + remaining_active_deadline d (Some c) now = c + d) \<and>
    (c + d \<le> now \<longrightarrow> active_deadline_seconds (remaining_active_deadline d (Some c) now) = None)"
  using assms by (auto simp: remaining_active_deadline_def active_deadline_seconds_def Let_def)

text \<open>
  The watch loop never goes quiet: every input but the end of the session reconciles, a
  closed or failed watch is reopened at once and a missing one on the next tick, and an
  expired resource version is forgotten first.
\<close>

theorem watch_step_reconciles:
  "(inp = WatchDone \<longleftrightarrow> watch_pods_step start inp st = None) \<and>
   (\<forall>st' r. watch_pods_step start inp st = Some (st', r) \<longrightarrow> r \<and>
      (inp \<in> {WatchTick, WatchChannelClosed} \<longrightarrow> ws_open st' \<or> \<not> start (ws_rv st))) \<and>
   (\<forall>obj. inp = WatchErrorEvent obj \<longrightarrow> is_expired_watch obj \<longrightarrow>
      (\<exists>st'. watch_pods_step start inp st = Some (st', True) \<and> ws_rv st' = [] \<and>
        ws_open st' = start []))"
  by (cases inp) (auto simp: watch_pods_step_def start_watch_def)

section \<open>Examples\<close>

definition demo_wspec :: spec where
  "demo_wspec = demo_spec\<lparr>sp_duration := 1500000000\<rparr>"

definition demo_env :: "(string, demo_cluster) hub_env" where
  "demo_env = \<lparr>he_lib = demo_lib, he_image_ref = [], he_kube = (\<lambda>_. demo_kube),
     he_manager = demo_manager, he_uuid = (\<lambda>w. (''str1'', w)), he_order = id,
     he_others = (\<lambda>s w. (s, w))\<rparr>"

definition demo_group :: node_group where
  "demo_group = \<lparr>ng_node = ''n1'', ng_targets = [demo_ref]\<rparr>"

definition demo_starting :: session where
  "demo_starting = set_state Session_Starting None demo_new"

lemma demo_env_ok: "others_ok demo_env" "undisturbed demo_env"
  by (simp_all add: others_ok_def undisturbed_def demo_env_def)

lemma demo_list_empty: "k_list demo_kube ns sel demo_empty = (Inr [], demo_empty)"
  by (simp add: demo_kube_def demo_list_def demo_empty_def)

lemma demo_stream_id: "stream_id_from_pod (Some demo_created) = Inr ''str1''"
  by (simp add: demo_created_def demo_manifest_def pod_manifest_def demo_agent_config_defaults
      demo_agent_config_valid Let_def manifest_env_def env_value_def env_name_defs
      AgentContainerName_def)
    (simp add: demo_agent_config_def)

lemma demo_starting_simps:
  "ss_id demo_starting = ''s1''" "ss_state demo_starting = Session_Starting"
  "ss_ctx_done demo_starting = False" "ss_ensuring demo_starting = []"
  "sn_created_at (ss_proto demo_starting) = Some 0" "ss_clock demo_starting = 0"
  by (simp_all add: demo_starting_def demo_new_def new_session_state_def set_state_def)

lemma demo_create_and_wait:
  assumes "ss_id s = ''s1''" "ss_state s = Session_Starting" "ss_ctx_done s = False"
    "sn_created_at (ss_proto s) = Some 0" "ss_clock s = 0"
  shows "\<exists>t. create_and_wait demo_env demo_wspec demo_group s demo_empty = (None, t, demo_one)"
proof -
  have opts: "\<lparr>op_active_deadline = remaining_active_deadline (sp_duration demo_wspec) (Some 0) 0,
      op_stream_id = ''str1''\<rparr> = demo_opts"
    by (simp add: demo_opts_def remaining_active_deadline_def demo_wspec_def Let_def)
  show ?thesis
    using assms
    by (simp add: create_and_wait_def demo_env_def Let_def demo_group_def opts demo_create
        demo_stream_id demo_wait_ready sessionScheduling_def del: stream_id_from_pod.simps)
qed

lemma demo_ensure_ok:
  "\<exists>t. ensure_node_agent demo_env demo_wspec demo_group demo_starting demo_empty = (None, t, demo_one)"
proof -
  obtain s1 where b: "begin_ensure ''n1'' (remove_agent ''n1'' demo_starting) = (True, s1)"
    and s1: "ss_proto s1 = ss_proto (remove_agent ''n1'' demo_starting)"
      "ss_ctx_done s1 = False" "ss_clock s1 = 0"
    by (auto simp: begin_ensure_def remove_agent_def notify_assign_locked_def Let_def
        demo_starting_simps)
  have "\<exists>t. create_and_wait demo_env demo_wspec demo_group s1 demo_empty = (None, t, demo_one)"
    by (rule demo_create_and_wait)
      (simp_all add: s1 remove_agent_def notify_assign_locked_def Let_def demo_starting_simps)
  then obtain t where t:
    "create_and_wait demo_env demo_wspec demo_group s1 demo_empty = (None, t, demo_one)" ..
  have a: "agent_on_node (he_lib demo_env) (he_kube demo_env False) (he_manager demo_env)
      ''s1'' ''n1'' demo_empty = (Inr None, demo_empty)"
    by (simp add: demo_env_def agent_on_node_def demo_node_selector demo_list_empty)
  have r: "ss_ctx_done (remove_agent n demo_starting) = False"
    "ss_state (remove_agent n demo_starting) = Session_Starting" for n
    by (simp_all add: remove_agent_def notify_assign_locked_def Let_def demo_starting_simps)
  have n: "ng_node demo_group = ''n1''" by (simp add: demo_group_def)
  show ?thesis
    by (simp add: ensure_node_agent_def demo_starting_simps n a schedule_node_agent_def b t r
        sessionScheduling_def)
qed

theorem ensure_node_agent_covers_witness:
  "\<exists>t. ensure_node_agent demo_env demo_wspec demo_group demo_starting demo_empty = (None, t, demo_one)
     \<and> covers t demo_group"
proof -
  from demo_ensure_ok obtain t where t:
    "ensure_node_agent demo_env demo_wspec demo_group demo_starting demo_empty = (None, t, demo_one)" ..
  from ensure_node_agent_covers [OF t demo_env_ok(2)] t show ?thesis
    by (simp add: demo_starting_simps demo_group_def)
qed

lemma demo_new_run: "session_op\<^sup>*\<^sup>* (new_session_state 0 ''s1'' demo_capture_spec) demo_new"
  by (simp add: demo_new_def)

theorem watch_pods_keeps_session_witness:
  "session_ok (fst (watch_pods demo_env demo_wspec (\<lambda>_. True) [WatchTick, WatchObject None]
     \<lparr>ws_open = True, ws_rv = []\<rparr> demo_new demo_empty))"
  by (rule watch_pods_keeps_session [OF demo_env_ok(1) demo_new_run surjective_pairing])

text \<open>An agent whose pod the kubelet reports as failed.\<close>

definition demo_env_stopping :: "(string, demo_cluster) hub_env" where
  "demo_env_stopping = demo_env\<lparr>he_others := (\<lambda>s w. (set_state Session_Stopping None s, w))\<rparr>"

lemma demo_stopped_while_waiting:
  "\<exists>t w'. create_and_wait demo_env_stopping demo_wspec demo_group demo_starting demo_empty =
     (Some (StoppedWhileWaiting ''n1''), t, w')"
proof -
  have opts: "\<lparr>op_active_deadline = remaining_active_deadline (sp_duration demo_wspec) (Some 0) 0,
      op_stream_id = ''str1''\<rparr> = demo_opts"
    by (simp add: demo_opts_def remaining_active_deadline_def demo_wspec_def Let_def)
  show ?thesis
    by (simp add: create_and_wait_def demo_env_stopping_def demo_env_def Let_def demo_group_def opts
        demo_create demo_stream_id demo_wait_ready sessionScheduling_def demo_starting_simps
        del: stream_id_from_pod.simps split: prod.split)
qed

theorem failed_wait_leaves_no_agent_witness:
  "\<exists>t w'. create_and_wait demo_env_stopping demo_wspec demo_group demo_starting demo_empty =
     (Some (StoppedWhileWaiting ''n1''), t, w') \<and> map_of (ss_agents t) ''n1'' = None"
proof -
  from demo_stopped_while_waiting obtain t w' where t:
    "create_and_wait demo_env_stopping demo_wspec demo_group demo_starting demo_empty =
      (Some (StoppedWhileWaiting ''n1''), t, w')" by blast
  from failed_wait_leaves_no_agent [OF t, of undefined] t show ?thesis
    by (simp add: demo_group_def)
qed

theorem remove_node_agent_removes_witness:
  "\<exists>t w'. remove_node_agent demo_env ''n9'' demo_session demo_empty = (None, t, w') \<and>
     map_of (ss_agents t) ''n9'' = None"
proof -
  have "remove_node_agent demo_env ''n9'' demo_session demo_empty = (None, demo_session, demo_empty)"
    by (simp add: remove_node_agent_def assignment_for_node_def demo_session_simps)
  with remove_node_agent_removes [OF demo_session_reachable this] show ?thesis by blast
qed

theorem attach_detach_events_exact_witness:
  "el_events (ss_events (emit_detached ''s1'' {} [(''u1'', demo_ref)] [''u1''] demo_session)) =
     el_events (ss_events demo_session) @ [stamped demo_session (detach_event ''s1'' demo_ref)]"
proof -
  have "\<not> el_closed (ss_events demo_session)"
    by (simp add: demo_session_def record_agent_def notify_assign_locked_def demo_new_def
        new_session_state_def new_event_log_def)
  from attach_detach_events_exact [OF this, of "[''u1'']" "[(''u1'', demo_ref)]" "''s1''" demo_assignment
      demo_group "{}"] show ?thesis by simp
qed

theorem remaining_deadline_bounds_witness:
  "remaining_active_deadline 10 (Some 3) 5 = 8 \<and>
   active_deadline_seconds (remaining_active_deadline 10 (Some 3) 20) = None"
  using remaining_deadline_bounds [of 10 3 5] remaining_deadline_bounds [of 10 3 20] by auto

theorem watch_step_reconciles_witness:
  "watch_pods_step (\<lambda>_. True) WatchTick \<lparr>ws_open = False, ws_rv = ''7''\<rparr> =
     Some (\<lparr>ws_open = True, ws_rv = ''7''\<rparr>, True)"
proof -
  have s: "watch_pods_step (\<lambda>_. True) WatchTick \<lparr>ws_open = False, ws_rv = ''7''\<rparr> =
      Some (start_watch (\<lambda>_. True) \<lparr>ws_open = False, ws_rv = ''7''\<rparr>, True)"
    by (simp add: watch_pods_step_def)
  with watch_step_reconciles [of WatchTick "\<lambda>_. True" "\<lparr>ws_open = False, ws_rv = ''7''\<rparr>"]
  show ?thesis by (simp add: start_watch_def)
qed

end
