(* ===== verification/Hub_Server.thy ===== *)
theory Hub_Server imports Hub_Watch begin

text \<open>
  \<open>pkg/hub/server.go\<close> and \<open>hub.go\<close>: the handlers of the two gRPC services over the map of
  sessions.  A handler that runs to its end under the session's locks is a function of the
  session and the cluster; one that waits is a machine whose state says where it waits.  A
  gRPC status is its code with the reason its text gives.  \<open>reqDone\<close> is whether the request's
  context has ended, \<open>slow\<close> whether the packet drain ran into its timeout.
\<close>

section \<open>Statuses and the hub\<close>

datatype status_code =
  InvalidArgument | NotFound | Internal | PermissionDenied | FailedPrecondition

datatype status_reason =
    SpecInvalid "spec_error list"
  | SessionNotFound string
  | StopFailed lifecycle_error
  | AgentPodMismatch
  | AgentAssignmentErr hub_error
  | PacketSubscriberErr publish_error
  | SubscribePacketsErr publish_error
  | CaptureMetadataMismatch
  | CaptureStreamErr hub_error
  | CaptureIdentityChanged
  | CaptureBatchErr hub_error
  | CaptureCommitErr hub_error
  | StatusMetadataMismatch
  | AgentStatusErr hub_error
  | StatusPayloadRequired

datatype rpc_error =
    Status status_code status_reason
  | StreamContextEnded
  | StreamTransport

text \<open>
  A handler holds a pointer to its session, which outlives its entry in the hub's map: the
  sessions are in a store, and the map is the list of the live ones.
\<close>

record hub =
  hb_store :: "(string, session) gomap"
  hb_live :: "string list"

definition empty_hub :: hub where
  "empty_hub = \<lparr>hb_store = [], hb_live = []\<rparr>"

definition deref_session :: "string \<Rightarrow> hub \<Rightarrow> session option" where
  "deref_session sid h = map_of (hb_store h) sid"

definition store_session :: "session \<Rightarrow> hub \<Rightarrow> hub" where
  "store_session s h = h\<lparr>hb_store := AList.update (ss_id s) s (hb_store h)\<rparr>"

definition get_session :: "string \<Rightarrow> hub \<Rightarrow> session option" where
  "get_session sid h = (if sid \<in> set (hb_live h) then deref_session sid h else None)"

definition put_session :: "session \<Rightarrow> hub \<Rightarrow> hub" where
  "put_session s h = (store_session s h)\<lparr>hb_live := List.insert (ss_id s) (hb_live h)\<rparr>"

definition delete_session :: "string \<Rightarrow> hub \<Rightarrow> hub" where
  "delete_session sid h = h\<lparr>hb_live := filter (\<lambda>i. i \<noteq> sid) (hb_live h)\<rparr>"

datatype new_hub_error = KubernetesRequired | HubConfigInvalid "agent_config_error list"

definition new_hub ::
    "'re ext_lib \<Rightarrow> string \<Rightarrow> bool \<Rightarrow> agent_config \<Rightarrow> int \<Rightarrow> new_hub_error + (manager \<times> hub)" where
  "new_hub L ref hasKubernetes cfg readyTimeout =
     (if \<not> hasKubernetes then Inl KubernetesRequired
      else let agentCfg = agent_config_with_defaults ref cfg;
               errs = agent_config_validate L agentCfg in
        if errs \<noteq> [] then Inl (HubConfigInvalid errs)
        else let mgr = new_manager ref agentCfg in
          Inr (if 0 < readyTimeout then with_ready_timeout mgr readyTimeout else mgr, empty_hub))"

section \<open>Starting, failing and stopping a session\<close>

definition skipped_event :: "string \<Rightarrow> skipped_pod \<Rightarrow> session_event" where
  "skipped_event sid skip =
     session_event_of sid Severity_Warning (MsgSkippedPod (pr_name (sk_pod skip)) (sk_reason skip))
       (ErrorEvent (empty_error\<lparr>ce_stage := Stage_Discovery, ce_reason := Reason_Unsupported,
          ce_detail := MsgText (sk_reason skip), ce_retryable := True, ce_pod := Some (sk_pod skip)\<rparr>))"

fun schedule_groups ::
    "('re, 'w) hub_env \<Rightarrow> spec \<Rightarrow> node_group list \<Rightarrow> string list \<Rightarrow> session \<Rightarrow> 'w
       \<Rightarrow> (hub_error + string list) \<times> session \<times> 'w" where
  "schedule_groups E sp [] nodes s w = (Inr nodes, s, w)"
| "schedule_groups E sp (grp # groups) nodes s w =
     (if ss_ctx_done s then (Inl StoppedDuringScheduling, s, w)
      else (case ensure_node_agent E sp grp s w of
              (Some e, s1, w1) \<Rightarrow> (Inl e, s1, w1)
            | (None, s1, w1) \<Rightarrow> schedule_groups E sp groups (nodes @ [ng_node grp]) s1 w1))"

definition start_session ::
    "('re, 'w) hub_env \<Rightarrow> bool \<Rightarrow> spec \<Rightarrow> session \<Rightarrow> 'w \<Rightarrow> hub_error option \<times> session \<times> 'w" where
  "start_session E reqDone sp s w =
     (let sid = ss_id s;
          s1 = emit_state sid Session_Starting (set_state Session_Starting None s) in
      case new_pod_matcher (he_lib E) sp of
        Inl e \<Rightarrow> (Some (PodMatcherErr e), s1, w)
      | Inr matcher \<Rightarrow>
          (case list_matching_pods (he_lib E) (he_kube E reqDone) (sp_namespace sp) (Some matcher) w of
             (Inl e, w1) \<Rightarrow> (Some (ListPodsErr e), s1, w1)
           | (Inr pods, w1) \<Rightarrow>
               (case group_by_node pods of
                  (groups, skipped) \<Rightarrow>
                    (let s2 = fold (\<lambda>skip. emit (skipped_event sid skip)) skipped s1 in
                     if groups = [] then (Some (NoPodsMatched (sp_namespace sp)), s2, w1)
                     else (case schedule_groups E sp groups [] s2 w1 of
                             (Inl e, s3, w3) \<Rightarrow> (Some e, s3, w3)
                           | (Inr nodes, s3, w3) \<Rightarrow>
                               (None, emit_state sid Session_Running
                                  (set_state Session_Running None (set_nodes nodes s3)), w3))))))"

text \<open>
  \<open>packets.close\<close> under the drain timeout, seen from the session: a publisher still inside
  makes it wait, and \<open>slow\<close> says whether it outlasted the timeout.
\<close>

definition close_packets ::
    "bool \<Rightarrow> 'r packet_log \<Rightarrow> publish_error option \<times> 'r packet_log" where
  "close_packets slow l =
     (case close_begin l of
        None \<Rightarrow> (None, l)
      | Some (g, l1) \<Rightarrow>
          (if \<not> idle_passed g l1 \<and> slow then Some PublishCancelled else None,
           chan_result l1 (close_subscribers l1)))"

definition close_session_packets :: "bool \<Rightarrow> session \<Rightarrow> session" where
  "close_session_packets slow s =
     (case close_packets slow (ss_packets s) of
        (err, l) \<Rightarrow>
          let s1 = s\<lparr>ss_packets := l\<rparr> in
          (case err of
             None \<Rightarrow> s1
           | Some e \<Rightarrow>
               emit (session_event_of (ss_id s) Severity_Warning MsgDrainTimedOut
                 (ErrorEvent (empty_error\<lparr>ce_stage := Stage_Teardown, ce_reason := Reason_Timeout,
                    ce_detail := MsgErr ContextEnded\<rparr>))) s1))"

definition close_events :: "session \<Rightarrow> session" where
  "close_events s = s\<lparr>ss_events := el_close (ss_events s)\<rparr>"

definition fail_session ::
    "('re, 'w) hub_env \<Rightarrow> bool \<Rightarrow> bool \<Rightarrow> hub_error \<Rightarrow> session \<Rightarrow> 'w \<Rightarrow> session_proto \<times> session \<times> 'w" where
  "fail_session E reqDone slow err s w =
     (let sid = ss_id s in
      case delete_session_agents (he_lib E) (he_kube E reqDone) (he_manager E) sid w of
        (_, w1) \<Rightarrow>
          let s1 = set_state Session_Failed (Some err) s;
              s2 = emit_state sid Session_Failed s1;
              s3 = emit (session_event_of sid Severity_Error (MsgErr err)
                     (ErrorEvent (empty_error\<lparr>ce_stage := Stage_Agent_Scheduling,
                        ce_reason := Reason_Internal, ce_detail := MsgErr err\<rparr>))) s2;
              snap = snapshot s3 in
          (snap, close_events (close_session_packets slow (signal_stop s3)), w1))"

definition create_session ::
    "('re, 'w) hub_env \<Rightarrow> bool \<Rightarrow> bool \<Rightarrow> int \<Rightarrow> capture_spec option \<Rightarrow> hub \<Rightarrow> 'w
       \<Rightarrow> (rpc_error + session_proto) \<times> hub \<times> 'w" where
  "create_session E reqDone slow now req h w =
     (let sp = spec_with_defaults (spec_from_proto req);
          errs = spec_validate (he_lib E) sp in
      if errs \<noteq> [] then (Inl (Status InvalidArgument (SpecInvalid errs)), h, w)
      else case he_uuid E w of
        (sid, w0) \<Rightarrow>
          (let s0 = new_session_state now sid (to_proto sp);
               h1 = put_session s0 h;
               s1 = emit_state sid Session_Pending s0 in
           case start_session E reqDone sp s1 w0 of
             (Some err, s2, w2) \<Rightarrow>
               (case fail_session E reqDone slow err s2 w2 of
                  (failed, s3, w3) \<Rightarrow> (Inr failed, delete_session sid (store_session s3 h1), w3))
           | (None, s2, w2) \<Rightarrow> (Inr (snapshot s2), store_session s2 h1, w2)))"

definition packetDrainTimeout :: int where "packetDrainTimeout = 5000000000"
definition agentFlushGrace :: int where "agentFlushGrace = 5000000000"

text \<open>
  \<open>stopSession\<close>; \<open>he_others\<close> is what the capture streams do while it waits for them.  The
  boolean says whether the session was removed from the hub.
\<close>

definition stop_session_state ::
    "('re, 'w) hub_env \<Rightarrow> bool \<Rightarrow> bool \<Rightarrow> session \<Rightarrow> 'w
       \<Rightarrow> (lifecycle_error + session_proto) \<times> bool \<times> session \<times> 'w" where
  "stop_session_state E reqDone slow s w =
     (let sid = ss_id s in
      if isTerminalState (ss_state s) then (Inr (snapshot s), False, s, w)
      else
        let s1 = signal_stop (emit_state sid Session_Stopping (set_state Session_Stopping None s)) in
        case delete_session_agents (he_lib E) (he_kube E reqDone) (he_manager E) sid w of
          (Some e, w1) \<Rightarrow> (Inl e, False, s1, w1)
        | (None, w1) \<Rightarrow>
            (case (if active_capture_streams s1 = 0 then (s1, w1) else he_others E s1 w1) of
               (s2, w2) \<Rightarrow>
                 let s3 = emit_stats s2;
                     s4 = emit_state sid Session_Stopped (set_state Session_Stopped None s3);
                     snap = snapshot s4 in
                 (Inr snap, True, close_events (close_session_packets slow s4), w2)))"

definition stop_session ::
    "('re, 'w) hub_env \<Rightarrow> bool \<Rightarrow> bool \<Rightarrow> string \<Rightarrow> hub \<Rightarrow> 'w
       \<Rightarrow> (rpc_error + session_proto) \<times> hub \<times> 'w" where
  "stop_session E reqDone slow sid h w =
     (case get_session sid h of
        None \<Rightarrow> (Inl (Status NotFound (SessionNotFound sid)), h, w)
      | Some s \<Rightarrow>
          (case stop_session_state E reqDone slow s w of
             (Inl e, _, s1, w1) \<Rightarrow> (Inl (Status Internal (StopFailed e)), store_session s1 h, w1)
           | (Inr snap, removed, s1, w1) \<Rightarrow>
               (Inr snap, if removed then delete_session (ss_id s) (store_session s1 h) else store_session s1 h, w1)))"

fun stop_ids ::
    "('re, 'w) hub_env \<Rightarrow> bool \<Rightarrow> bool \<Rightarrow> string list \<Rightarrow> hub \<Rightarrow> 'w
       \<Rightarrow> (string \<times> lifecycle_error) list \<times> hub \<times> 'w" where
  "stop_ids E reqDone slow [] h w = ([], h, w)"
| "stop_ids E reqDone slow (sid # ids) h w =
     (case get_session sid h of
        None \<Rightarrow> stop_ids E reqDone slow ids h w
      | Some s \<Rightarrow>
          (case stop_session_state E reqDone slow s w of
             (Inl e, _, s1, w1) \<Rightarrow>
               (case stop_ids E reqDone slow ids (store_session s1 h) w1 of
                  (errs, h2, w2) \<Rightarrow> ((sid, e) # errs, h2, w2))
           | (Inr snap, removed, s1, w1) \<Rightarrow>
               stop_ids E reqDone slow ids
                 (if removed then delete_session (ss_id s) (store_session s1 h)
                  else store_session s1 h) w1))"

definition stop_all ::
    "('re, 'w) hub_env \<Rightarrow> bool \<Rightarrow> bool \<Rightarrow> hub \<Rightarrow> 'w \<Rightarrow> (string \<times> lifecycle_error) list \<times> hub \<times> 'w" where
  "stop_all E reqDone slow h w = stop_ids E reqDone slow (he_order E (hb_live h)) h w"

definition get_session_rpc :: "string \<Rightarrow> hub \<Rightarrow> rpc_error + session_proto" where
  "get_session_rpc sid h =
     (case get_session sid h of
        None \<Rightarrow> Inl (Status NotFound (SessionNotFound sid))
      | Some s \<Rightarrow> Inr (snapshot s))"

definition list_sessions :: "hub \<Rightarrow> session_proto list" where
  "list_sessions h = map snapshot (List.map_filter (\<lambda>sid. deref_session sid h) (hb_live h))"

section \<open>Watching events and packets\<close>

text \<open>
  \<open>WatchEvents\<close>: the history it sends first, then one received event, or an end, per round
  of the select.
\<close>

definition watch_events_begin ::
    "bool \<Rightarrow> 'e event_log \<Rightarrow> (nat \<times> 'e list) \<times> 'e event_log" where
  "watch_events_begin replayHistory l =
     (case subscribe_with_replay l of
        ((i, history), l') \<Rightarrow> ((i, if replayHistory then history else []), l'))"

datatype 'e watch_round = WatchSend 'e | WatchReturn "rpc_error option"

datatype watch_select = SelectEvent | SelectContextDone | SelectSessionDone

definition watch_events_round ::
    "nat \<Rightarrow> watch_select \<Rightarrow> 'e event_log \<Rightarrow> ('e watch_round \<times> 'e event_log) option" where
  "watch_events_round i sel l =
     (case sel of
        SelectContextDone \<Rightarrow> Some (WatchReturn (Some StreamContextEnded), l)
      | SelectSessionDone \<Rightarrow> Some (WatchReturn None, l)
      | SelectEvent \<Rightarrow>
          (case el_receive i l of
             Some (ev, l') \<Rightarrow> Some (WatchSend ev, l')
           | None \<Rightarrow>
               (case map_of (el_chans l) i of
                  Some c \<Rightarrow> if ch_closed c then Some (WatchReturn None, l) else None
                | None \<Rightarrow> None)))"

fun record_matches_filter :: "capture_record \<Rightarrow> record_kind list \<Rightarrow> bool" where
  "record_matches_filter r kinds =
     (kinds = [] \<or>
      list_ex (\<lambda>k.
        if k = RECORD_KIND_WIRE_FRAME then get_wire_frame r \<noteq> None
        else if k = RECORD_KIND_TLS_EVENT then get_tls_event r \<noteq> None
        else False) kinds)"

text \<open>
  \<open>SubscribePackets\<close>: one round of its select on subscriber \<open>i\<close>: the records sent and, at
  the end, the error it returns.  On \<open>done\<close> it drains the channel.
\<close>

datatype packet_select = SelectRecord | SelectStreamDone | SelectUnsubscribed

fun drain_packets ::
    "record_kind list \<Rightarrow> nat \<Rightarrow> nat \<Rightarrow> capture_record packet_log
       \<Rightarrow> capture_record list \<times> capture_record packet_log" where
  "drain_packets kinds i 0 l = ([], l)"
| "drain_packets kinds i (Suc n) l =
     (case pl_receive i l of
        None \<Rightarrow> ([], l)
      | Some (r, l') \<Rightarrow>
          (case drain_packets kinds i n l' of
             (sent, l2) \<Rightarrow> (if record_matches_filter r kinds then r # sent else sent, l2)))"

fun subscribe_packets_rounds ::
    "record_kind list \<Rightarrow> nat \<Rightarrow> packet_select list \<Rightarrow> capture_record packet_log
       \<Rightarrow> capture_record list \<times> rpc_error option option \<times> capture_record packet_log" where
  "subscribe_packets_rounds kinds i [] l = ([], None, l)"
| "subscribe_packets_rounds kinds i (SelectStreamDone # sels) l =
     ([], Some (Some StreamContextEnded), l)"
| "subscribe_packets_rounds kinds i (SelectUnsubscribed # sels) l =
     (case drain_packets kinds i packet_chan_cap l of (sent, l') \<Rightarrow> (sent, Some None, l'))"
| "subscribe_packets_rounds kinds i (SelectRecord # sels) l =
     (case pl_receive i l of
        None \<Rightarrow> subscribe_packets_rounds kinds i sels l
      | Some (r, l') \<Rightarrow>
          (case subscribe_packets_rounds kinds i sels l' of
             (sent, res, l2) \<Rightarrow>
               (if record_matches_filter r kinds then r # sent else sent, res, l2)))"

text \<open>The subscription of \<open>SubscribePackets\<close>, and the deferred end of it.\<close>

definition subscribe_packets_begin :: "string \<Rightarrow> hub \<Rightarrow> rpc_error + nat \<times> hub" where
  "subscribe_packets_begin sid h =
     (case get_session sid h of
        None \<Rightarrow> Inl (Status NotFound (SessionNotFound sid))
      | Some s \<Rightarrow>
          (case pl_subscribe (ss_packets s) of
             None \<Rightarrow> Inl (Status FailedPrecondition (SubscribePacketsErr PacketLogClosed))
           | Some (i, l) \<Rightarrow> Inr (i, store_session (s\<lparr>ss_packets := l\<rparr>) h)))"

definition wait_for_packet_subscriber :: "string \<Rightarrow> hub \<Rightarrow> rpc_error + wait_verdict" where
  "wait_for_packet_subscriber sid h =
     (case get_session sid h of
        None \<Rightarrow> Inl (Status NotFound (SessionNotFound sid))
      | Some s \<Rightarrow> Inr (wait_for_subscriber (ss_packets s)))"

section \<open>Agents\<close>

definition incoming_agent_identity :: "string list \<Rightarrow> string list \<Rightarrow> string \<times> string" where
  "incoming_agent_identity pods streams =
     (if length pods \<noteq> 1 \<or> length streams \<noteq> 1 then ([], []) else (hd pods, hd streams))"

text \<open>
  \<open>WatchTargets\<close> as a machine: its checks, its two waits, and the loop that sends an
  assignment and waits for the next generation.
\<close>

datatype targets_pc =
    TgIdentity
  | TgRunning
  | TgSubscriber
  | TgSend
  | TgAssignment u64
  | TgWait u64
  | TgReturned "rpc_error option"

record targets_request =
  tr_session_id :: string
  tr_node :: string
  tr_agent_pod :: string

text \<open>One step: where it goes, and the assignment it sends if it sends one; \<open>None\<close> parks.\<close>

fun watch_targets_step ::
    "targets_request \<Rightarrow> string \<Rightarrow> string \<Rightarrow> session \<Rightarrow> targets_pc
       \<Rightarrow> (targets_pc \<times> agent_assignment option) option" where
  "watch_targets_step req agentPod streamID s TgIdentity =
     (if agentPod \<noteq> tr_agent_pod req
      then Some (TgReturned (Some (Status PermissionDenied AgentPodMismatch)), None)
      else case assignment_for (tr_node req) agentPod streamID s of
        Inl e \<Rightarrow> Some (TgReturned (Some (Status PermissionDenied (AgentAssignmentErr e))), None)
      | Inr _ \<Rightarrow> Some (TgRunning, None))"
| "watch_targets_step req agentPod streamID s TgRunning =
     (case wait_until_running s of
        LookPark g \<Rightarrow> None
      | LookReturn (Some e) \<Rightarrow>
          Some (TgReturned (Some (Status FailedPrecondition (AgentAssignmentErr e))), None)
      | LookReturn None \<Rightarrow> Some (TgSubscriber, None))"
| "watch_targets_step req agentPod streamID s TgSubscriber =
     (case wait_for_subscriber (ss_packets s) of
        WaitPark g \<Rightarrow> None
      | WaitClosed \<Rightarrow>
          Some (TgReturned (Some (Status FailedPrecondition (PacketSubscriberErr PacketLogClosed))), None)
      | WaitReady \<Rightarrow> Some (TgSend, None))"
| "watch_targets_step req agentPod streamID s TgSend = Some (TgAssignment (ss_assign_gen s), None)"
| "watch_targets_step req agentPod streamID s (TgAssignment gen) =
     (case assignment_for (tr_node req) agentPod streamID s of
        Inl e \<Rightarrow> Some (TgReturned None, None)
      | Inr a \<Rightarrow> Some (TgWait gen, Some a))"
| "watch_targets_step req agentPod streamID s (TgWait gen) =
     (case wait_assign_change (tr_node req) gen s of
        LookPark g \<Rightarrow> None
      | LookReturn (Some e) \<Rightarrow> Some (TgReturned None, None)
      | LookReturn None \<Rightarrow> Some (TgSend, None))"
| "watch_targets_step req agentPod streamID s (TgReturned r) = None"

text \<open>
  \<open>StreamCapture\<close> as a machine over the hub: \<open>cp_claim\<close> is the session, node and stream it
  holds; it is either about to receive, or in the middle of a batch with the assignment it
  read, or finished.
\<close>

datatype capture_pc =
    CpRecv
  | CpRecords capture_batch "agent_assignment option" "capture_record list"
  | CpReturned "rpc_error + u64"

record capture_stream =
  cp_claim :: "(string \<times> string \<times> string) option"
  cp_accepted :: u64
  cp_pc :: capture_pc

definition new_capture_stream :: capture_stream where
  "new_capture_stream = \<lparr>cp_claim = None, cp_accepted = 0, cp_pc = CpRecv\<rparr>"

text \<open>Returning runs the deferred release.\<close>

definition capture_return :: "rpc_error + u64 \<Rightarrow> hub \<Rightarrow> capture_stream \<Rightarrow> hub \<times> capture_stream" where
  "capture_return res h st =
     (case cp_claim st of
        None \<Rightarrow> (h, st\<lparr>cp_pc := CpReturned res\<rparr>)
      | Some (sid, node, streamID) \<Rightarrow>
          (case deref_session sid h of
             None \<Rightarrow> (h, st\<lparr>cp_claim := None, cp_pc := CpReturned res\<rparr>)
           | Some s \<Rightarrow>
               (store_session (release_capture_stream node streamID s) h,
                st\<lparr>cp_claim := None, cp_pc := CpReturned res\<rparr>)))"

definition capture_fail :: "status_code \<Rightarrow> status_reason \<Rightarrow> hub \<Rightarrow> capture_stream \<Rightarrow> hub \<times> capture_stream"
  where
  "capture_fail code reason h st = capture_return (Inl (Status code reason)) h st"

definition capture_begin_batch ::
    "capture_batch \<Rightarrow> session \<Rightarrow> hub \<Rightarrow> capture_stream \<Rightarrow> hub \<times> capture_stream" where
  "capture_begin_batch b s h st =
     (case validate_capture_batch b s of
        Some e \<Rightarrow> capture_fail FailedPrecondition (CaptureBatchErr e) h st
      | None \<Rightarrow>
          (h, st\<lparr>cp_pc := CpRecords b (assignment_for_node (cb_node b) s) (cb_records b)\<rparr>))"

definition capture_recv ::
    "string \<Rightarrow> string \<Rightarrow> capture_batch \<Rightarrow> hub \<Rightarrow> capture_stream \<Rightarrow> hub \<times> capture_stream" where
  "capture_recv agentPod metadataStreamID b h st =
     (case get_session (cb_session_id b) h of
        None \<Rightarrow> capture_fail NotFound (SessionNotFound (cb_session_id b)) h st
      | Some s \<Rightarrow>
          (case cp_claim st of
             None \<Rightarrow>
               if cb_stream_id b \<noteq> metadataStreamID
               then capture_fail PermissionDenied CaptureMetadataMismatch h st
               else (case claim_capture_stream (cb_node b) agentPod metadataStreamID s of
                       Inl e \<Rightarrow> capture_fail FailedPrecondition (CaptureStreamErr e) h st
                     | Inr s1 \<Rightarrow>
                         capture_begin_batch b s1 (store_session s1 h)
                           (st\<lparr>cp_claim := Some (cb_session_id b, cb_node b, cb_stream_id b)\<rparr>))
           | Some claim \<Rightarrow>
               if (cb_session_id b, cb_node b, cb_stream_id b) \<noteq> claim
               then capture_fail FailedPrecondition CaptureIdentityChanged h st
               else capture_begin_batch b s h st))"

definition capture_dropped :: "capture_batch \<Rightarrow> session \<Rightarrow> session" where
  "capture_dropped b s =
     (if cb_dropped b \<noteq> 0 then
        let s1 = add_dropped (cb_dropped b) None s in
        emit (session_event_of (cb_session_id b) Severity_Warning (MsgAgentDropped (cb_dropped b))
                (StatsEvent (snapshot_stats s1))) s1
      else s)"

text \<open>
  The next record of the batch: an unassigned one is skipped, another is published; then it
  is committed, counted only if it was published.  \<open>None\<close> when its publish would block.
\<close>

definition publish_or_skip ::
    "agent_assignment option \<Rightarrow> capture_record \<Rightarrow> session
       \<Rightarrow> ((publish_error + unit) \<times> capture_record packet_log) option" where
  "publish_or_skip a r s =
     (if assigned_target a (capture_record_pod r) = None then Some (Inr (), ss_packets s)
      else publish_now r (ss_packets s))"

definition commit_record ::
    "capture_batch \<Rightarrow> agent_assignment option \<Rightarrow> capture_record \<Rightarrow> capture_record list \<Rightarrow> session
       \<Rightarrow> hub \<Rightarrow> capture_stream \<Rightarrow> hub \<times> capture_stream" where
  "commit_record b a r rs s h st =
     (let skip = (assigned_target a (capture_record_pod r) = None) in
      case commit_capture_record (cb_node b) (cb_stream_id b) r (\<not> skip) s of
        Inl e \<Rightarrow> capture_fail FailedPrecondition (CaptureCommitErr e) (store_session s h) st
      | Inr s2 \<Rightarrow>
          (store_session s2 h,
           st\<lparr>cp_accepted := cp_accepted st + 1, cp_pc := CpRecords b a rs\<rparr>))"

definition publish_failed :: "publish_error \<Rightarrow> hub \<Rightarrow> capture_stream \<Rightarrow> hub \<times> capture_stream" where
  "publish_failed e h st =
     (case e of
        PacketLogClosed \<Rightarrow> capture_return (Inr (cp_accepted st)) h st
      | PublishCancelled \<Rightarrow> capture_return (Inl StreamContextEnded) h st)"

definition capture_record_step :: "hub \<Rightarrow> capture_stream \<Rightarrow> (hub \<times> capture_stream) option" where
  "capture_record_step h st =
     (case cp_pc st of
        CpRecords b a (r # rs) \<Rightarrow>
          (case deref_session (cb_session_id b) h of
             None \<Rightarrow> None
           | Some s \<Rightarrow>
               (case publish_or_skip a r s of
                  None \<Rightarrow> None
                | Some (Inl e, l) \<Rightarrow> Some (publish_failed e h st)
                | Some (Inr u, l) \<Rightarrow> Some (commit_record b a r rs (s\<lparr>ss_packets := l\<rparr>) h st)))
      | CpRecords b a [] \<Rightarrow>
          (case deref_session (cb_session_id b) h of
             None \<Rightarrow> None
           | Some s \<Rightarrow> Some (store_session (capture_dropped b s) h, st\<lparr>cp_pc := CpRecv\<rparr>))
      | _ \<Rightarrow> None)"

text \<open>The other ends: the agent closed its side, the receive failed, a publish was cancelled.\<close>

definition capture_eof :: "hub \<Rightarrow> capture_stream \<Rightarrow> hub \<times> capture_stream" where
  "capture_eof h st = capture_return (Inr (cp_accepted st)) h st"

definition capture_recv_error :: "hub \<Rightarrow> capture_stream \<Rightarrow> hub \<times> capture_stream" where
  "capture_recv_error h st = capture_return (Inl StreamTransport) h st"

definition capture_cancel :: "hub \<Rightarrow> capture_stream \<Rightarrow> hub \<times> capture_stream" where
  "capture_cancel h st = capture_return (Inl StreamContextEnded) h st"

section \<open>Status reports\<close>

definition error_text :: "capture_error \<Rightarrow> message" where
  "error_text e = ce_detail e"

definition report_event :: "status_report \<Rightarrow> session_event option" where
  "report_event req =
     (case sr_error req of
        Some e \<Rightarrow> Some (session_event_of (sr_session_id req) Severity_Error (error_text e) (ErrorEvent e))
      | None \<Rightarrow>
        (case sr_stats req of
           Some st \<Rightarrow>
             Some (session_event_of (sr_session_id req) Severity_Info MsgStatsUpdated (StatsEvent st))
         | None \<Rightarrow>
           (case sr_agent_state req of
              Some a \<Rightarrow> Some (session_event_of (sr_session_id req) Severity_Info
                          (MsgAgentState (asc_phase a)) (AgentStateEvent a))
            | None \<Rightarrow>
              (case sr_tls_state req of
                 Some t \<Rightarrow>
                   let podName = (case tsc_pod t of None \<Rightarrow> [] | Some p \<Rightarrow> pr_name p) in
                   Some (session_event_of (sr_session_id req)
                     (if tsc_status t = Tls_Denied then Severity_Warning else Severity_Info)
                     (MsgTls podName (tsc_status t) (tsc_detail t)) (TlsStateEvent t))
               | None \<Rightarrow> None))))"

definition report_status ::
    "string \<Rightarrow> string \<Rightarrow> status_report \<Rightarrow> hub \<Rightarrow> (rpc_error option) \<times> hub" where
  "report_status agentPod streamID req h =
     (case get_session (sr_session_id req) h of
        None \<Rightarrow> (Some (Status NotFound (SessionNotFound (sr_session_id req))), h)
      | Some s \<Rightarrow>
          if streamID \<noteq> sr_stream_id req
          then (Some (Status PermissionDenied StatusMetadataMismatch), h)
          else (case validate_agent_envelope (sr_session_id req) (sr_node req) agentPod streamID s of
                  Some e \<Rightarrow> (Some (Status PermissionDenied (AgentStatusErr e)), h)
                | None \<Rightarrow>
                    (case report_event req of
                       None \<Rightarrow> (Some (Status InvalidArgument StatusPayloadRequired), h)
                     | Some ev \<Rightarrow> (None, store_session (emit ev s) h))))"

end
