(* ===== verification/Server_Facts.thy ===== *)
theory Server_Facts imports Hub_Server begin

text \<open>
  What the handlers of \<open>Hub_Server\<close> guarantee: the outcome of creating and stopping a session,
  what reaches the packet subscribers, that an agent never works from a stale assignment, and
  that an ended capture stream can be opened again.
\<close>

section \<open>The store\<close>

lemma hub_simps [simp]:
  "deref_session sid (store_session s h) = (if sid = ss_id s then Some s else deref_session sid h)"
  "hb_live (store_session s h) = hb_live h"
  "hb_live (delete_session sid h) = filter (\<lambda>i. i \<noteq> sid) (hb_live h)"
  "deref_session sid (delete_session sid' h) = deref_session sid h"
  "deref_session sid (put_session s h) = deref_session sid (store_session s h)"
  "set (hb_live (put_session s h)) = insert (ss_id s) (set (hb_live h))"
  by (auto simp: deref_session_def store_session_def delete_session_def put_session_def)

text \<open>Every session is stored under its own id, and every live id is stored.\<close>

definition hub_ok :: "hub \<Rightarrow> bool" where
  "hub_ok h \<longleftrightarrow> (\<forall>sid s. deref_session sid h = Some s \<longrightarrow> ss_id s = sid) \<and>
     (\<forall>sid \<in> set (hb_live h). deref_session sid h \<noteq> None) \<and> distinct (hb_live h)"

lemma hub_ok_empty: "hub_ok empty_hub"
  by (simp add: hub_ok_def empty_hub_def deref_session_def)

lemma hub_ok_store: "hub_ok h \<Longrightarrow> hub_ok (store_session s h)"
  unfolding hub_ok_def by simp

lemma put_session_live: "hb_live (put_session s h) = List.insert (ss_id s) (hb_live h)"
  by (simp add: put_session_def)

lemma hub_ok_put: "hub_ok h \<Longrightarrow> hub_ok (put_session s h)"
  unfolding hub_ok_def by (simp add: put_session_live)

lemma hub_ok_delete: "hub_ok h \<Longrightarrow> hub_ok (delete_session sid h)"
  by (simp add: hub_ok_def)

lemma get_session_deref: "get_session sid h = Some s \<Longrightarrow> deref_session sid h = Some s"
  by (simp add: get_session_def split: if_splits)

section \<open>Creating and stopping\<close>

lemma signal_stop_simps [simp]:
  "ss_proto (signal_stop s) = ss_proto s" "ss_packets (signal_stop s) = ss_packets s"
  "ss_events (signal_stop s) = ss_events s" "ss_ctx_done (signal_stop s) = True"
  "ss_agents (signal_stop s) = ss_agents s"
  by (simp_all add: signal_stop_def)

lemma emit_state_simps [simp]:
  "ss_proto (emit_state sid st s) = ss_proto s" "ss_packets (emit_state sid st s) = ss_packets s"
  "ss_ctx_done (emit_state sid st s) = ss_ctx_done s" "ss_agents (emit_state sid st s) = ss_agents s"
  by (simp_all add: emit_state_def)

lemma close_packets_closes:
  assumes "pl_ok l"
  shows "pl_closed (snd (close_packets slow l)) \<and>
    (\<not> pl_closed l \<longrightarrow> pl_subs (snd (close_packets slow l)) = [])"
proof (cases "close_begin l")
  case None
  then show ?thesis by (auto simp: close_packets_def close_begin_def split: if_splits)
next
  case (Some gl)
  then obtain g l1 where cb: "close_begin l = Some (g, l1)" by (cases gl) auto
  then have "pl_ok l1" "pl_closed l1"
    using close_begin_good [OF cb assms] by (auto simp: close_good_def)
  from close_subscribers_ok [OF this(1)] obtain m where
    "close_subscribers l1 = ChOk (notify_locked m)" "dropped (set (pl_subs l1)) l1 m" by blast
  with \<open>pl_closed l1\<close> show ?thesis by (auto simp: close_packets_def cb dropped_def)
qed

lemma close_session_packets_simps [simp]:
  "ss_proto (close_session_packets slow s) = ss_proto s"
  "ss_packets (close_session_packets slow s) = snd (close_packets slow (ss_packets s))"
  "ss_ctx_done (close_session_packets slow s) = ss_ctx_done s"
  by (auto simp: close_session_packets_def Let_def split: prod.split option.split)

lemma close_events_simps [simp]:
  "ss_proto (close_events s) = ss_proto s" "ss_packets (close_events s) = ss_packets s"
  "ss_ctx_done (close_events s) = ss_ctx_done s" "el_closed (ss_events (close_events s)) = True"
  by (simp_all add: close_events_def el_close_def)

definition finished :: "session \<Rightarrow> bool" where
  "finished s \<longleftrightarrow> isTerminalState (ss_state s) \<and> ss_ctx_done s \<and> el_closed (ss_events s) \<and>
     pl_closed (ss_packets s)"

lemma ensure_id:
  assumes "others_ok E" and "ensure_node_agent E sp grp s w = (r, t, w')"
  shows "ss_id t = ss_id s"
proof -
  have id: "session_op s t \<Longrightarrow> ss_id t = ss_id s" for s t
    by (erule session_op.cases)
      (auto simp: signal_stop_def set_nodes_def begin_ensure_def end_ensure_def record_agent_def
        update_assignment_def notify_assign_locked_def remove_agent_def Let_def add_dropped_def
        commit_capture_record_def claim_capture_stream_def release_capture_stream_def
        split: option.splits if_splits)
  have "session_op\<^sup>*\<^sup>* s t" by (rule ensure_ops [OF assms])
  then show ?thesis by (induction rule: rtranclp_induct) (auto simp: id)
qed

lemma schedule_groups_id:
  "others_ok E \<Longrightarrow> schedule_groups E sp groups nodes s w = (r, t, w') \<Longrightarrow> ss_id t = ss_id s"
  by (induction groups arbitrary: nodes s w)
    (auto split: if_splits prod.splits option.splits dest: ensure_id)

lemma fold_emit_simps:
  "ss_proto (fold (\<lambda>x. emit (f x)) xs s) = ss_proto s"
  by (induction xs arbitrary: s) simp_all

lemma start_session_id:
  assumes "others_ok E" and "start_session E d sp s w = (r, t, w')"
  shows "ss_id t = ss_id s \<and> (r = None \<longrightarrow> ss_state t = Session_Running)"
  using assms(2)
  by (auto simp: start_session_def Let_def set_nodes_def fold_emit_simps
      split: sum.splits prod.splits if_splits
      dest!: schedule_groups_id [OF assms(1)])

lemma fail_session_finished:
  assumes "fail_session E d slow err s w = (snap, t, w')" and "pl_ok (ss_packets s)"
  shows "finished t \<and> ss_id t = ss_id s \<and> snap = ss_proto t \<and> sn_state snap = Session_Failed \<and>
    sn_failure snap = Some err"
  using assms close_packets_closes [OF assms(2), of slow]
  by (auto simp: fail_session_def Let_def finished_def isTerminalState_def snapshot_def set_state_def
      split: prod.splits)

lemma schedule_groups_ops:
  "others_ok E \<Longrightarrow> schedule_groups E sp groups nodes s w = (r, t, w') \<Longrightarrow> session_op\<^sup>*\<^sup>* s t"
proof (induction groups arbitrary: nodes s w)
  case (Cons grp groups)
  have step: "session_op\<^sup>*\<^sup>* s t"
    if "ensure_node_agent E sp grp s w = (None, u, x)" "schedule_groups E sp groups n u x = (r, t, w')"
    for u x n
    by (rule ops_trans [OF ensure_ops [OF Cons.prems(1) that(1)] Cons.IH [OF Cons.prems(1) that(2)]])
  from Cons.prems(2) show ?case
    by (auto split: if_splits prod.splits option.splits intro: step ensure_ops [OF Cons.prems(1)])
qed simp

lemma fold_emit_ops: "session_op\<^sup>*\<^sup>* s (fold (\<lambda>x. emit (f x)) xs s)"
  by (induction xs arbitrary: s) (auto intro: ops_cons [OF op_emit])

lemma start_session_ops:
  assumes "others_ok E" and "start_session E d sp s w = (r, t, w')"
  shows "session_op\<^sup>*\<^sup>* s t"
proof -
  have 1: "session_op\<^sup>*\<^sup>* s (emit_state sid st (set_state st f s))" for sid st f s
    unfolding emit_state_def by (rule ops_snoc [OF ops1 [OF op_set_state] op_emit])
  note 2 = ops_trans [OF 1 fold_emit_ops]
  have 3: "session_op\<^sup>*\<^sup>* u (emit_state sid st (set_state st f (set_nodes ns u)))" for sid st f ns u
    by (rule ops_cons [OF op_set_nodes 1])
  show ?thesis
    using assms(2)
    by (auto simp: start_session_def Let_def split: sum.splits prod.splits if_splits
        intro: 1 2 ops_trans [OF 2 schedule_groups_ops [OF assms(1)]]
          ops_trans [OF ops_trans [OF 2 schedule_groups_ops [OF assms(1)]] 3])
qed


definition others_proto_ok :: "('re, 'w) hub_env \<Rightarrow> bool" where
  "others_proto_ok E \<longleftrightarrow> others_ok E \<and>
     (\<forall>s w. ss_ctx_done s \<longrightarrow> ss_ctx_done (fst (he_others E s w)))"

lemma stop_session_state_ok:
  assumes "stop_session_state E d slow s w = (Inr snap, True, t, w')" and "others_proto_ok E"
    and "pl_ok (ss_packets s)"
  shows "finished t \<and> snap = ss_proto t \<and> ss_state t = Session_Stopped \<and> ss_id t = ss_id s \<and>
    (\<exists>w1. delete_session_agents (he_lib E) (he_kube E d) (he_manager E) (ss_id s) w = (None, w1))"
proof -
  let ?s1 = "signal_stop (emit_state (ss_id s) Session_Stopping (set_state Session_Stopping None s))"
  from assms(1) obtain w1 where gone:
    "delete_session_agents (he_lib E) (he_kube E d) (he_manager E) (ss_id s) w = (None, w1)"
    by (auto simp: stop_session_state_def Let_def split: if_splits prod.splits option.splits)
  obtain s2 w2 where o: "(if active_capture_streams ?s1 = 0 then (?s1, w1) else he_others E ?s1 w1) = (s2, w2)"
    by (metis prod.collapse)
  have ops: "session_op\<^sup>*\<^sup>* ?s1 s2 \<and> ss_id s2 = ss_id ?s1 \<and> ss_ctx_done s2"
  proof (cases "active_capture_streams ?s1 = 0")
    case True
    with o show ?thesis by auto
  next
    case False
    with o have "he_others E ?s1 w1 = (s2, w2)" by simp
    then have "s2 = fst (he_others E ?s1 w1)" by simp
    with assms(2) show ?thesis by (simp add: others_proto_ok_def others_ok_def)
  qed
  have pl: "pl_ok (ss_packets u)" if "session_op\<^sup>*\<^sup>* ?s1 u" for u
  proof -
    have step: "pl_ok (ss_packets x) \<Longrightarrow> session_op x y \<Longrightarrow> pl_ok (ss_packets y)" for x y
      by (erule session_op.cases)
        (auto simp: signal_stop_def set_nodes_def begin_ensure_def end_ensure_def record_agent_def
          update_assignment_def notify_assign_locked_def remove_agent_def Let_def add_dropped_def
          commit_capture_record_def claim_capture_stream_def release_capture_stream_def
          split: option.splits if_splits)
    from that show ?thesis
      by (induction rule: rtranclp_induct) (simp_all add: assms(3) step)
  qed
  let ?s4 = "emit_state (ss_id s) Session_Stopped (set_state Session_Stopped None (emit_stats s2))"
  from assms(1) gone o have t: "t = close_events (close_session_packets slow ?s4)" "snap = ss_proto ?s4"
    by (auto simp: stop_session_state_def Let_def snapshot_def split: if_splits prod.splits)
  have "pl_closed (snd (close_packets slow (ss_packets s2)))"
    using close_packets_closes [OF pl [of s2]] ops by blast
  then show ?thesis
    using ops gone by (simp add: t finished_def isTerminalState_def emit_stats_def Let_def)
qed



lemma stop_state_id:
  assumes "others_ok E" and "stop_session_state E d slow s w = (r, removed, t, w')"
  shows "ss_id t = ss_id s \<and> (\<not> removed \<longrightarrow> r = Inr snap \<longrightarrow> t = s \<and> isTerminalState (ss_state s))"
proof -
  have o: "ss_id u = ss_id v" if "he_others E v x = (u, y)" for u v x y
    using assms(1) that unfolding others_ok_def by (metis fst_conv)
  from assms(2) show ?thesis
    by (auto simp: stop_session_state_def Let_def close_events_def emit_stats_def
        split: if_splits prod.splits option.splits dest!: o)
qed

lemma stop_ids_keep_terminal:
  "others_ok E \<Longrightarrow> hub_ok h \<Longrightarrow> deref_session sid h = Some u \<Longrightarrow> isTerminalState (ss_state u) \<Longrightarrow>
   stop_ids E d slow ids h w = (errs, h', w') \<Longrightarrow> deref_session sid h' = Some u"
proof (induction ids arbitrary: h w errs)
  case (Cons i ids)
  note IH = Cons.IH [OF Cons.prems(1) _ _ Cons.prems(4)]
  show ?case
  proof (cases "get_session i h")
    case None
    with Cons show ?thesis by simp
  next
    case (Some s)
    obtain r removed t w1 where st: "stop_session_state E d slow s w = (r, removed, t, w1)"
      by (metis prod.collapse)
    have ids: "ss_id s = i" "ss_id t = i"
      using Cons.prems(2) get_session_deref [OF Some] stop_state_id [OF Cons.prems(1) st]
      by (simp_all add: hub_ok_def)
    have "sid = i \<longrightarrow> t = u"
      using get_session_deref [OF Some] Cons.prems(3,4) st
      by (auto simp: stop_session_state_def)
    then have "deref_session sid (store_session t h) = Some u"
      "deref_session sid (delete_session i (store_session t h)) = Some u"
      using Cons.prems(3) ids by auto
    moreover have "hub_ok (store_session t h)" "hub_ok (delete_session i (store_session t h))"
      using hub_ok_store [OF Cons.prems(2)] hub_ok_delete by blast+
    ultimately show ?thesis
      using Cons.prems(5) Some st ids by (cases r; cases removed) (auto split: prod.splits dest: IH)
  qed
qed simp

lemma stop_ids_live:
  "others_ok E \<Longrightarrow> hub_ok h \<Longrightarrow> stop_ids E d slow ids h w = ([], h', w') \<Longrightarrow>
   set (hb_live h') \<subseteq> set (hb_live h) \<and>
   (\<forall>sid \<in> set ids. sid \<in> set (hb_live h') \<longrightarrow>
      (\<exists>u. deref_session sid h' = Some u \<and> isTerminalState (ss_state u)))"
proof (induction ids arbitrary: h w)
  case (Cons sid ids)
  show ?case
  proof (cases "get_session sid h")
    case None
    then have "sid \<notin> set (hb_live h)"
      using Cons.prems(2) by (auto simp: get_session_def hub_ok_def split: if_splits)
    with Cons.IH [OF Cons.prems(1,2)] Cons.prems(3) None show ?thesis by auto
  next
    case (Some s)
    obtain r removed t w1 where st: "stop_session_state E d slow s w = (r, removed, t, w1)"
      by (metis prod.collapse)
    have ids: "ss_id s = sid" "ss_id t = sid"
      using Cons.prems(2) get_session_deref [OF Some] stop_state_id [OF Cons.prems(1) st]
      by (simp_all add: hub_ok_def)
    from Cons.prems(3) Some st obtain snap where r: "r = Inr snap"
      by (cases r) (auto split: prod.splits)
    let ?h1 = "if removed then delete_session sid (store_session t h) else store_session t h"
    have rest: "stop_ids E d slow ids ?h1 w1 = ([], h', w')"
      using Cons.prems(3) Some st r ids by (cases removed) auto
    have ok1: "hub_ok ?h1"
      using hub_ok_store [OF Cons.prems(2), of t] hub_ok_delete by auto
    note IH = Cons.IH [OF Cons.prems(1) ok1 rest]
    have "\<exists>u. deref_session sid h' = Some u \<and> isTerminalState (ss_state u)"
      if "sid \<in> set (hb_live h')"
    proof -
      have nr: "\<not> removed" using that IH by auto
      then have "t = s" "isTerminalState (ss_state s)"
        using stop_state_id [OF Cons.prems(1) st] r by auto
      moreover have "deref_session sid ?h1 = Some t" using nr ids by simp
      ultimately show ?thesis
        using stop_ids_keep_terminal [OF Cons.prems(1) ok1 _ _ rest] by blast
    qed
    with IH show ?thesis by (cases removed) auto
  qed
qed simp

text \<open>
  \<open>StopAll\<close> leaves no capture running behind a success: if it reports no error, every
  session still live in the hub is in a terminal state.
\<close>

theorem stop_all_stops:
  assumes "stop_all E d slow h w = ([], h', w')" and "others_ok E" and "hub_ok h"
    and "\<And>xs. set (he_order E xs) = set xs" and "sid \<in> set (hb_live h')"
  shows "\<exists>u. deref_session sid h' = Some u \<and> isTerminalState (ss_state u)"
  using stop_ids_live [OF assms(2,3) assms(1) [unfolded stop_all_def]] assms(4,5) by auto

section \<open>What reaches the subscribers\<close>

lemma session_packets_simps [simp]:
  "ss_packets (release_capture_stream node sid s) = ss_packets s"
  "ss_id (release_capture_stream node sid s) = ss_id s"
  "ss_packets (add_dropped n pod s) = ss_packets s" "ss_id (add_dropped n pod s) = ss_id s"
  "ss_packets (capture_dropped b s) = ss_packets s" "ss_id (capture_dropped b s) = ss_id s"
  by (simp_all add: release_capture_stream_def add_dropped_def capture_dropped_def Let_def
      split: option.split)

lemma commit_packets:
  "commit_capture_record node sid r c s = Inr t \<Longrightarrow> ss_packets t = ss_packets s \<and> ss_id t = ss_id s"
  by (auto simp: commit_capture_record_def Let_def split: option.splits if_splits)

lemma claim_packets:
  "claim_capture_stream node pod sid s = Inr t \<Longrightarrow> ss_packets t = ss_packets s \<and> ss_id t = ss_id s"
  by (auto simp: claim_capture_stream_def split: option.splits if_splits)

lemma capture_return_store:
  assumes "hub_ok h" and "deref_session sid h = Some s"
  shows "\<exists>t. deref_session sid (fst (capture_return res h st)) = Some t \<and> ss_packets t = ss_packets s"
proof (cases "cp_claim st")
  case (Some c)
  obtain csid node str where c: "c = (csid, node, str)" by (cases c)
  show ?thesis
  proof (cases "deref_session csid h")
    case (Some cs)
    then have "ss_id cs = csid" using assms(1) by (simp add: hub_ok_def)
    with Some \<open>cp_claim st = Some c\<close> c assms(2) show ?thesis
      by (auto simp: capture_return_def)
  qed (use Some c assms(2) in \<open>simp add: capture_return_def\<close>)
qed (use assms(2) in \<open>simp add: capture_return_def\<close>)

text \<open>
  Only traffic of assigned pods is published: a step of \<open>StreamCapture\<close> leaves what every
  packet subscriber got unchanged, or the record it handled belongs to a target of the
  assignment read for the batch and is appended, once, for every registered subscriber.
\<close>

theorem only_assigned_records_published:
  assumes "capture_record_step h st = Some (h', st')" and "cp_pc st = CpRecords b a (r # rs)"
    and "deref_session (cb_session_id b) h = Some s" and "hub_ok h" and "pl_ok (ss_packets s)"
  shows "\<exists>t. deref_session (cb_session_id b) h' = Some t \<and>
    (ss_packets t = ss_packets s \<or>
     assigned_target a (capture_record_pod r) \<noteq> None \<and>
     pl_got (ss_packets t) i =
       pl_got (ss_packets s) i @ (if i \<in> set (pl_subs (ss_packets s)) then [r] else []))"
proof -
  have id: "ss_id s = cb_session_id b" using assms(3,4) by (simp add: hub_ok_def)
  from assms(1-3) obtain res l where l: "publish_or_skip a r s = Some (res, l)"
    by (auto simp: capture_record_step_def split: option.splits)
  show ?thesis
  proof (cases res)
    case (Inl e)
    with assms(1-3) l have "(h', st') = publish_failed e h st" by (simp add: capture_record_step_def)
    then have "\<exists>x. (h', st') = capture_return x h st"
      by (cases e) (auto simp: publish_failed_def)
    then obtain x where "h' = fst (capture_return x h st)" by (metis fst_conv)
    with capture_return_store [OF assms(4,3), of x st] show ?thesis by auto
  next
    case (Inr u)
    let ?s1 = "s\<lparr>ss_packets := l\<rparr>"
    have got: "l = ss_packets s \<or> assigned_target a (capture_record_pod r) \<noteq> None \<and>
       pl_got l i = pl_got (ss_packets s) i @ (if i \<in> set (pl_subs (ss_packets s)) then [r] else [])"
      using l Inr publish_now_effect [of r "ss_packets s" u l i] assms(5)
      by (auto simp: publish_or_skip_def split: if_splits)
    have step: "(h', st') = commit_record b a r rs ?s1 h st"
      using assms(1-3) l Inr by (simp add: capture_record_step_def)
    have "\<exists>t. deref_session (cb_session_id b) h' = Some t \<and> ss_packets t = l"
    proof (cases "commit_capture_record (cb_node b) (cb_stream_id b) r
                (assigned_target a (capture_record_pod r) \<noteq> None) ?s1")
      case (Inl e)
      with step have "(h', st') = capture_return (Inl (Status FailedPrecondition (CaptureCommitErr e)))
          (store_session ?s1 h) st"
        by (simp add: commit_record_def capture_fail_def)
      then have h': "h' = fst (capture_return (Inl (Status FailedPrecondition (CaptureCommitErr e)))
          (store_session ?s1 h) st)" by (metis fst_conv)
      have "deref_session (cb_session_id b) (store_session ?s1 h) = Some ?s1" using id by simp
      from capture_return_store [OF hub_ok_store [OF assms(4)] this] show ?thesis
        unfolding h' by simp
    next
      case (Inr s2)
      with step have "h' = store_session s2 h" by (simp add: commit_record_def)
      with commit_packets [OF Inr] id show ?thesis by simp
    qed
    with got show ?thesis by auto
  qed
qed

section \<open>A whole batch\<close>

definition pl_len :: "'r packet_log \<Rightarrow> nat \<Rightarrow> nat" where
  "pl_len l i = (case map_of (pl_store l) i of None \<Rightarrow> 0 | Some s \<Rightarrow> length (ch_buf (pks_ch s)))"

text \<open>Room for \<open>n\<close> more records at every subscriber of an open log that has one.\<close>

definition pl_room :: "nat \<Rightarrow> 'r packet_log \<Rightarrow> bool" where
  "pl_room n l \<longleftrightarrow> pl_ok l \<and> \<not> pl_closed l \<and> pl_subs l \<noteq> [] \<and> 0 \<le> pl_active l \<and>
     (pl_idle_closed l \<longleftrightarrow> pl_active l = 0) \<and>
     (\<forall>i \<in> set (pl_subs l). pl_len l i + n \<le> packet_chan_cap)"

lemma send_to_room:
  assumes "pl_ok l" and "i \<in> set (pl_subs l)" and "pl_len l i < packet_chan_cap"
  shows "\<exists>m. send_to r i l = ChOk m \<and> pl_ok m \<and> pl_subs m = pl_subs l \<and>
    (\<forall>j. pl_len m j = pl_len l j + (if j = i then 1 else 0))"
proof -
  from pl_ok_in_store [OF assms(1,2)] obtain s where s: "map_of (pl_store l) i = Some s" ..
  with pl_ok_sub [OF assms(1) s] assms(3)
  have ok: "\<not> ch_closed (pks_ch s)" "length (ch_buf (pks_ch s)) < ch_cap (pks_ch s)"
    by (simp_all add: sub_ok_def pl_len_def)
  let ?m = "l\<lparr>pl_store := AList.update i
    (s\<lparr>pks_ch := (pks_ch s)\<lparr>ch_buf := ch_buf (pks_ch s) @ [r]\<rparr>\<rparr>) (pl_store l)\<rparr>"
  have m: "send_to r i l = ChOk ?m" using s ok by (simp add: send_to_def chan_send_def)
  moreover have "pl_ok ?m" by (rule pl_ok_send [OF assms(1) m])
  ultimately show ?thesis using s by (simp add: pl_len_def)
qed

lemma send_all_room:
  "pl_ok l \<Longrightarrow> distinct is \<Longrightarrow> set is \<subseteq> set (pl_subs l) \<Longrightarrow> \<forall>i \<in> set is. pl_len l i < packet_chan_cap \<Longrightarrow>
   \<exists>m. send_all r is l = Some m \<and> (\<forall>j. pl_len m j = pl_len l j + (if j \<in> set is then 1 else 0))"
proof (induction "is" arbitrary: l)
  case (Cons i "is")
  from send_to_room [of l i r] Cons.prems obtain l1 where l1: "send_to r i l = ChOk l1" "pl_ok l1"
    "pl_subs l1 = pl_subs l" "\<And>j. pl_len l1 j = pl_len l j + (if j = i then 1 else 0)" by auto
  from Cons.prems l1 have "\<forall>j \<in> set is. pl_len l1 j < packet_chan_cap" by auto
  with Cons.IH [OF l1(2)] Cons.prems l1(3) obtain m where
    "send_all r is l1 = Some m" "\<And>j. pl_len m j = pl_len l1 j + (if j \<in> set is then 1 else 0)" by auto
  with l1 Cons.prems(2) show ?case by auto
qed simp

lemma pl_len_same: "same_subs l m \<Longrightarrow> pl_len m i = pl_len l i"
  by (simp add: pl_len_def same_subs_def)

lemma publish_now_room:
  assumes "pl_room (Suc n) l"
  shows "\<exists>m. publish_now r l = Some (Inr (), m) \<and> pl_room n m"
proof -
  have ok: "pl_ok l" "\<not> pl_closed l" "pl_subs l \<noteq> []" "0 \<le> pl_active l"
    "pl_idle_closed l \<longleftrightarrow> pl_active l = 0" and room: "\<forall>i \<in> set (pl_subs l). pl_len l i + Suc n \<le> packet_chan_cap"
    using assms by (simp_all add: pl_room_def)
  obtain l1 where l1: "publish_begin l = Some l1" using ok(2) by (simp add: publish_begin_def Let_def)
  note D1 = publish_begin_SomeD [OF l1]
  have ok1: "pl_ok l1" using D1 pl_ok_same_subs [OF ok(1)] by blast
  have subs1: "pl_subs l1 = pl_subs l" using D1 by (simp add: same_subs_def)
  have len1: "pl_len l1 i = pl_len l i" for i using D1 pl_len_same by blast
  have d1: "distinct (pl_subs l1)" using ok1 by (simp add: pl_ok_def)
  have r1: "\<forall>i \<in> set (pl_subs l1). pl_len l1 i < packet_chan_cap" using room len1 subs1 by auto
  from send_all_room [OF ok1 d1 subset_refl r1, of r] obtain l2
    where l2: "send_all r (pl_subs l1) l1 = Some l2"
      and len2: "\<And>j. pl_len l2 j = pl_len l1 j + (if j \<in> set (pl_subs l1) then 1 else 0)" by blast
  note D2 = send_all_effect [OF l2 d1 ok1]
  have "\<not> pl_idle_closed l2" using D1 D2 ok(4,5) by (cases "pl_active l = 0") auto
  then have "finish_publish l2 \<noteq> ChPanic \<and> finish_publish l2 \<noteq> ChBlocked"
    by (simp add: finish_publish_def Let_def)
  then obtain l3 where l3: "finish_publish l2 = ChOk l3" by (cases "finish_publish l2") auto
  note D3 = finish_publish_OkD [OF l3]
  have "wait_for_subscriber l = WaitReady" using ok by (simp add: wait_for_subscriber_def)
  then have pub: "publish_now r l = Some (Inr (), l3)" by (simp add: publish_now_def l1 l2 l3)
  have ok3: "pl_ok l3" using D2 D3 pl_ok_same_subs by blast
  have subs3: "pl_subs l3 = pl_subs l" using D2 D3 subs1 by (simp add: same_subs_def)
  have len3: "pl_len l3 i = pl_len l i + (if i \<in> set (pl_subs l) then 1 else 0)" for i
    using D3 pl_len_same len1 len2 subs1 by metis
  have act: "pl_active l3 = pl_active l" "pl_closed l3 = pl_closed l" using D1 D2 D3 by auto
  have idle: "pl_idle_closed l3 \<longleftrightarrow> pl_active l3 = 0"
    using D3 \<open>\<not> pl_idle_closed l2\<close> by auto
  have room3: "\<forall>i \<in> set (pl_subs l3). pl_len l3 i + n \<le> packet_chan_cap"
    using room len3 subs3 by auto
  show ?thesis
    using pub ok3 ok(2-4) subs3 act idle room3 by (auto simp: pl_room_def)
qed

text \<open>Steps of one stream with nobody else.\<close>

fun capture_steps :: "nat \<Rightarrow> hub \<Rightarrow> capture_stream \<Rightarrow> (hub \<times> capture_stream) option" where
  "capture_steps 0 h st = Some (h, st)"
| "capture_steps (Suc n) h st =
     (case capture_record_step h st of None \<Rightarrow> None | Some (h', st') \<Rightarrow> capture_steps n h' st')"

lemma capture_steps_snoc: "capture_steps (Suc n) h st =
    (case capture_steps n h st of None \<Rightarrow> None | Some (h', st') \<Rightarrow> capture_record_step h' st')"
proof (induction n arbitrary: h st)
  case 0
  show ?case by (auto split: option.split)
next
  case (Suc n)
  show ?case
  proof (cases "capture_record_step h st")
    case None
    then show ?thesis by simp
  next
    case (Some x)
    then obtain h1 st1 where x: "capture_record_step h st = Some (h1, st1)" by (cases x) auto
    have "capture_steps (Suc (Suc n)) h st = capture_steps (Suc n) h1 st1" using x by simp
    also have "\<dots> = (case capture_steps n h1 st1 of None \<Rightarrow> None
        | Some (h', st') \<Rightarrow> capture_record_step h' st')" by (rule Suc.IH)
    also have "capture_steps n h1 st1 = capture_steps (Suc n) h st" using x by simp
    finally show ?thesis .
  qed
qed

definition published :: "agent_assignment option \<Rightarrow> capture_record list \<Rightarrow> capture_record list" where
  "published a rs = filter (\<lambda>r. assigned_target a (capture_record_pod r) \<noteq> None) rs"

lemma pl_room_mono: "pl_room (Suc n) l \<Longrightarrow> pl_room n l"
  by (auto simp: pl_room_def)

lemma capture_records_run:
  "cp_pc st = CpRecords b a rs \<Longrightarrow> deref_session (cb_session_id b) h = Some s \<Longrightarrow>
   ss_id s = cb_session_id b \<Longrightarrow> pl_room (length rs) (ss_packets s) \<Longrightarrow>
   map_of (ss_agents s) (cb_node b) = Some rec \<Longrightarrow> ar_stream_id rec = cb_stream_id b \<Longrightarrow>
   consecutive (ar_last_sequence rec) (frames rs) \<Longrightarrow>
   \<exists>h' st' t rec'. capture_steps (length rs) h st = Some (h', st') \<and>
     st' = st\<lparr>cp_accepted := cp_accepted st + of_nat (length rs), cp_pc := CpRecords b a []\<rparr> \<and>
     deref_session (cb_session_id b) h' = Some t \<and> ss_id t = cb_session_id b \<and>
     map_of (ss_agents t) (cb_node b) = Some rec' \<and>
     ar_last_sequence rec' = ar_last_sequence rec + of_nat (length (frames rs)) \<and>
     (\<forall>i \<in> set (pl_subs (ss_packets s)).
        pl_got (ss_packets t) i = pl_got (ss_packets s) i @ published a rs)"
proof (induction rs arbitrary: h st s rec)
  case Nil
  then show ?case by (simp add: published_def)
next
  case (Cons r rs)
  let ?skip = "assigned_target a (capture_record_pod r) = None"
  have room: "pl_room (Suc (length rs)) (ss_packets s)" using Cons.prems(4) by simp
  then have pl: "pl_ok (ss_packets s)" by (simp add: pl_room_def)
  obtain l where l: "publish_or_skip a r s = Some (Inr (), l)" "pl_room (length rs) l"
  proof (cases ?skip)
    case True
    with pl_room_mono [OF room] that show ?thesis by (simp add: publish_or_skip_def)
  next
    case False
    with publish_now_room [OF room, of r] that show ?thesis by (auto simp: publish_or_skip_def)
  qed
  have got: "pl_got l i = pl_got (ss_packets s) i @ published a [r] \<and> i \<in> set (pl_subs l)"
    if "i \<in> set (pl_subs (ss_packets s))" for i
    using l(1) that publish_now_effect [of r "ss_packets s" "()" l i, OF _ pl]
    by (auto simp: publish_or_skip_def published_def split: if_splits)
  let ?s1 = "s\<lparr>ss_packets := l\<rparr>"
  obtain t rec1 where t: "commit_capture_record (cb_node b) (cb_stream_id b) r (\<not> ?skip) ?s1 = Inr t"
    and rec1: "map_of (ss_agents t) (cb_node b) = Some rec1" "ar_stream_id rec1 = cb_stream_id b"
      "consecutive (ar_last_sequence rec1) (frames rs)"
      "ar_last_sequence rec1 + of_nat (length (frames rs)) =
       ar_last_sequence rec + of_nat (length (frames (r # rs)))"
  proof (cases "get_wire_frame r")
    case None
    with Cons.prems that [of ?s1 rec] show ?thesis by (simp add: commit_capture_record_def)
  next
    case (Some f)
    then have r: "r = WireFrame f" by (simp add: get_wire_frame_Some_iff)
    have ag: "map_of (ss_agents ?s1) (cb_node b) = Some rec" using Cons.prems(5) by simp
    have seq: "pf_sequence f = ar_last_sequence rec + 1" "consecutive (pf_sequence f) (frames rs)"
      using Cons.prems(7) Some by auto
    from commit_frame [OF ag Cons.prems(6) seq(1), of "\<not> ?skip"] obtain t where
      "commit_capture_record (cb_node b) (cb_stream_id b) r (\<not> ?skip) ?s1 = Inr t"
      "map_of (ss_agents t) (cb_node b) = Some (rec\<lparr>ar_last_sequence := pf_sequence f\<rparr>)"
      unfolding r by blast
    with that [of t "rec\<lparr>ar_last_sequence := pf_sequence f\<rparr>"] seq Cons.prems(6) Some
    show ?thesis by (simp add: ac_simps)
  qed
  have pk: "ss_packets t = l" "ss_id t = cb_session_id b"
    using commit_packets [OF t] Cons.prems(3) by simp_all
  let ?h1 = "store_session t h"
  let ?st1 = "st\<lparr>cp_accepted := cp_accepted st + 1, cp_pc := CpRecords b a rs\<rparr>"
  have step: "capture_record_step h st = Some (?h1, ?st1)"
    using Cons.prems(1,2) l(1) t by (simp add: capture_record_step_def commit_record_def)
  have "deref_session (cb_session_id b) ?h1 = Some t" using pk by simp
  from Cons.IH [of ?st1 ?h1 t rec1, OF _ this pk(2) _ rec1(1-3)] l(2) pk
  obtain h' st' u rec' where "capture_steps (length rs) ?h1 ?st1 = Some (h', st')"
     "st' = ?st1\<lparr>cp_accepted := cp_accepted ?st1 + of_nat (length rs), cp_pc := CpRecords b a []\<rparr>"
     "deref_session (cb_session_id b) h' = Some u" "ss_id u = cb_session_id b"
     "map_of (ss_agents u) (cb_node b) = Some rec'"
     "ar_last_sequence rec' = ar_last_sequence rec1 + of_nat (length (frames rs))"
     "\<forall>i \<in> set (pl_subs l). pl_got (ss_packets u) i = pl_got l i @ published a rs" by auto
  with step rec1(4) got show ?case
    by (auto simp: published_def ac_simps intro!: exI [of _ u] exI [of _ rec'])
qed

text \<open>
  End to end through the hub: an accepted batch that finds room at every packet subscriber
  is taken in completely.  \<open>StreamCapture\<close> goes through it and back to receiving, has counted
  every record as accepted, the agent's last sequence has advanced by the number of wire
  frames, and every subscriber got exactly the records of assigned pods, in order.
\<close>

theorem batch_ingested:
  assumes "validate_capture_batch b s = None" and "deref_session (cb_session_id b) h = Some s"
    and "pl_room (length (cb_records b)) (ss_packets s)"
    and "map_of (ss_agents s) (cb_node b) = Some rec"
    and "cp_pc st = CpRecords b (assignment_for_node (cb_node b) s) (cb_records b)"
  shows "\<exists>h' st' t rec'. capture_steps (Suc (length (cb_records b))) h st = Some (h', st') \<and>
    cp_pc st' = CpRecv \<and> cp_claim st' = cp_claim st \<and>
    cp_accepted st' = cp_accepted st + of_nat (length (cb_records b)) \<and>
    deref_session (cb_session_id b) h' = Some t \<and> map_of (ss_agents t) (cb_node b) = Some rec' \<and>
    ar_last_sequence rec' = ar_last_sequence rec + of_nat (length (frames (cb_records b))) \<and>
    (\<forall>i \<in> set (pl_subs (ss_packets s)). pl_got (ss_packets t) i =
       pl_got (ss_packets s) i @ published (assignment_for_node (cb_node b) s) (cb_records b))"
proof -
  from assms(1,4) have v: "cb_session_id b = ss_id s" "ar_stream_id rec = cb_stream_id b"
    "consecutive (ar_last_sequence rec) (frames (cb_records b))"
    by (auto simp: validate_capture_batch_def validate_records_iff split: if_splits)
  from capture_records_run [OF assms(5,2) v(1) [symmetric] assms(3,4) v(2,3)]
  obtain h' st' t rec' where run: "capture_steps (length (cb_records b)) h st = Some (h', st')"
    "st' = st\<lparr>cp_accepted := cp_accepted st + of_nat (length (cb_records b)),
       cp_pc := CpRecords b (assignment_for_node (cb_node b) s) []\<rparr>"
    "deref_session (cb_session_id b) h' = Some t" "ss_id t = cb_session_id b"
    "map_of (ss_agents t) (cb_node b) = Some rec'"
    "ar_last_sequence rec' = ar_last_sequence rec + of_nat (length (frames (cb_records b)))"
    "\<forall>i \<in> set (pl_subs (ss_packets s)). pl_got (ss_packets t) i =
       pl_got (ss_packets s) i @ published (assignment_for_node (cb_node b) s) (cb_records b)"
    by blast
  have agents: "ss_agents (capture_dropped b t) = ss_agents t"
    by (simp add: capture_dropped_def add_dropped_def Let_def)
  have "capture_steps (Suc (length (cb_records b))) h st =
      Some (store_session (capture_dropped b t) h', st'\<lparr>cp_pc := CpRecv\<rparr>)"
    unfolding capture_steps_snoc using run by (simp add: capture_record_step_def)
  with run agents show ?thesis
    by (intro exI [of _ "store_session (capture_dropped b t) h'"] exI [of _ "st'\<lparr>cp_pc := CpRecv\<rparr>"]
        exI [of _ "capture_dropped b t"] exI [of _ rec']) simp
qed

text \<open>
  However a capture stream ends, its claim is released: the same agent can open a new
  stream for its node at once.
\<close>

theorem ended_stream_can_reclaim:
  assumes "capture_return res h st = (h', st')" and "cp_claim st = Some (sid, node, str)"
    and "deref_session sid h = Some s" and "map_of (ss_agents s) node = Some rec"
    and "ar_stream_id rec = str" and "ar_pod_name rec \<noteq> []" and "str \<noteq> []" and "ss_id s = sid"
  shows "cp_claim st' = None \<and> (\<exists>t u. deref_session sid h' = Some t \<and>
    claim_capture_stream node (ar_pod_name rec) str t = Inr u)"
  using assms
  by (auto simp: capture_return_def release_capture_stream_def claim_capture_stream_def)

section \<open>Assignments and reports\<close>

lemma assign_generation_step:
  "session_op s t \<Longrightarrow>
     ss_assign_chan t = ss_assign_chan s \<and> ss_assign_gen t = ss_assign_gen s \<and> ss_assigns t = ss_assigns s \<or>
     ss_assign_chan t = Suc (ss_assign_chan s) \<and> ss_assign_gen t = ss_assign_gen s + 1"
  by (erule session_op.cases)
    (auto simp: signal_stop_def set_nodes_def begin_ensure_def end_ensure_def record_agent_def
      update_assignment_def notify_assign_locked_def remove_agent_def Let_def add_dropped_def
      commit_capture_record_def claim_capture_stream_def release_capture_stream_def
      split: option.splits if_splits)

lemma assign_generation_steps:
  "session_op\<^sup>*\<^sup>* s t \<Longrightarrow> \<exists>k. ss_assign_chan t = ss_assign_chan s + k \<and>
     ss_assign_gen t = ss_assign_gen s + of_nat k \<and> (k = 0 \<longrightarrow> ss_assigns t = ss_assigns s)"
proof (induction rule: rtranclp_induct)
  case base
  show ?case by (intro exI [of _ 0]) simp
next
  case (step t u)
  then obtain k where k: "ss_assign_chan t = ss_assign_chan s + k"
    "ss_assign_gen t = ss_assign_gen s + of_nat k" "k = 0 \<longrightarrow> ss_assigns t = ss_assigns s" by blast
  from assign_generation_step [OF step(2)] show ?case
  proof
    assume "ss_assign_chan u = ss_assign_chan t \<and> ss_assign_gen u = ss_assign_gen t \<and>
      ss_assigns u = ss_assigns t"
    with k show ?thesis by auto
  next
    assume "ss_assign_chan u = Suc (ss_assign_chan t) \<and> ss_assign_gen u = ss_assign_gen t + 1"
    with k show ?thesis by (intro exI [of _ "Suc k"]) (simp add: ac_simps)
  qed
qed

text \<open>
  An agent never works from a stale assignment: \<open>WatchTargets\<close> reads the generation first
  (at \<open>s0\<close>), sends the assignment it reads afterwards (at \<open>s\<close>), and parks (at \<open>t\<close>) only
  while that assignment is still the node's current one.  The generation is a 64-bit counter,
  so fewer than \<open>2 ^ 64\<close> changes may happen in between.
\<close>

theorem watch_targets_never_stale:
  assumes "watch_targets_step req pod sid s0 TgSend = Some (TgAssignment gen, None)"
    and "session_op\<^sup>*\<^sup>* s0 s" and "watch_targets_step req pod sid s (TgAssignment gen) = Some (TgWait gen, Some a)"
    and "session_op\<^sup>*\<^sup>* s t" and "watch_targets_step req pod sid t (TgWait gen) = None"
    and "ss_assign_chan t < ss_assign_chan s0 + 2 ^ 64"
  shows "assignment_for_node (tr_node req) t = Some a"
proof -
  have gen: "gen = ss_assign_gen s0" using assms(1) by simp
  have a: "map_of (ss_assigns s) (tr_node req) = Some a"
    using assms(3) by (auto simp: assignment_for_def split: if_splits option.splits sum.splits)
  have park: "ss_assign_gen t = gen"
    using assms(5) by (auto simp: wait_assign_change_def split: if_splits look.splits option.splits)
  from assign_generation_steps [OF assms(2)] obtain k where k: "ss_assign_chan s = ss_assign_chan s0 + k"
    "ss_assign_gen s = ss_assign_gen s0 + of_nat k" by blast
  from assign_generation_steps [OF assms(4)] obtain m where m: "ss_assign_chan t = ss_assign_chan s + m"
    "ss_assign_gen t = ss_assign_gen s + of_nat m" "m = 0 \<longrightarrow> ss_assigns t = ss_assigns s" by blast
  from park gen k(2) m(2) have "(of_nat (k + m) :: u64) = 0" by (simp add: ac_simps)
  then have "2 ^ 64 dvd k + m" by (simp only: word_of_nat_eq_0_iff) simp
  moreover have "k + m < 2 ^ 64" using assms(6) k(1) m(1) by simp
  ultimately have "k + m = 0" by (metis dvd_imp_le not_gr_zero not_less)
  with m(3) a show ?thesis by (simp add: assignment_for_node_def)
qed

text \<open>The machine over the sessions it looks at.\<close>

fun watch_targets_run ::
    "targets_request \<Rightarrow> string \<Rightarrow> string \<Rightarrow> session list \<Rightarrow> targets_pc \<Rightarrow> agent_assignment list" where
  "watch_targets_run req pod sid [] pc = []"
| "watch_targets_run req pod sid (s # ss) pc =
     (case watch_targets_step req pod sid s pc of
        None \<Rightarrow> watch_targets_run req pod sid ss pc
      | Some (pc', None) \<Rightarrow> watch_targets_run req pod sid ss pc'
      | Some (pc', Some a) \<Rightarrow> a # watch_targets_run req pod sid ss pc')"

lemma watch_targets_run_returned [simp]: "watch_targets_run req pod sid ss (TgReturned r) = []"
  by (induction ss) simp_all

lemma watch_targets_run_gate:
  "watch_targets_run req pod sid ss pc \<noteq> [] \<Longrightarrow>
   (pc \<in> {TgIdentity, TgRunning} \<longrightarrow> (\<exists>s \<in> set ss. ss_state s = Session_Running)) \<and>
   (pc \<in> {TgIdentity, TgRunning, TgSubscriber} \<longrightarrow> (\<exists>s \<in> set ss. pl_subs (ss_packets s) \<noteq> [])) \<and>
   (pc = TgIdentity \<longrightarrow> pod = tr_agent_pod req)"
proof (induction ss arbitrary: pc)
  case (Cons s ss)
  show ?case
  proof (cases pc)
    case TgIdentity
    with Cons.prems Cons.IH [of TgRunning] show ?thesis
      by (auto split: if_splits sum.splits)
  next
    case TgRunning
    with Cons.prems Cons.IH [of TgRunning] Cons.IH [of TgSubscriber] show ?thesis
      by (auto simp: wait_until_running_def split: look.splits option.splits session_phase.splits)
  next
    case TgSubscriber
    with Cons.prems Cons.IH [of TgSubscriber] show ?thesis
      by (auto simp: wait_for_subscriber_def split: if_splits)
  qed simp_all
qed simp

text \<open>
  C28. No agent starts early: \<open>WatchTargets\<close> sends an assignment only to the pod the request
  names, and only after it has seen the session RUNNING and a packet subscriber registered.
\<close>

theorem watch_targets_gate:
  assumes "watch_targets_run req pod sid ss TgIdentity \<noteq> []"
  shows "pod = tr_agent_pod req \<and> (\<exists>s \<in> set ss. ss_state s = Session_Running) \<and>
    (\<exists>s \<in> set ss. pl_subs (ss_packets s) \<noteq> [])"
  using watch_targets_run_gate [OF assms] by simp

text \<open>
  \<open>ReportStatus\<close> writes an event only for the agent it comes from: it succeeds exactly for
  a live session, matching stream metadata, the pod and stream id recorded for the node, and
  a payload, and then appends that one event; in every other case the hub is unchanged.
\<close>

theorem report_status_authorised:
  assumes "report_status pod sid req h = (res, h')"
  shows "res \<noteq> None \<and> h' = h \<or>
    (\<exists>s rec ev. res = None \<and> get_session (sr_session_id req) h = Some s \<and> sid = sr_stream_id req \<and>
       map_of (ss_agents s) (sr_node req) = Some rec \<and> ar_pod_name rec = pod \<and>
       ar_stream_id rec = sid \<and> pod \<noteq> [] \<and> sid \<noteq> [] \<and> report_event req = Some ev \<and>
       h' = store_session (emit ev s) h)"
  using assms
  by (auto simp: report_status_def validate_agent_envelope_def
      split: option.splits if_splits)

lemma drain_packets_all:
  "map_of (pl_store l) i = Some s \<Longrightarrow> length (ch_buf (pks_ch s)) \<le> n \<Longrightarrow>
   \<exists>l'. drain_packets kinds i n l = (filter (\<lambda>r. record_matches_filter r kinds) (ch_buf (pks_ch s)), l') \<and>
     pl_len l' i = 0"
proof (induction n arbitrary: l s)
  case 0
  then show ?case by (simp add: pl_len_def)
next
  case (Suc n)
  show ?case
  proof (cases "ch_buf (pks_ch s)")
    case Nil
    with Suc.prems show ?thesis by (simp add: pl_receive_def pl_len_def)
  next
    case (Cons r rest)
    let ?s = "s\<lparr>pks_ch := (pks_ch s)\<lparr>ch_buf := rest\<rparr>, pks_taken := pks_taken s @ [r]\<rparr>"
    let ?l = "l\<lparr>pl_store := AList.update i ?s (pl_store l)\<rparr>"
    have rec: "pl_receive i l = Some (r, ?l)" using Suc.prems(1) Cons by (simp add: pl_receive_def)
    from Suc.IH [of ?l ?s] Suc.prems(2) Cons obtain l' where
      "drain_packets kinds i n ?l = (filter (\<lambda>r. record_matches_filter r kinds) rest, l')"
      "pl_len l' i = 0" by auto
    with rec Cons show ?thesis by (simp split: prod.split)
  qed
qed

text \<open>
  A packet subscriber is sent everything it asked for: when its log is closed, all that is
  still in its channel is sent before the stream ends, filtered by the record kinds it named
  and in order; nothing is left behind.
\<close>

theorem unsubscribed_client_drains:
  assumes "pl_ok l" and "map_of (pl_store l) i = Some s"
  shows "\<exists>l'. subscribe_packets_rounds kinds i [SelectUnsubscribed] l =
      (filter (\<lambda>r. kinds = [] \<or> RECORD_KIND_WIRE_FRAME \<in> set kinds \<and> get_wire_frame r \<noteq> None \<or>
         RECORD_KIND_TLS_EVENT \<in> set kinds \<and> get_tls_event r \<noteq> None) (ch_buf (pks_ch s)), Some None, l') \<and>
    pl_len l' i = 0"
proof -
  have m: "record_matches_filter r kinds \<longleftrightarrow>
      kinds = [] \<or> RECORD_KIND_WIRE_FRAME \<in> set kinds \<and> get_wire_frame r \<noteq> None \<or>
      RECORD_KIND_TLS_EVENT \<in> set kinds \<and> get_tls_event r \<noteq> None" for r
  proof -
    have "list_ex (\<lambda>k. if k = RECORD_KIND_WIRE_FRAME then get_wire_frame r \<noteq> None
        else if k = RECORD_KIND_TLS_EVENT then get_tls_event r \<noteq> None else False) kinds \<longleftrightarrow>
      RECORD_KIND_WIRE_FRAME \<in> set kinds \<and> get_wire_frame r \<noteq> None \<or>
      RECORD_KIND_TLS_EVENT \<in> set kinds \<and> get_tls_event r \<noteq> None"
      by (induction kinds) (auto simp: RECORD_KIND_WIRE_FRAME_def RECORD_KIND_TLS_EVENT_def)
    then show ?thesis by simp
  qed
  have "length (ch_buf (pks_ch s)) \<le> packet_chan_cap"
    using pl_ok_sub [OF assms] by (simp add: sub_ok_def)
  from drain_packets_all [OF assms(2) this, of kinds] show ?thesis
    unfolding m by auto
qed

text \<open>
  What \<open>RunCapture\<close> waits for and what every agent waits for is the subscription of
  \<open>SubscribePackets\<close>: once it is made neither wait parks, and a closed log refuses it.
\<close>

lemma subscription_opens_the_gate:
  assumes "hub_ok h" "subscribe_packets_begin sid h = Inr (i, h')"
  shows "wait_for_packet_subscriber sid h' = Inr WaitReady \<and>
    (\<exists>s. get_session sid h = Some s \<and> \<not> pl_closed (ss_packets s))"
proof -
  obtain s l where s: "get_session sid h = Some s" "pl_subscribe (ss_packets s) = Some (i, l)"
    "h' = store_session (s\<lparr>ss_packets := l\<rparr>) h"
    using assms(2) by (auto simp: subscribe_packets_begin_def split: option.splits)
  then have "ss_id s = sid" using assms(1) by (auto simp: hub_ok_def get_session_def split: if_splits)
  with s have "get_session sid h' = Some (s\<lparr>ss_packets := l\<rparr>)"
    by (auto simp: get_session_def split: if_splits)
  with s show ?thesis
    by (auto simp: wait_for_packet_subscriber_def wait_for_subscriber_def pl_subscribe_def Let_def
        notify_locked_def split: if_splits)
qed

section \<open>Examples\<close>

definition demo_live :: session where
  "demo_live = demo_session\<lparr>ss_packets := pl_sub1\<rparr>"

definition demo_hub :: hub where
  "demo_hub = put_session demo_live empty_hub"

definition demo_stream :: capture_stream where
  "demo_stream = \<lparr>cp_claim = Some (''s1'', ''n1'', ''str1''), cp_accepted = 0,
     cp_pc = CpRecords demo_batch (Some demo_assignment) [demo_wire 1, demo_wire 2]\<rparr>"

lemma demo_live_simps [simp]:
  "ss_id demo_live = ''s1''" "ss_state demo_live = Session_Running" "ss_packets demo_live = pl_sub1"
  "ss_agents demo_live = ss_agents demo_session" "ss_assigns demo_live = [(''n1'', demo_assignment)]"
  "ss_events demo_live = ss_events demo_session" "ss_ctx_done demo_live = ss_ctx_done demo_session"
  "active_capture_streams demo_live = 0"
  by (simp_all add: demo_live_def demo_session_simps active_capture_streams_def)

lemma demo_hub_simps: "hub_ok demo_hub" "deref_session ''s1'' demo_hub = Some demo_live"
  "get_session ''s1'' demo_hub = Some demo_live" "hb_live demo_hub = [''s1'']"
  using hub_ok_put [OF hub_ok_empty, of demo_live]
  by (simp_all add: demo_hub_def put_session_live get_session_def) (simp add: empty_hub_def)

lemma demo_live_reachable: "session_op\<^sup>*\<^sup>* (new_session_state 0 ''s1'' demo_capture_spec) demo_live"
  unfolding demo_live_def
  by (rule ops_snoc [OF demo_session_reachable op_packets [OF pl_sub1_ok]])

lemma demo_room: "pl_room 2 pl_sub1"
  by (simp add: pl_room_def pl_sub1_ok)
    (simp add: pl_sub1_eq pl_len_def make_chan_def packet_chan_cap_def)

theorem batch_ingested_witness:
  "\<exists>h' st' t. capture_steps 3 demo_hub demo_stream = Some (h', st') \<and> cp_pc st' = CpRecv \<and>
     cp_accepted st' = 2 \<and> deref_session ''s1'' h' = Some t \<and>
     pl_got (ss_packets t) 0 = [demo_wire 1, demo_wire 2]"
proof -
  have v: "validate_capture_batch demo_batch demo_live = None"
    by (simp add: validate_capture_batch_def demo_batch_def demo_session_simps demo_wire_def
        maxBatchRecords_def maxBatchPayloadBytes_def)
  have b: "cb_session_id demo_batch = ''s1''" "cb_node demo_batch = ''n1''"
    "cb_records demo_batch = [demo_wire 1, demo_wire 2]" by (simp_all add: demo_batch_def)
  have p: "published (Some demo_assignment) [demo_wire 1, demo_wire 2] = [demo_wire 1, demo_wire 2]"
    by (simp add: published_def assigned_target_def demo_assignment_def demo_wire_def demo_ref_def)
  have "deref_session (cb_session_id demo_batch) demo_hub = Some demo_live"
    by (simp add: b demo_hub_simps)
  moreover have "pl_room (length (cb_records demo_batch)) (ss_packets demo_live)"
    using demo_room by (simp add: b numeral_2_eq_2)
  moreover have "map_of (ss_agents demo_live) (cb_node demo_batch) = Some \<lparr>ar_node = ''n1'',
      ar_pod_name = ''agent-0'', ar_stream_id = ''str1'', ar_last_sequence = 0,
      ar_ingest_active = False\<rparr>"
    by (simp add: b demo_session_simps)
  moreover have "cp_pc demo_stream = CpRecords demo_batch
      (assignment_for_node (cb_node demo_batch) demo_live) (cb_records demo_batch)"
    by (simp add: demo_stream_def b assignment_for_node_def)
  ultimately have "\<exists>h' st' t rec'.
    capture_steps (Suc (length (cb_records demo_batch))) demo_hub demo_stream = Some (h', st') \<and>
    cp_pc st' = CpRecv \<and> cp_claim st' = cp_claim demo_stream \<and>
    cp_accepted st' = cp_accepted demo_stream + of_nat (length (cb_records demo_batch)) \<and>
    deref_session (cb_session_id demo_batch) h' = Some t \<and> map_of (ss_agents t) (cb_node demo_batch) = Some rec' \<and>
    ar_last_sequence rec' = 0 + of_nat (length (frames (cb_records demo_batch))) \<and>
    (\<forall>i \<in> set (pl_subs (ss_packets demo_live)). pl_got (ss_packets t) i =
       pl_got (ss_packets demo_live) i @
       published (assignment_for_node (cb_node demo_batch) demo_live) (cb_records demo_batch))"
    using batch_ingested [OF v] by fastforce
  then show ?thesis
    by (auto simp: b p demo_stream_def assignment_for_node_def pl_sub1_simps numeral_3_eq_3
        simp del: capture_steps.simps)
qed

theorem only_assigned_records_published_witness:
  "\<exists>h' st' t. capture_record_step demo_hub demo_stream = Some (h', st') \<and>
     deref_session ''s1'' h' = Some t \<and>
     (ss_packets t = pl_sub1 \<or> pl_got (ss_packets t) 0 = [demo_wire 1])"
proof -
  have room: "pl_room (Suc 1) pl_sub1" using demo_room by (simp add: numeral_2_eq_2)
  from publish_now_room [OF room, of "demo_wire 1"] obtain m where
    "publish_now (demo_wire 1) pl_sub1 = Some (Inr (), m)" by blast
  moreover have "assigned_target (Some demo_assignment) (capture_record_pod (demo_wire 1)) =
      Some (hd (as_targets demo_assignment))"
    by (simp add: assigned_target_def demo_assignment_def demo_wire_def demo_ref_def)
  ultimately have "publish_or_skip (Some demo_assignment) (demo_wire 1) demo_live = Some (Inr (), m)"
    by (simp add: publish_or_skip_def)
  then obtain h' st' where step: "capture_record_step demo_hub demo_stream = Some (h', st')"
    by (simp add: capture_record_step_def demo_stream_def demo_batch_def demo_hub_simps) (metis surj_pair)
  have b: "cb_session_id demo_batch = ''s1''" by (simp add: demo_batch_def)
  have "cp_pc demo_stream = CpRecords demo_batch (Some demo_assignment) (demo_wire 1 # [demo_wire 2])"
    by (simp add: demo_stream_def)
  from only_assigned_records_published [OF step this _ demo_hub_simps(1), of demo_live 0] step
  show ?thesis by (auto simp: b demo_hub_simps pl_sub1_ok pl_sub1_simps)
qed

lemma demo_env_proto_ok: "others_proto_ok demo_env"
  by (simp add: others_proto_ok_def others_ok_def demo_env_def)

lemma demo_env_fields: "he_lib demo_env = demo_lib" "he_kube demo_env d = demo_kube"
  "he_manager demo_env = demo_manager"
  by (simp_all add: demo_env_def)


text \<open>A cluster that refuses everything.\<close>

definition demo_env_down :: "(string, demo_cluster) hub_env" where
  "demo_env_down = demo_env\<lparr>he_kube := (\<lambda>_. demo_kube
     \<lparr>k_list := (\<lambda>_ _ w. (Inl \<lparr>ae_reason = Api_Other, ae_message = []\<rparr>, w)),
      k_delete_collection := (\<lambda>_ _ _ w. (Some \<lparr>ae_reason = Api_Other, ae_message = []\<rparr>, w))\<rparr>)\<rparr>"


definition demo_stopped :: session where
  "demo_stopped = set_state Session_Stopped None demo_live"

theorem stop_all_stops_witness:
  "\<exists>u. deref_session ''s1'' (put_session demo_stopped empty_hub) = Some u \<and> isTerminalState (ss_state u)"
proof -
  let ?h = "put_session demo_stopped empty_hub"
  have g: "get_session ''s1'' ?h = Some demo_stopped"
    by (simp add: get_session_def demo_stopped_def)
  have live: "hb_live ?h = [''s1'']" by (simp add: put_session_live empty_hub_def demo_stopped_def)
  have ord: "he_order demo_env xs = xs" for xs by (simp add: demo_env_def)
  have st: "stop_session_state demo_env False False demo_stopped demo_one =
      (Inr (snapshot demo_stopped), False, demo_stopped, demo_one)"
    by (simp add: stop_session_state_def isTerminalState_def demo_stopped_def)
  have "store_session demo_stopped ?h = ?h"
    by (simp add: put_session_def store_session_def update_update)
  then have "stop_all demo_env False False ?h demo_one = ([], ?h, demo_one)"
    by (simp add: stop_all_def live g st ord)
  from stop_all_stops [OF this demo_env_ok(1) hub_ok_put [OF hub_ok_empty]] show ?thesis
    by (simp add: live demo_env_def)
qed


theorem ended_stream_can_reclaim_witness:
  "\<exists>u. claim_capture_stream ''n1'' ''agent-0'' ''str1''
     (release_capture_stream ''n1'' ''str1'' demo_live) = Inr u"
proof -
  have c: "capture_return (Inr 0) demo_hub demo_stream =
     (store_session (release_capture_stream ''n1'' ''str1'' demo_live) demo_hub,
      demo_stream\<lparr>cp_claim := None, cp_pc := CpReturned (Inr 0)\<rparr>)"
    by (simp add: capture_return_def demo_stream_def demo_hub_simps)
  have a: "map_of (ss_agents demo_live) ''n1'' = Some \<lparr>ar_node = ''n1'', ar_pod_name = ''agent-0'',
      ar_stream_id = ''str1'', ar_last_sequence = 0, ar_ingest_active = False\<rparr>"
    by (simp add: demo_session_simps)
  from ended_stream_can_reclaim [OF c _ demo_hub_simps(2) a] show ?thesis
    by (simp add: demo_stream_def)
qed

definition demo_request :: targets_request where
  "demo_request = \<lparr>tr_session_id = ''s1'', tr_node = ''n1'', tr_agent_pod = ''agent-0''\<rparr>"

theorem watch_targets_never_stale_witness:
  "assignment_for_node ''n1'' demo_live = Some demo_assignment"
proof -
  have "watch_targets_step demo_request ''agent-0'' ''str1'' demo_live TgSend =
      Some (TgAssignment (ss_assign_gen demo_live), None)" by simp
  moreover have "watch_targets_step demo_request ''agent-0'' ''str1'' demo_live
      (TgAssignment (ss_assign_gen demo_live)) = Some (TgWait (ss_assign_gen demo_live), Some demo_assignment)"
    by (simp add: assignment_for_def demo_request_def demo_session_simps)
  moreover have "ss_ctx_done demo_session = False"
    by (simp add: demo_session_def record_agent_def notify_assign_locked_def demo_new_def
        new_session_state_def)
  then have "watch_targets_step demo_request ''agent-0'' ''str1'' demo_live
      (TgWait (ss_assign_gen demo_live)) = None"
    by (simp add: wait_assign_change_def demo_request_def demo_session_simps isTerminalState_def)
  ultimately have "assignment_for_node (tr_node demo_request) demo_live = Some demo_assignment"
    using watch_targets_never_stale [of demo_request "''agent-0''" "''str1''" demo_live
        "ss_assign_gen demo_live" demo_live demo_assignment demo_live] by simp
  then show ?thesis by (simp add: demo_request_def)
qed

theorem watch_targets_gate_witness:
  "\<exists>s \<in> set [demo_live, demo_live, demo_live, demo_live, demo_live]. pl_subs (ss_packets s) \<noteq> []"
proof -
  have "watch_targets_run demo_request ''agent-0'' ''str1''
      [demo_live, demo_live, demo_live, demo_live, demo_live] TgIdentity \<noteq> []"
    by (simp add: demo_request_def assignment_for_def demo_session_simps wait_until_running_def
        wait_for_subscriber_def pl_sub1_eq)
  from watch_targets_gate [OF this] show ?thesis by blast
qed

definition demo_report :: status_report where
  "demo_report = \<lparr>sr_session_id = ''s1'', sr_node = ''n1'', sr_stream_id = ''other'', sr_error = None,
     sr_stats = None, sr_agent_state = None, sr_tls_state = None\<rparr>"

theorem report_status_authorised_witness:
  "snd (report_status ''agent-0'' ''str1'' demo_report demo_hub) = demo_hub"
proof -
  obtain res h' where r: "report_status ''agent-0'' ''str1'' demo_report demo_hub = (res, h')"
    by (metis surj_pair)
  from report_status_authorised [OF r] have "h' = demo_hub"
    by (auto simp: demo_report_def)
  with r show ?thesis by simp
qed

theorem unsubscribed_client_drains_witness:
  "\<exists>l'. subscribe_packets_rounds [RECORD_KIND_TLS_EVENT] 0 [SelectUnsubscribed]
     (pl_pub1 (demo_wire 1)) = ([], Some None, l')"
proof -
  have "map_of (pl_store (pl_pub1 (demo_wire 1))) 0 = Some \<lparr>pks_ch = \<lparr>ch_buf = [demo_wire 1],
      ch_cap = 256, ch_closed = False\<rparr>, pks_done = False, pks_taken = []\<rparr>"
    by (simp add: pl_pub1_eq)
  from unsubscribed_client_drains [OF _ this, of "[RECORD_KIND_TLS_EVENT]"] pl_pub1_ok [of "demo_wire 1"]
  show ?thesis
    by (auto simp: RECORD_KIND_WIRE_FRAME_def RECORD_KIND_TLS_EVENT_def demo_wire_def
        simp del: subscribe_packets_rounds.simps)
qed

end
