(* ===== verification/Agent_Hub.thy ===== *)
theory Agent_Hub imports Agent_Teardown Server_Facts begin

text \<open>
  The agent and the hub together: what one side produces, the other side accepts.  The hub's
  manifest configures the agent, the hub's assignments pass the agent's checks, the stream an
  agent sends is ingested whole, and its reports are recorded.
\<close>

section \<open>Configuration\<close>

text \<open>The environment a container gets: the value of each variable, or the pod's name.\<close>

definition env_delivered :: "(string \<Rightarrow> string) \<Rightarrow> string \<Rightarrow> env_var list \<Rightarrow> bool" where
  "env_delivered getenv podName env =
     list_all (\<lambda>e. getenv (ev_name e) =
       (case ev_field_path e of None \<Rightarrow> ev_value e | Some _ \<Rightarrow> podName)) env"

lemma manifest_env_configures:
  assumes "pod_manifest L ref sid str node cfg0 dl = Inr pod"
    and "env_delivered getenv podName (ct_env (hd (kp_containers pod)))" and "podName \<noteq> []"
  shows "config_from_env getenv =
    (\<lparr>cf_session_id = sid, cf_node = node, cf_agent_pod = podName, cf_stream_id = str,
      cf_hub_addr = ac_hub_ingest_addr (agent_config_with_defaults ref cfg0),
      cf_cri_socket = ac_cri_socket (agent_config_with_defaults ref cfg0)\<rparr>, [])"
proof -
  let ?cfg = "agent_config_with_defaults ref cfg0"
  from pod_manifest_InrD [OF assms(1)] have ok: "agent_config_validate L ?cfg = []" "sid \<noteq> []"
    "str \<noteq> []" "node \<noteq> []" by auto
  then have c: "ac_cri_socket ?cfg \<noteq> []" "\<not> contains (ac_cri_socket ?cfg) ''://''"
    "is_abs (ac_cri_socket ?cfg)" "ac_hub_ingest_addr ?cfg \<noteq> []"
    by (auto simp: agent_config_validate_def split: if_splits)
  have "ct_env (hd (kp_containers pod)) = manifest_env sid str node ?cfg"
    by (rule pod_manifest_env [OF assms(1)])
  with assms(2) have "getenv EnvAgentSessionID = sid" "getenv EnvAgentNode = node"
    "getenv EnvAgentStreamID = str" "getenv EnvAgentHubAddr = ac_hub_ingest_addr ?cfg"
    "getenv EnvAgentCRISocket = ac_cri_socket ?cfg" "getenv EnvAgentPod = podName"
    by (simp_all add: env_delivered_def manifest_env_def env_value_def)
  with ok c assms(3) show ?thesis by (simp add: config_from_env_def Let_def config_validate_def)
qed

text \<open>
  The manifest and the agent agree on the environment: an agent started from the hub's pod
  reads back the session, node, stream, hub address and CRI socket it was built with, and its
  configuration is valid.
\<close>

theorem manifest_configures_agent:
  assumes "pod_manifest L ref sid str node cfg0 dl = Inr pod"
    and "env_delivered getenv podName (ct_env (hd (kp_containers pod)))" and "podName \<noteq> []"
  shows "config_from_env getenv =
    (\<lparr>cf_session_id = sid, cf_node = node, cf_agent_pod = podName, cf_stream_id = str,
      cf_hub_addr = ac_hub_ingest_addr (agent_config_with_defaults ref cfg0),
      cf_cri_socket = ac_cri_socket (agent_config_with_defaults ref cfg0)\<rparr>, [])"
  by (rule manifest_env_configures [OF assms])

definition demo_getenv :: "string \<Rightarrow> string" where
  "demo_getenv k = (case find (\<lambda>e. ev_name e = k) (ct_env (hd (kp_containers demo_manifest))) of
     None \<Rightarrow> [] | Some e \<Rightarrow> (case ev_field_path e of None \<Rightarrow> ev_value e | Some _ \<Rightarrow> ''k8s-sniffer-x''))"

theorem manifest_configures_agent_witness:
  "snd (config_from_env demo_getenv) = [] \<and> cf_stream_id (fst (config_from_env demo_getenv)) = ''str1''"
proof -
  have env: "ct_env (hd (kp_containers demo_manifest)) = manifest_env ''s1'' ''str1'' ''n1'' demo_agent_config"
    using pod_manifest_env [OF demo_manifest_ok] by (simp add: demo_agent_config_defaults)
  have "env_delivered demo_getenv ''k8s-sniffer-x'' (ct_env (hd (kp_containers demo_manifest)))"
    by (simp add: env_delivered_def demo_getenv_def env manifest_env_def env_value_def env_name_defs)
  from manifest_configures_agent [OF demo_manifest_ok this] show ?thesis by simp
qed

section \<open>Assignments\<close>

definition pod_identified :: "kpod \<Rightarrow> bool" where
  "pod_identified p = (kp_namespace p \<noteq> [] \<and> kp_name p \<noteq> [] \<and> kp_uid p \<noteq> [])"

lemma validate_targets_ok:
  "list_all (\<lambda>p. pr_namespace p \<noteq> [] \<and> pr_name p \<noteq> [] \<and> pr_uid p \<noteq> [] \<and> pr_node p = node) ps \<Longrightarrow>
   validate_targets node i (map (\<lambda>pod. \<lparr>tg_pod = Some pod, tg_interfaces = [], tg_bpf_filter = f,
     tg_tls_mode = m, tg_snaplen = n\<rparr>) ps) = None"
  by (induction ps arbitrary: i) auto

lemma built_assignment_valid:
  assumes "grp \<in> set (fst (group_by_node pods))" and "list_all pod_identified pods"
    and "cf_session_id cfg = sid" "cf_node cfg = ng_node grp" "cf_stream_id cfg = streamID" "streamID \<noteq> []"
  shows "validate_assignment cfg (Some (build_assignment sid grp sp streamID)) = None"
proof -
  obtain n where n: "n \<in> set (map kp_node_name (scheduled pods))" "ng_node grp = n"
    "ng_targets grp = on_node n pods"
    using assms(1) by (fastforce simp: group_by_node_eq_spec group_spec_def)
  have "list_all (\<lambda>p. pr_namespace p \<noteq> [] \<and> pr_name p \<noteq> [] \<and> pr_uid p \<noteq> [] \<and> pr_node p = n) (ng_targets grp)"
    using assms(2) by (auto simp: n(3) on_node_def pod_ref_from_pod_def list_all_iff pod_identified_def)
  moreover have "ng_targets grp \<noteq> []"
    using n by (auto simp: on_node_def scheduled_def filter_empty_conv)
  ultimately show ?thesis
    using assms n(2) validate_targets_ok by (simp add: validate_assignment_def build_assignment_def)
qed

text \<open>
  The agent accepts the hub's assignments: the assignment built for a group of the
  discovered pods passes the checks of the agent of that session, node and stream.
\<close>

theorem built_assignment_accepted:
  assumes "grp \<in> set (fst (group_by_node pods))" and "list_all pod_identified pods"
    and "cf_session_id cfg = sid" "cf_node cfg = ng_node grp" "cf_stream_id cfg = streamID" "streamID \<noteq> []"
  shows "validate_assignment cfg (Some (build_assignment sid grp sp streamID)) = None"
  by (rule built_assignment_valid [OF assms])

definition demo_located :: kpod where
  "demo_located = empty_pod\<lparr>kp_namespace := ''prod'', kp_name := ''pay-1'', kp_uid := ''u1'', kp_node_name := ''n1''\<rparr>"

theorem built_assignment_accepted_witness:
  "validate_assignment demo_config
     (Some (build_assignment ''s1'' \<lparr>ng_node = ''n1'', ng_targets = [demo_ref]\<rparr> demo_wspec ''str1'')) = None"
proof (rule built_assignment_accepted)
  show "\<lparr>ng_node = ''n1'', ng_targets = [demo_ref]\<rparr> \<in> set (fst (group_by_node [demo_located]))"
    by (simp add: group_by_node_eq_spec group_spec_def scheduled_def firsts_def on_node_def
        demo_located_def pod_ref_from_pod_def demo_ref_def empty_pod_def)
qed (simp_all add: demo_located_def pod_identified_def demo_config_def empty_pod_def)

section \<open>The capture stream\<close>

text \<open>The hub's view of a stream of batches: each is validated and its records committed.\<close>

fun ingest_all :: "capture_batch list \<Rightarrow> session \<Rightarrow> session option" where
  "ingest_all [] s = Some s"
| "ingest_all (b # bs) s =
     (if validate_capture_batch b s \<noteq> None then None
      else (case commit_all (cb_node b) (cb_stream_id b)
                   (\<lambda>r. assigned_target (assignment_for_node (cb_node b) s) (capture_record_pod r) \<noteq> None)
                   (cb_records b) s of
              Inl e \<Rightarrow> None
            | Inr t \<Rightarrow> ingest_all bs t))"

definition batch_of :: "agent_assignment \<Rightarrow> capture_batch \<Rightarrow> bool" where
  "batch_of a b \<longleftrightarrow>
     cb_session_id b = as_session_id a \<and> cb_node b = as_node a \<and> cb_stream_id b = as_stream_id a \<and>
     length (cb_records b) \<le> 64 \<and>
     sum_list (map (\<lambda>r. length (record_payload r)) (cb_records b)) \<le> 4 * 2 ^ 20 \<and>
     list_all (record_acceptable (Some a)) (cb_records b)"

lemma unstamp_payload [simp]: "record_payload (unstamp r) = record_payload r"
  by (cases r) auto

lemma unstamp_acceptable [simp]: "record_acceptable a (unstamp r) = record_acceptable a r"
  by (cases r) (auto simp: record_acceptable_def)

lemma batch_of_unstamp [simp]: "batch_of a (unstamp_batch b) = batch_of a b"
  by (simp add: batch_of_def unstamp_batch_def list_all_iff o_def)

lemma commit_keeps:
  "commit_capture_record node sid r c s = Inr t \<Longrightarrow> ss_proto t = ss_proto s \<and> ss_assigns t = ss_assigns s"
  by (auto simp: commit_capture_record_def Let_def split: option.splits if_splits)

lemma commit_all_keeps:
  "commit_all node sid cnt rs s = Inr t \<Longrightarrow> ss_proto t = ss_proto s \<and> ss_assigns t = ss_assigns s"
  by (induction rs arbitrary: s) (auto dest!: commit_keeps split: sum.splits)

lemma commit_keeps_stream:
  "commit_capture_record node sid r c s = Inr t \<Longrightarrow> map_of (ss_agents s) node = Some rec \<Longrightarrow>
   \<exists>rec'. map_of (ss_agents t) node = Some rec' \<and> ar_stream_id rec' = ar_stream_id rec"
  by (auto simp: commit_capture_record_def Let_def update_conv' split: option.splits if_splits)

lemma commit_all_keeps_stream:
  "commit_all node sid cnt rs s = Inr t \<Longrightarrow> map_of (ss_agents s) node = Some rec \<Longrightarrow>
   \<exists>rec'. map_of (ss_agents t) node = Some rec' \<and> ar_stream_id rec' = ar_stream_id rec"
proof (induction rs arbitrary: s rec)
  case (Cons r rs)
  then obtain u where u: "commit_capture_record node sid r (cnt r) s = Inr u"
    "commit_all node sid cnt rs u = Inr t" by (auto split: sum.splits)
  from commit_keeps_stream [OF u(1) Cons.prems(2)] Cons.IH [OF u(2)] show ?case by fastforce
qed simp

text \<open>A session that takes the stream of this assignment, the last frame being number \<open>p\<close>.\<close>

definition takes_stream :: "agent_assignment \<Rightarrow> u64 \<Rightarrow> session \<Rightarrow> bool" where
  "takes_stream a p s \<longleftrightarrow>
     as_session_id a \<noteq> [] \<and> ss_id s = as_session_id a \<and> as_stream_id a \<noteq> [] \<and>
     ss_state s \<in> {Session_Starting, Session_Running, Session_Stopping} \<and>
     map_of (ss_assigns s) (as_node a) = Some a \<and>
     (\<exists>rec. map_of (ss_agents s) (as_node a) = Some rec \<and> ar_stream_id rec = as_stream_id a \<and>
        ar_last_sequence rec = p)"

lemma ingest_all_takes:
  "takes_stream a p s \<Longrightarrow> list_all (batch_of a) bs \<Longrightarrow>
   consecutive p (frames (concat (map cb_records bs))) \<Longrightarrow>
   \<exists>t. ingest_all bs s = Some t \<and>
     takes_stream a (p + of_nat (length (frames (concat (map cb_records bs))))) t"
proof (induction bs arbitrary: p s)
  case (Cons b bs)
  from Cons.prems(1) obtain rec where rec: "map_of (ss_agents s) (as_node a) = Some rec"
    "ar_stream_id rec = as_stream_id a" "ar_last_sequence rec = p" by (auto simp: takes_stream_def)
  have ids: "cb_node b = as_node a" "cb_stream_id b = as_stream_id a" "batch_of a b"
    and c: "consecutive p (frames (cb_records b))"
      "consecutive (p + of_nat (length (frames (cb_records b)))) (frames (concat (map cb_records bs)))"
    using Cons.prems by (auto simp: batch_of_def frames_append consecutive_append)
  have v: "validate_capture_batch b s = None"
    using Cons.prems(1) ids rec c(1) by (auto simp: validate_batch_None_iff takes_stream_def batch_of_def)
  define cnt where "cnt = (\<lambda>r. assigned_target (assignment_for_node (cb_node b) s) (capture_record_pod r) \<noteq> None)"
  from commit_all_ok [of s "cb_node b" rec "cb_stream_id b" "cb_records b" cnt] rec ids c(1)
  obtain t rec' where t: "commit_all (cb_node b) (cb_stream_id b) cnt (cb_records b) s = Inr t"
    "map_of (ss_agents t) (as_node a) = Some rec'"
    "ar_last_sequence rec' = p + of_nat (length (frames (cb_records b)))" by auto
  from commit_all_keeps_stream [OF t(1)] rec ids t(2) have "ar_stream_id rec' = as_stream_id a" by auto
  with t commit_all_keeps [OF t(1)] Cons.prems(1)
  have "takes_stream a (p + of_nat (length (frames (cb_records b)))) t"
    by (auto simp: takes_stream_def)
  from Cons.IH [OF this _ c(2)] Cons.prems(2) v t(1)
  show ?case by (auto simp: frames_append cnt_def ac_simps)
qed simp

text \<open>
  A batch as the agent makes them: a packet of the pcap library (which never returns more
  bytes than the packet had) no larger than the hub's limit, or a record of the TLS worker
  within it whose pod is not a target with TLS off.
\<close>

fun pcap_fits :: "(int \<Rightarrow> timestamp) \<Rightarrow> pcap_read \<Rightarrow> bool" where
  "pcap_fits newts (ReadPacket d n t) =
     (int (length d) \<le> n \<and> n < 2 ^ 32 \<and> length d \<le> 4 * 2 ^ 20 \<and> ts_valid (newts t))"
| "pcap_fits newts _ = False"

definition agent_batch :: "(int \<Rightarrow> timestamp) \<Rightarrow> agent_assignment \<Rightarrow> capture_batch \<Rightarrow> bool" where
  "agent_batch newts a b \<longleftrightarrow>
     (\<exists>lt pod r. pcap_fits newts r \<and> b = packet_batch newts lt pod a r) \<or>
     (\<exists>ev. b = tls_batch a ev \<and> length (te_payload ev) \<le> 4 * 2 ^ 20 \<and>
        record_acceptable (Some a) (TlsEvent ev))"

lemma packet_acceptable:
  assumes "pcap_fits newts r"
  shows "record_acceptable a (WireFrame (projr (read_frame newts lt pod r)))"
proof (cases r)
  case (ReadPacket d n t)
  with assms have n: "0 \<le> n" "n < 2 ^ 32" "int (length d) \<le> n" by auto
  then have "unat (word_of_int n :: 32 word) = nat n"
    by (simp add: unat_eq_nat_uint word_of_int_inverse uint_word_of_int_eq take_bit_int_eq_self)
  moreover have "unat (word_of_nat (length d) :: 32 word) = length d"
    using n by (simp add: unat_of_nat)
  ultimately have "(word_of_nat (length d) :: 32 word) \<le> word_of_int n"
    using n by (simp add: word_le_nat_alt)
  with ReadPacket assms show ?thesis by (simp add: record_acceptable_def read_frame_def)
qed (use assms in auto)

lemma agent_batch_ok: "agent_batch newts a b \<Longrightarrow> batch_of a b"
proof (unfold agent_batch_def, elim disjE exE conjE)
  fix lt pod r assume r: "pcap_fits newts r" "b = packet_batch newts lt pod a r"
  then obtain d n t where "r = ReadPacket d n t" "length d \<le> 4 * 2 ^ 20" by (cases r) auto
  with r packet_acceptable [OF r(1), of "Some a" lt pod] show "batch_of a b"
    by (simp add: batch_of_def packet_batch_def empty_batch_def read_frame_def)
qed (simp add: batch_of_def tls_batch_def empty_batch_def)

lemma sent_batches_ok:
  assumes "send_batches 0 bs = (sent, err)" and "list_all (\<lambda>(b, _). agent_batch newts a b) bs"
  shows "list_all (batch_of a) sent \<and> consecutive 0 (frames (concat (map cb_records sent)))"
proof -
  from send_batches_numbered [OF assms(1)] obtain n where
    n: "consecutive 0 (frames (concat (map cb_records sent)))"
      "map unstamp_batch sent = map (unstamp_batch \<circ> fst) (take n bs)" by blast
  have "list_all (batch_of a) (map (unstamp_batch \<circ> fst) (take n bs))"
    using assms(2) by (fastforce simp: list_all_iff dest!: in_set_takeD intro: agent_batch_ok)
  then have "list_all (batch_of a) (map unstamp_batch sent)" unfolding n(2) .
  with n(1) show ?thesis by (simp add: list_all_iff)
qed

text \<open>In every interleaving of the agent's goroutines.\<close>

lemma run_batches_ok:
  assumes "run_events env evs (run_boot env asg) = Some r"
    and "list_all (agent_batch newts a) (accepted_of evs)"
  shows "list_all (batch_of a) (r_sent r) \<and> consecutive 0 (frames (concat (map cb_records (r_sent r))))"
proof (rule sent_batches_ok)
  have "sender_inv evs r" by (rule sender_inv_run [OF assms(1) run_boot_sender])
  then show "send_batches 0 (zip (accepted_of evs) (sends_of evs)) = (r_sent r, sender_error (r_sender r))"
    by (simp add: sender_inv_def)
  show "list_all (\<lambda>(b, _). agent_batch newts a b) (zip (accepted_of evs) (sends_of evs))"
    using assms(2) by (auto simp: list_all_iff dest!: set_zip_leftD)
qed

text \<open>
  What the agent sends, the hub ingests: whatever mix of packets and TLS records the captures
  of an assignment put on the channel, and whichever send fails, the batches that were sent
  are all accepted and committed by a hub session that registered this stream, and the hub's
  last sequence number is the number of frames sent.
\<close>

theorem agent_stream_ingested:
  assumes "send_batches 0 bs = (sent, err)" and "list_all (\<lambda>(b, _). agent_batch newts a b) bs"
    and "takes_stream a 0 s"
  shows "\<exists>t. ingest_all sent s = Some t \<and>
    takes_stream a (of_nat (length (frames (concat (map cb_records sent))))) t"
  using ingest_all_takes [OF assms(3)] sent_batches_ok [OF assms(1,2)] by simp

lemma demo_takes_stream: "takes_stream demo_assignment 0 demo_session"
  by (simp add: takes_stream_def demo_session_simps) (simp add: demo_assignment_def)

theorem agent_stream_ingested_witness:
  "\<exists>t. ingest_all demo_sent demo_session = Some t"
proof -
  have "list_all (\<lambda>(b, _). agent_batch demo_newts demo_assignment b)
    [(demo_capture_batch (ReadPacket ''abc'' 3 5), None :: go_err option),
     (demo_capture_batch (ReadPacket ''de'' 9 6), None)]"
    unfolding agent_batch_def demo_capture_batch_def list.pred_inject case_prod_conv
    by (intro conjI disjI1 exI TrueI, rule_tac [2] refl, rule_tac [3] refl) (simp_all add: demo_newts_def)
  from agent_stream_ingested [OF demo_send this demo_takes_stream] show ?thesis by blast
qed

text \<open>
  From the captures to the hub, in every interleaving of the agent's goroutines: if every
  batch put on the channel is a packet or a TLS record within the limits, then what the agent
  has sent at any moment is accepted and committed whole by a hub session that registered this
  stream, and the hub's last sequence number is the number of frames sent.
\<close>

theorem agent_run_ingested:
  assumes "run_events env evs (run_boot env asg) = Some r"
    and "list_all (agent_batch newts a) (accepted_of evs)" and "takes_stream a 0 s"
  shows "\<exists>t. ingest_all (r_sent r) s = Some t \<and>
    takes_stream a (of_nat (length (frames (concat (map cb_records (r_sent r)))))) t"
  using ingest_all_takes [OF assms(3)] run_batches_ok [OF assms(1,2)] by simp

definition demo_hub_run :: "run_event list" where
  "demo_hub_run =
     [EvRead 0 WireSource (demo_capture_batch (ReadPacket ''abc'' 3 5)),
      EvPut 0 WireSource (demo_capture_batch (ReadPacket ''abc'' 3 5)), EvSend None]"

lemma demo_hub_run_state:
  "run_events demo_run_env demo_hub_run (run_boot demo_run_env demo_assignment) = Some (demo_state demo_hub_run)"
  by (simp add: demo_state_def demo_hub_run_def demo_run_simps split: prod.split)

theorem agent_run_ingested_witness:
  "\<exists>t. ingest_all (r_sent (demo_state demo_hub_run)) demo_session = Some t"
proof -
  have "list_all (agent_batch demo_newts demo_assignment) (accepted_of demo_hub_run)"
    unfolding agent_batch_def demo_capture_batch_def demo_hub_run_def accepted_of.simps list.pred_inject
    by (intro conjI disjI1 exI TrueI, rule_tac [2] refl) (simp_all add: demo_newts_def)
  from agent_run_ingested [OF demo_hub_run_state this demo_takes_stream] show ?thesis by blast
qed

text \<open>
  One TLS record can end the whole capture: the worker collects the lines of a record
  without a limit, and a batch with more than 4 MiB of payload is refused by every session, so
  that the hub ends the agent's stream, frames included.
\<close>

theorem oversized_tls_record_refused:
  assumes "length (te_payload ev) > 4 * 2 ^ 20" and "takes_stream a p s" "record_acceptable (Some a) (TlsEvent ev)"
  shows "validate_capture_batch (tls_batch a ev) s = Some PayloadBytesExceed \<and>
    ingest_all [tls_batch a ev] s = None"
proof -
  from assms(2) obtain rec where rec: "map_of (ss_agents s) (as_node a) = Some rec"
    "ar_stream_id rec = as_stream_id a" by (auto simp: takes_stream_def)
  obtain n where n: "validate_capture_record (TlsEvent ev) (Some a) = Inr n" "n = length (te_payload ev)"
    using assms(3) validate_capture_record_iff(1) [of "TlsEvent ev" "Some a"]
      validate_capture_record_iff(2) [of "TlsEvent ev" "Some a"] by auto
  have "validate_capture_batch (tls_batch a ev) s = Some PayloadBytesExceed"
    using assms(1,2) rec n
    by (simp add: validate_capture_batch_def tls_batch_def empty_batch_def takes_stream_def
        maxBatchRecords_def maxBatchPayloadBytes_def)
  then show ?thesis by simp
qed

definition demo_big_event :: tls_event where
  "demo_big_event = \<lparr>te_pod = None, te_timestamp = None, te_direction = DIRECTION_OUTBOUND,
     te_payload = replicate (4 * 2 ^ 20 + 1) CHR ''x'', te_connection_id = [], te_pid = 7,
     te_process = ''curl'', te_tls_library = ''openssl'', te_sequence = 1\<rparr>"

theorem oversized_tls_record_refused_witness:
  "ingest_all [tls_batch demo_assignment demo_big_event] demo_session = None"
proof -
  have "length (te_payload demo_big_event) > 4 * 2 ^ 20" by (simp add: demo_big_event_def)
  moreover have "record_acceptable (Some demo_assignment) (TlsEvent demo_big_event)"
    by (simp add: record_acceptable_def demo_big_event_def assigned_target_def)
  ultimately show ?thesis
    using oversized_tls_record_refused [OF _ demo_takes_stream] by blast
qed

section \<open>Reports\<close>

text \<open>
  C29. The hub records what the agent reports: with the identity the agent's client attaches to
  the call, a capture failure or a TLS status of the session's registered agent is accepted
  and becomes exactly one event carrying it; \<open>get\<close> is the metadata lookup of gRPC, the values
  of a key in order.
\<close>

theorem agent_reports_recorded:
  assumes "\<And>md k. get md k = map snd (filter (\<lambda>(x, _). x = k) md)"
    and "get_session (as_session_id a) h = Some s" "ss_id s = as_session_id a" "as_session_id a \<noteq> []"
    and "map_of (ss_agents s) (as_node a) = Some rec" "ar_pod_name rec = pod" "pod \<noteq> []"
    and "ar_stream_id rec = as_stream_id a" "as_stream_id a \<noteq> []"
    and "r = capture_error_report a pod t e \<or> tls_status_report a t st = Some r"
  shows "\<exists>ev. (case incoming_agent_identity (get (with_agent_identity pod (as_stream_id a) []) AgentPodMetadataKey)
                    (get (with_agent_identity pod (as_stream_id a) []) AgentStreamMetadataKey) of
           (agentPod, streamID) \<Rightarrow> report_status agentPod streamID r h) =
         (None, store_session (emit ev s) h) \<and>
    se_session_id ev = as_session_id a \<and>
    (se_payload ev = TlsStateEvent \<lparr>tsc_pod = tg_pod t, tsc_status = fst st, tsc_detail = snd st\<rparr> \<or>
     (\<exists>ce. se_payload ev = ErrorEvent ce \<and> ce_pod ce = tg_pod t \<and> ce_detail ce = MsgText (te_text e)))"
proof -
  have id: "incoming_agent_identity (get (with_agent_identity pod (as_stream_id a) []) AgentPodMetadataKey)
      (get (with_agent_identity pod (as_stream_id a) []) AgentStreamMetadataKey) = (pod, as_stream_id a)"
    by (simp add: assms(1) with_agent_identity_def incoming_agent_identity_def
        AgentPodMetadataKey_def AgentStreamMetadataKey_def)
  from assms(10) show ?thesis
  proof
    assume r: "r = capture_error_report a pod t e"
    then obtain ce where "sr_error r = Some ce" "ce_pod ce = tg_pod t" "ce_detail ce = MsgText (te_text e)"
      "sr_session_id r = as_session_id a" "sr_node r = as_node a" "sr_stream_id r = as_stream_id a"
      by (auto simp: capture_error_report_def bare_report_def split: prod.splits)
    with assms id show ?thesis
      by (auto simp: report_status_def report_event_def validate_agent_envelope_def session_event_of_def)
  next
    assume "tls_status_report a t st = Some r"
    then have "r = (bare_report a)\<lparr>sr_tls_state := Some \<lparr>tsc_pod = tg_pod t, tsc_status = fst st, tsc_detail = snd st\<rparr>\<rparr>"
      by (auto simp: tls_status_report_def split: if_splits)
    with assms(2-9) id show ?thesis
      by (auto simp: report_status_def report_event_def validate_agent_envelope_def bare_report_def
          session_event_of_def Let_def)
  qed
qed

theorem agent_reports_recorded_witness:
  "\<exists>ev. report_status ''agent-0'' ''str1''
      (capture_error_report demo_assignment ''agent-0'' (hd (as_targets demo_assignment)) (PlainErr (GoErr ''x'' False)))
      demo_hub = (None, store_session (emit ev demo_live) demo_hub)"
proof -
  have g: "map snd (filter (\<lambda>(x, _). x = k) md) = map snd (filter (\<lambda>(x, _). x = k) md)" for md :: "(string \<times> string) list" and k
    by simp
  have a: "as_session_id demo_assignment = ''s1''" "as_node demo_assignment = ''n1''"
    "as_stream_id demo_assignment = ''str1''" by (simp_all add: demo_assignment_def)
  have rec: "map_of (ss_agents demo_live) ''n1'' = Some \<lparr>ar_node = ''n1'', ar_pod_name = ''agent-0'',
    ar_stream_id = ''str1'', ar_last_sequence = 0, ar_ingest_active = False\<rparr>"
    by (simp add: demo_session_simps)
  have h: "get_session ''s1'' demo_hub = Some demo_live" by (simp add: demo_hub_simps)
  have i: "incoming_agent_identity (map snd (filter (\<lambda>(x, _). x = AgentPodMetadataKey) (with_agent_identity ''agent-0'' ''str1'' [])))
    (map snd (filter (\<lambda>(x, _). x = AgentStreamMetadataKey) (with_agent_identity ''agent-0'' ''str1'' []))) = (''agent-0'', ''str1'')"
    by (simp add: with_agent_identity_def incoming_agent_identity_def AgentPodMetadataKey_def AgentStreamMetadataKey_def)
  from agent_reports_recorded [where get = "\<lambda>md k. map snd (filter (\<lambda>(x, _). x = k) md)"
      and a = demo_assignment and h = demo_hub and s = demo_live and pod = "''agent-0''"
      and t = "hd (as_targets demo_assignment)" and e = "PlainErr (GoErr ''x'' False)"
      and r = "capture_error_report demo_assignment ''agent-0'' (hd (as_targets demo_assignment)) (PlainErr (GoErr ''x'' False))",
      OF g, unfolded a i prod.case, OF h _ _ rec]
  show ?thesis by (fastforce simp: demo_session_simps)
qed

end
