(* ===== verification/Go_Encoding.thy ===== *)
theory Go_Encoding imports Go_Text begin

text \<open>
  The encodings of Go's standard library the JSONL sink relies on: \<open>base64.StdEncoding\<close>, the
  string literals of \<open>encoding/json\<close> (Go 1.22, HTML escaping off) and the text of a time in
  UTC; with the readers that undo them, which state what a consumer of the file recovers.
\<close>

section \<open>Base64\<close>

definition b64_alphabet :: string where
  "b64_alphabet = ''ABCDEFGHIJKLMNOPQRSTUVWXYZabcdefghijklmnopqrstuvwxyz0123456789+/''"

definition b64_char :: "nat \<Rightarrow> char" where
  "b64_char n = b64_alphabet ! n"

fun base64 :: "string \<Rightarrow> string" where
  "base64 [] = []"
| "base64 [a] = [b64_char (byte a div 4), b64_char (byte a mod 4 * 16), CHR ''='', CHR ''='']"
| "base64 [a, b] =
     [b64_char (byte a div 4), b64_char (byte a mod 4 * 16 + byte b div 16),
      b64_char (byte b mod 16 * 4), CHR ''='']"
| "base64 (a # b # c # s) =
     b64_char (byte a div 4) # b64_char (byte a mod 4 * 16 + byte b div 16)
     # b64_char (byte b mod 16 * 4 + byte c div 64) # b64_char (byte c mod 64) # base64 s"

definition b64_value :: "char \<Rightarrow> nat" where
  "b64_value c = length (takeWhile (\<lambda>x. x \<noteq> c) b64_alphabet)"

fun unbase64 :: "string \<Rightarrow> string" where
  "unbase64 (w # x # y # z # s) =
     (let a = b64_value w; b = b64_value x; c = b64_value y; d = b64_value z in
      if y = CHR ''='' then [char_of (a * 4 + b div 16)]
      else if z = CHR ''='' then [char_of (a * 4 + b div 16), char_of (b mod 16 * 16 + c div 4)]
      else char_of (a * 4 + b div 16) # char_of (b mod 16 * 16 + c div 4)
           # char_of (c mod 4 * 64 + d) # unbase64 s)"
| "unbase64 _ = []"

lemma b64_alphabet_facts:
  "list_all (\<lambda>n. b64_value (b64_char n) = n \<and> b64_char n \<noteq> CHR ''='') [0..<64]"
  by code_simp

lemma b64_char_inverse: "n < 64 \<Longrightarrow> b64_value (b64_char n) = n"
  using b64_alphabet_facts by (simp add: list_all_iff)

lemma b64_char_no_pad: "n < 64 \<Longrightarrow> b64_char n \<noteq> CHR ''=''"
  using b64_alphabet_facts by (simp add: list_all_iff)

lemma byte_less: "byte c < 256"
  by (simp add: byte_def)

lemma char_of_byte [simp]: "char_of (byte c) = c"
  by (simp add: byte_def)

lemma byte_split:
  "byte a div 4 < 64" "byte a mod 4 * 16 < 64" "byte a mod 4 * 16 + byte b div 16 < 64"
  "byte b mod 16 * 4 < 64" "byte b mod 16 * 4 + byte c div 64 < 64"
  using byte_less [of a] byte_less [of b] byte_less [of c] by simp_all

lemma byte_high:
  "byte b div 16 div 16 = 0" "byte b div 16 mod 16 = byte b div 16"
  "byte b div 64 div 4 = 0" "byte b div 64 mod 4 = byte b div 64"
  using byte_less [of b] by simp_all

lemma unbase64_base64: "unbase64 (base64 s) = s"
  by (induction s rule: base64.induct)
    (simp_all add: Let_def b64_char_inverse b64_char_no_pad byte_split byte_high)

lemma base64_Nil_iff [simp]: "base64 s = [] \<longleftrightarrow> s = []"
  by (cases s rule: base64.cases) simp_all

section \<open>JSON string literals\<close>

definition hex_char :: "nat \<Rightarrow> char" where
  "hex_char n = (if n < 10 then char_of (48 + n) else char_of (87 + n))"

definition json_escape_byte :: "char \<Rightarrow> string" where
  "json_escape_byte c =
     (if c = CHR 0x22 \<or> c = CHR 0x5C then [CHR 0x5C, c]
      else if c = CHR 0x08 then [CHR 0x5C, CHR ''b'']
      else if c = CHR 0x0C then [CHR 0x5C, CHR ''f'']
      else if c = CHR 0x0A then [CHR 0x5C, CHR ''n'']
      else if c = CHR 0x0D then [CHR 0x5C, CHR ''r'']
      else if c = CHR 0x09 then [CHR 0x5C, CHR ''t'']
      else if byte c < 32 then CHR 0x5C # ''u00'' @ [hex_char (byte c div 16), hex_char (byte c mod 16)]
      else [c])"

text \<open>U+2028 and U+2029 are escaped, every other valid rune is copied.\<close>

definition json_escape_rune :: "string \<Rightarrow> string" where
  "json_escape_rune r =
     (if r = [CHR 0xE2, CHR 0x80, CHR 0xA8] then CHR 0x5C # ''u2028''
      else if r = [CHR 0xE2, CHR 0x80, CHR 0xA9] then CHR 0x5C # ''u2029''
      else r)"

function json_escape :: "string \<Rightarrow> string" where
  "json_escape s =
     (case s of
        [] \<Rightarrow> []
      | c # cs \<Rightarrow>
          if byte c < 128 then json_escape_byte c @ json_escape cs
          else (case utf8_width s of
                  None \<Rightarrow> CHR 0x5C # ''ufffd'' @ json_escape cs
                | Some n \<Rightarrow> json_escape_rune (take n s) @ json_escape (drop n s)))"
  by pat_completeness auto
termination
  by (relation "measure length") (auto dest: utf8_width_pos)

declare json_escape.simps [simp del]

definition json_quote :: "string \<Rightarrow> string" where
  "json_quote s = CHR 0x22 # json_escape s @ [CHR 0x22]"

definition unhex :: "char \<Rightarrow> nat" where
  "unhex c = (if byte c < 58 then byte c - 48 else byte c - 87)"

text \<open>The bytes of a code point below U+10000.\<close>

definition utf8_encode :: "nat \<Rightarrow> string" where
  "utf8_encode n =
     (if n < 0x80 then [char_of n]
      else if n < 0x800 then [char_of (0xC0 + n div 64), char_of (0x80 + n mod 64)]
      else [char_of (0xE0 + n div 4096), char_of (0x80 + n div 64 mod 64), char_of (0x80 + n mod 64)])"

definition unescape_char :: "char \<Rightarrow> char" where
  "unescape_char c =
     (if c = CHR ''b'' then CHR 0x08 else if c = CHR ''f'' then CHR 0x0C
      else if c = CHR ''n'' then CHR 0x0A else if c = CHR ''r'' then CHR 0x0D
      else if c = CHR ''t'' then CHR 0x09 else c)"

fun json_unescape :: "string \<Rightarrow> string" where
  "json_unescape [] = []"
| "json_unescape (c # s) =
     (if c \<noteq> CHR 0x5C then c # json_unescape s
      else
        case s of
          [] \<Rightarrow> []
        | d # t \<Rightarrow>
            if d \<noteq> CHR ''u'' then unescape_char d # json_unescape t
            else
              case t of
                h # i # j # k # r \<Rightarrow>
                  utf8_encode (((unhex h * 16 + unhex i) * 16 + unhex j) * 16 + unhex k)
                  @ json_unescape r
              | _ \<Rightarrow> [])"


lemma byte_nibble: "byte c div 16 < 16"
  using byte_less [of c] by simp

lemma hex_char_inverse: "n < 16 \<Longrightarrow> unhex (hex_char n) = n"
  by (simp add: unhex_def hex_char_def byte_def)

lemma hex_byte: "byte c < 32 \<Longrightarrow> 16 * unhex (hex_char (byte c div 16)) + unhex (hex_char (byte c mod 16)) = byte c"
  by (simp add: hex_char_inverse)

lemma json_unescape_copies:
  "list_all (\<lambda>c. 128 \<le> byte c) r \<Longrightarrow> json_unescape (r @ t) = r @ json_unescape t"
  by (induction r) (auto simp: byte_def)

lemma json_unescape_byte:
  assumes "byte c < 128"
  shows "json_unescape (json_escape_byte c @ t) = c # json_unescape t"
proof (cases "json_escape_byte c = CHR 0x5C # ''u00'' @ [hex_char (byte c div 16), hex_char (byte c mod 16)]")
  case True
  then have "byte c < 32" by (auto simp: json_escape_byte_def split: if_splits)
  then show ?thesis
    using True hex_byte [of c]
    by (simp add: unhex_def [of "CHR ''0''"] byte_def [of "CHR ''0''"] utf8_encode_def algebra_simps)
next
  case False
  then show ?thesis by (auto simp: json_escape_byte_def unescape_char_def)
qed

lemma utf8_rune_high:
  "utf8_width (a # s) = Some n \<Longrightarrow> 128 \<le> byte a \<Longrightarrow> list_all (\<lambda>c. 128 \<le> byte c) (take n (a # s))"
  by (auto simp: utf8_width.simps cont_def split: if_splits list.splits)

lemma json_unescape_rune:
  assumes "list_all (\<lambda>c. 128 \<le> byte c) r"
  shows "json_unescape (json_escape_rune r @ t) = r @ json_unescape t"
proof -
  have "unhex (CHR ''2'') = 2" "unhex (CHR ''0'') = 0" "unhex (CHR ''8'') = 8" "unhex (CHR ''9'') = 9"
    by (simp_all add: unhex_def byte_def)
  moreover have "utf8_encode 8232 = [CHR 0xE2, CHR 0x80, CHR 0xA8]"
      "utf8_encode 8233 = [CHR 0xE2, CHR 0x80, CHR 0xA9]"
    by (simp_all add: utf8_encode_def char_of_def bit_0)
  ultimately show ?thesis
    using json_unescape_copies [OF assms] by (auto simp: json_escape_rune_def)
qed

lemma json_unescape_escape: "utf8_valid s \<Longrightarrow> json_unescape (json_escape s) = s"
proof (induction s rule: json_escape.induct)
  case (1 s)
  show ?case
  proof (cases s)
    case (Cons c cs)
    show ?thesis
    proof (cases "byte c < 128")
      case True
      then have "utf8_valid cs"
        using "1.prems" Cons by (simp add: utf8_valid.simps [of "c # cs"] utf8_width_ascii)
      then show ?thesis
        using 1(1) [OF Cons True] Cons True
        by (simp add: json_escape.simps [of "c # cs"] json_unescape_byte)
    next
      case False
      then obtain n where n: "utf8_width s = Some n" "utf8_valid (drop n s)"
        using "1.prems" Cons by (auto simp: utf8_valid.simps [of "c # cs"] split: option.splits)
      then have "list_all (\<lambda>c. 128 \<le> byte c) (take n s)"
        using utf8_rune_high [of c cs n] Cons False by simp
      then have "json_unescape (json_escape_rune (take n s) @ json_escape (drop n s)) = s"
        using 1(3) [OF Cons False n(1) n(2)] by (simp add: json_unescape_rune)
      then show ?thesis
        using Cons False n(1) by (simp add: json_escape.simps [of "c # cs"])
    qed
  qed (simp add: json_escape.simps)
qed

text \<open>A literal has no newline: a control byte is escaped.\<close>

lemma hex_char_printable: "n < 16 \<Longrightarrow> 48 \<le> byte (hex_char n)"
  by (simp add: hex_char_def byte_def)

lemma hex_char_no_newline: "n < 16 \<Longrightarrow> hex_char n \<noteq> CHR 0x0A"
proof
  assume "n < 16" "hex_char n = CHR 0x0A"
  then show False using hex_char_printable [of n] by (simp add: byte_def)
qed

lemma json_escape_no_newline: "CHR 0x0A \<notin> set (json_escape s)"
proof (induction s rule: json_escape.induct)
  case (1 s)
  show ?case
  proof (cases s)
    case (Cons c cs)
    have "CHR 0x0A \<notin> set (json_escape_byte c)" if "byte c < 128"
      using that hex_char_no_newline [of "byte c div 16"] hex_char_no_newline [of "byte c mod 16"] byte_nibble [of c]
      by (auto simp: json_escape_byte_def dest: sym)
    moreover have "CHR 0x0A \<notin> set (json_escape_rune (take n s))"
      if "\<not> byte c < 128" "utf8_width s = Some n" for n
      using utf8_rune_high [of c cs n] that Cons
      by (auto simp: json_escape_rune_def list_all_iff byte_def)
    ultimately show ?thesis
      using 1 Cons by (auto simp: json_escape.simps [of "c # cs"] split: option.splits)
  qed (simp add: json_escape.simps)
qed

section \<open>Times\<close>

text \<open>
  \<open>Format\<close> with the layout \<open>2006-01-02T15:04:05.000000000Z07:00\<close> in UTC, of a time given in
  nanoseconds since 1970; the calendar is counted out from the year 1, the first a valid
  timestamp can have.
\<close>

definition year_length :: "nat \<Rightarrow> nat" where
  "year_length y = (if 4 dvd y \<and> (\<not> 100 dvd y \<or> 400 dvd y) then 366 else 365)"

function year_of :: "nat \<Rightarrow> nat \<Rightarrow> nat \<times> nat" where
  "year_of y d = (if d < year_length y then (y, d) else year_of (Suc y) (d - year_length y))"
  by pat_completeness auto
termination
  by (relation "measure snd") (auto simp: year_length_def)

declare year_of.simps [simp del]

fun month_of :: "nat list \<Rightarrow> nat \<Rightarrow> nat \<Rightarrow> nat \<times> nat" where
  "month_of [] m d = (m, d)"
| "month_of (l # ls) m d = (if d < l then (m, d) else month_of ls (Suc m) (d - l))"

definition month_lengths :: "nat \<Rightarrow> nat list" where
  "month_lengths y = [31, if year_length y = 366 then 29 else 28, 31, 30, 31, 30, 31, 31, 30, 31, 30, 31]"

definition pad_number :: "nat \<Rightarrow> nat \<Rightarrow> string" where
  "pad_number w n = replicate (w - length (show_nat n)) CHR ''0'' @ show_nat n"

definition format_utc :: "int \<Rightarrow> string" where
  "format_utc ns =
     (let secs = ns div 10 ^ 9; sod = nat (secs mod 86400);
          (y, doy) = year_of 1 (nat (secs div 86400 + 719162));
          (m, dom) = month_of (month_lengths y) 1 doy
      in pad_number 4 y @ ''-'' @ pad_number 2 m @ ''-'' @ pad_number 2 (Suc dom) @ ''T''
         @ pad_number 2 (sod div 3600) @ '':'' @ pad_number 2 (sod div 60 mod 60) @ '':''
         @ pad_number 2 (sod mod 60) @ ''.'' @ pad_number 9 (nat (ns mod 10 ^ 9)) @ ''Z'')"

lemma year_of_days:
  "year_of y d = (y', r) \<Longrightarrow> y \<le> y' \<and> r < year_length y' \<and> d = (\<Sum>k\<in>{y..<y'}. year_length k) + r"
proof (induction y d rule: year_of.induct)
  case (1 y d)
  show ?case
  proof (cases "d < year_length y")
    case True
    then show ?thesis using "1.prems" by (simp add: year_of.simps [of y d])
  next
    case False
    then have "Suc y \<le> y' \<and> r < year_length y' \<and>
        d - year_length y = (\<Sum>k\<in>{Suc y..<y'}. year_length k) + r"
      using 1 by (simp add: year_of.simps [of y d])
    then show ?thesis using False by (auto simp: sum.atLeast_Suc_lessThan)
  qed
qed

end
