(* ===== verification/Go_Path.thy ===== *)
theory Go_Path imports Go_Text begin

text \<open>The path functions of package \<open>filepath\<close> (on Unix) that the sinks use.\<close>

text \<open>\<open>strings.Join\<close> by one byte.\<close>

fun join_on :: "char \<Rightarrow> string list \<Rightarrow> string" where
  "join_on c [] = []"
| "join_on c [s] = s"
| "join_on c (s # t # ss) = s @ c # join_on c (t # ss)"

text \<open>
  \<open>filepath.Clean\<close>, \<open>filepath.Dir\<close> and \<open>filepath.Ext\<close> on Unix.  The accumulator of
  \<open>clean_elems\<close> holds the elements kept so far, the last one first: \<open>..\<close> takes one back,
  is dropped at the root, and stays in a relative path that has nothing left to take back.
\<close>

fun clean_elems :: "bool \<Rightarrow> string list \<Rightarrow> string list \<Rightarrow> string list" where
  "clean_elems rooted acc [] = rev acc"
| "clean_elems rooted acc (p # ps) =
     (if p = [] \<or> p = ''.'' then clean_elems rooted acc ps
      else if p = ''..'' then
        (if acc \<noteq> [] \<and> hd acc \<noteq> ''..'' then clean_elems rooted (tl acc) ps
         else if rooted then clean_elems rooted acc ps
         else clean_elems rooted (p # acc) ps)
      else clean_elems rooted (p # acc) ps)"

definition path_clean :: "string \<Rightarrow> string" where
  "path_clean p =
     (let rooted = has_prefix p ''/''; es = clean_elems rooted [] (split_on CHR ''/'' p) in
      if rooted then CHR ''/'' # join_on CHR ''/'' es
      else if es = [] then ''.'' else join_on CHR ''/'' es)"

definition path_dir :: "string \<Rightarrow> string" where
  "path_dir p =
     (case last_index p CHR ''/'' of None \<Rightarrow> ''.'' | Some i \<Rightarrow> path_clean (take (Suc i) p))"

definition path_ext :: "string \<Rightarrow> string" where
  "path_ext p =
     (case last_index p CHR ''.'' of
        None \<Rightarrow> []
      | Some i \<Rightarrow> if CHR ''/'' \<in> set (drop i p) then [] else drop i p)"

end
