(* ===== verification/Sink_Pcap.thy ===== *)
theory Sink_Pcap imports Go_Path Wire_Capture Capture_Spec begin

text \<open>
  \<open>pkg/sink/pcap.go\<close>: the PCAP and PCAPng output of wire frames.  The writers of
  \<open>gopacket/pcapgo\<close> are not in the repository: \<open>pcapgo_lib\<close> holds their operations, over
  writers of an unknown type, and \<open>ng_documented\<close> and \<open>classic_documented\<close> state what the
  package documents of a call that succeeds, in terms of what the file holds afterwards.
\<close>

section \<open>The writers of pcapgo\<close>

record capture_info =
  ci_timestamp :: int
  ci_capture_length :: nat
  ci_length :: nat
  ci_interface_index :: nat

record ng_interface =
  ni_name :: string
  ni_comment :: string
  ni_description :: string
  ni_link_type :: i32
  ni_snap_length :: nat
  ni_timestamp_resolution :: nat

record ('ng, 'cl) pcapgo_lib =
  new_ng_writer_interface :: "ng_interface \<Rightarrow> string + 'ng"
  ng_add_interface :: "'ng \<Rightarrow> ng_interface \<Rightarrow> 'ng \<times> (string + nat)"
  ng_write_packet :: "'ng \<Rightarrow> capture_info \<Rightarrow> string \<Rightarrow> 'ng \<times> string option"
  ng_flush :: "'ng \<Rightarrow> 'ng \<times> string option"
  new_writer :: "'cl"
  cl_write_file_header :: "'cl \<Rightarrow> nat \<Rightarrow> i32 \<Rightarrow> 'cl \<times> string option"
  cl_write_packet :: "'cl \<Rightarrow> capture_info \<Rightarrow> string \<Rightarrow> 'cl \<times> string option"

text \<open>
  The files: the interfaces and the packets of a PCAPng section, the header (snaplen and link
  type) and the packets of a classic one.
\<close>

type_synonym ng_file = "ng_interface list \<times> (capture_info \<times> string) list"
type_synonym classic_file = "(nat \<times> i32) list \<times> (capture_info \<times> string) list"

definition ng_documented :: "('ng, 'cl) pcapgo_lib \<Rightarrow> ('ng \<Rightarrow> ng_file) \<Rightarrow> bool" where
  "ng_documented L view =
     ((\<forall>i g. new_ng_writer_interface L i = Inr g \<longrightarrow> view g = ([i], [])) \<and>
      (\<forall>g i g' n. ng_add_interface L g i = (g', Inr n) \<longrightarrow>
         n = length (fst (view g)) \<and> view g' = (fst (view g) @ [i], snd (view g))) \<and>
      (\<forall>g ci d g'. ng_write_packet L g ci d = (g', None) \<longrightarrow>
         view g' = (fst (view g), snd (view g) @ [(ci, d)])))"

definition classic_documented :: "('ng, 'cl) pcapgo_lib \<Rightarrow> ('cl \<Rightarrow> classic_file) \<Rightarrow> bool" where
  "classic_documented L view =
     (view (new_writer L) = ([], []) \<and>
      (\<forall>c n t c'. cl_write_file_header L c n t = (c', None) \<longrightarrow>
         view c' = (fst (view c) @ [(n, t)], snd (view c))) \<and>
      (\<forall>c ci d c'. cl_write_packet L c ci d = (c', None) \<longrightarrow>
         view c' = (fst (view c), snd (view c) @ [(ci, d)])))"

section \<open>The writer\<close>

record ('ng, 'cl) pcap_writer =
  pw_path :: string
  pw_has_file :: bool
  pw_ng :: "'ng option"
  pw_classic :: "'cl option"
  pw_ifaces :: "(string, nat) gomap"
  pw_count :: u64

record sink_os =
  so_mkdir_all :: "string \<Rightarrow> string option"
  so_create :: "string \<Rightarrow> string option"
  so_close :: "string \<Rightarrow> string option"

datatype sink_open_error = PathRequired | CreateDirectory string | OpenOutput string

text \<open>\<open>open\<close>: standard output, or a new file in a directory that is created when missing.\<close>

definition pcap_open_file :: "sink_os \<Rightarrow> string \<Rightarrow> sink_open_error + bool" where
  "pcap_open_file S path =
     (if path = StdoutSink then Inr False
      else
        case (if path_dir path \<noteq> ''.'' then so_mkdir_all S (path_dir path) else None) of
          Some e \<Rightarrow> Inl (CreateDirectory e)
        | None \<Rightarrow> (case so_create S path of Some e \<Rightarrow> Inl (OpenOutput e) | None \<Rightarrow> Inr True))"

definition open_pcap :: "sink_os \<Rightarrow> string \<Rightarrow> sink_open_error + ('ng, 'cl) pcap_writer" where
  "open_pcap S path =
     (if path = [] then Inl PathRequired
      else case pcap_open_file S path of
             Inl e \<Rightarrow> Inl e
           | Inr file \<Rightarrow> Inr \<lparr>pw_path = path, pw_has_file = file, pw_ng = None, pw_classic = None,
                             pw_ifaces = [], pw_count = 0\<rparr>)"

definition use_pcapng :: "string \<Rightarrow> bool" where
  "use_pcapng path =
     (if path = StdoutSink then False
      else let ext = to_lower (path_ext path) in ext = ''.pcapng'' \<or> ext = ''.ngpcap'')"

definition interface_key :: "pod_ref option \<Rightarrow> string" where
  "interface_key pod =
     (case pod of
        None \<Rightarrow> []
      | Some p \<Rightarrow> if pr_uid p \<noteq> [] then pr_uid p else pr_namespace p @ ''/'' @ pr_name p)"

definition interface_name :: "pod_ref option \<Rightarrow> string" where
  "interface_name pod =
     (case pod of
        None \<Rightarrow> ''k8s-sniffer''
      | Some p \<Rightarrow>
          if pr_namespace p = [] \<and> pr_name p = [] then ''k8s-sniffer''
          else if pr_namespace p = [] then pr_name p
          else pr_namespace p @ ''/'' @ pr_name p)"

definition metadata_comment :: "pod_ref option \<Rightarrow> string" where
  "metadata_comment pod =
     (case pod of
        None \<Rightarrow> ''k8s.pod= k8s.namespace= k8s.node=''
      | Some p \<Rightarrow> ''k8s.pod='' @ pr_name p @ '' k8s.namespace='' @ pr_namespace p
                  @ '' k8s.node='' @ pr_node p)"

definition link_type_to_dlt :: "dlt_codes \<Rightarrow> link_type \<Rightarrow> i32" where
  "link_type_to_dlt D lt =
     (if lt = LINK_TYPE_ETHERNET then dlt_ethernet D
      else if lt = LINK_TYPE_RAW then dlt_raw D
      else if lt = LINK_TYPE_LINUX_SLL then dlt_linux_sll D
      else if lt = LINK_TYPE_LINUX_SLL2 then dlt_linux_sll2 D
      else dlt_linux_sll D)"

datatype sink_write_error =
    FrameRequired | WritePacket string | PcapHeader string | PcapngWriter string
  | PcapngInterface string

definition pod_interface :: "pod_ref option \<Rightarrow> i32 \<Rightarrow> ng_interface" where
  "pod_interface pod lt =
     \<lparr>ni_name = interface_name pod, ni_comment = metadata_comment pod,
      ni_description = metadata_comment pod, ni_link_type = lt, ni_snap_length = 0,
      ni_timestamp_resolution = 9\<rparr>"

definition ensure_interface ::
    "('ng, 'cl) pcapgo_lib \<Rightarrow> pod_ref option \<Rightarrow> i32 \<Rightarrow> ('ng, 'cl) pcap_writer
      \<Rightarrow> ('ng, 'cl) pcap_writer \<times> (sink_write_error + nat)" where
  "ensure_interface L pod lt w =
     (case map_of (pw_ifaces w) (interface_key pod) of
        Some i \<Rightarrow> (w, Inr i)
      | None \<Rightarrow>
          (case pw_ng w of
             None \<Rightarrow>
               (case new_ng_writer_interface L (pod_interface pod lt) of
                  Inl e \<Rightarrow> (w, Inl (PcapngWriter e))
                | Inr g \<Rightarrow>
                    (w\<lparr>pw_ng := Some g,
                       pw_ifaces := AList.update (interface_key pod) 0 (pw_ifaces w)\<rparr>, Inr 0))
           | Some g \<Rightarrow>
               (case ng_add_interface L g (pod_interface pod lt) of
                  (g', Inl e) \<Rightarrow> (w\<lparr>pw_ng := Some g'\<rparr>, Inl (PcapngInterface e))
                | (g', Inr i) \<Rightarrow>
                    (w\<lparr>pw_ng := Some g',
                       pw_ifaces := AList.update (interface_key pod) i (pw_ifaces w)\<rparr>, Inr i))))"

text \<open>\<open>initClassic\<close>: the writer is stored before the header is written.\<close>

definition init_classic ::
    "('ng, 'cl) pcapgo_lib \<Rightarrow> i32 \<Rightarrow> ('ng, 'cl) pcap_writer
      \<Rightarrow> ('ng, 'cl) pcap_writer \<times> sink_write_error option" where
  "init_classic L lt w =
     (case cl_write_file_header L (new_writer L) 65535 lt of
        (c, e) \<Rightarrow> (w\<lparr>pw_classic := Some c\<rparr>, map_option PcapHeader e))"

definition frame_info :: "packet_frame \<Rightarrow> capture_info" where
  "frame_info f =
     (let n = length (pf_payload f); orig = unat (pf_original_length f) in
      \<lparr>ci_timestamp = (case pf_timestamp f of None \<Rightarrow> 0 | Some t \<Rightarrow> ts_time t),
       ci_capture_length = n, ci_length = (if orig = 0 then n else orig), ci_interface_index = 0\<rparr>)"

definition count_frame :: "('ng, 'cl) pcap_writer \<Rightarrow> ('ng, 'cl) pcap_writer" where
  "count_frame w = w\<lparr>pw_count := pw_count w + 1\<rparr>"

definition write_ng ::
    "dlt_codes \<Rightarrow> ('ng, 'cl) pcapgo_lib \<Rightarrow> packet_frame \<Rightarrow> ('ng, 'cl) pcap_writer
      \<Rightarrow> ('ng, 'cl) pcap_writer \<times> sink_write_error option" where
  "write_ng D L f w =
     (case ensure_interface L (pf_pod f) (link_type_to_dlt D (pf_link_type f)) w of
        (w', Inl e) \<Rightarrow> (w', Some e)
      | (w', Inr i) \<Rightarrow>
          (case ng_write_packet L (the (pw_ng w')) ((frame_info f)\<lparr>ci_interface_index := i\<rparr>)
                  (pf_payload f) of
             (g, Some e) \<Rightarrow> (w'\<lparr>pw_ng := Some g\<rparr>, Some (WritePacket e))
           | (g, None) \<Rightarrow> (count_frame (w'\<lparr>pw_ng := Some g\<rparr>), None)))"

definition write_classic ::
    "dlt_codes \<Rightarrow> ('ng, 'cl) pcapgo_lib \<Rightarrow> packet_frame \<Rightarrow> ('ng, 'cl) pcap_writer
      \<Rightarrow> ('ng, 'cl) pcap_writer \<times> sink_write_error option" where
  "write_classic D L f w =
     (case (if pw_classic w = None then init_classic L (link_type_to_dlt D (pf_link_type f)) w
            else (w, None)) of
        (w', Some e) \<Rightarrow> (w', Some e)
      | (w', None) \<Rightarrow>
          (case cl_write_packet L (the (pw_classic w')) (frame_info f) (pf_payload f) of
             (c, Some e) \<Rightarrow> (w'\<lparr>pw_classic := Some c\<rparr>, Some (WritePacket e))
           | (c, None) \<Rightarrow> (count_frame (w'\<lparr>pw_classic := Some c\<rparr>), None)))"

definition write_frame ::
    "dlt_codes \<Rightarrow> ('ng, 'cl) pcapgo_lib \<Rightarrow> packet_frame option \<Rightarrow> ('ng, 'cl) pcap_writer
      \<Rightarrow> ('ng, 'cl) pcap_writer \<times> sink_write_error option" where
  "write_frame D L frame w =
     (case frame of
        None \<Rightarrow> (w, Some FrameRequired)
      | Some f \<Rightarrow>
          if pf_payload f = [] then (w, None)
          else if use_pcapng (pw_path w) then write_ng D L f w
          else write_classic D L f w)"

definition write_record ::
    "dlt_codes \<Rightarrow> ('ng, 'cl) pcapgo_lib \<Rightarrow> capture_record \<Rightarrow> ('ng, 'cl) pcap_writer
      \<Rightarrow> ('ng, 'cl) pcap_writer \<times> sink_write_error option" where
  "write_record D L r w =
     (case get_wire_frame r of None \<Rightarrow> (w, None) | Some f \<Rightarrow> write_frame D L (Some f) w)"

definition packet_count :: "('ng, 'cl) pcap_writer \<Rightarrow> u64" where
  "packet_count w = pw_count w"

definition pcap_close ::
    "sink_os \<Rightarrow> ('ng, 'cl) pcapgo_lib \<Rightarrow> ('ng, 'cl) pcap_writer
      \<Rightarrow> ('ng, 'cl) pcap_writer \<times> string option" where
  "pcap_close S L w =
     (case (case pw_ng w of
              None \<Rightarrow> (w, None)
            | Some g \<Rightarrow> (case ng_flush L g of (g', e) \<Rightarrow> (w\<lparr>pw_ng := Some g'\<rparr>, e))) of
        (w', Some e) \<Rightarrow> (w', Some e)
      | (w', None) \<Rightarrow> (w', if pw_has_file w' then so_close S (pw_path w') else None))"

text \<open>A stream of records, stopped by the first error as \<open>subscribePackets\<close> does.\<close>

fun write_records ::
    "dlt_codes \<Rightarrow> ('ng, 'cl) pcapgo_lib \<Rightarrow> capture_record list \<Rightarrow> ('ng, 'cl) pcap_writer
      \<Rightarrow> ('ng, 'cl) pcap_writer \<times> sink_write_error option" where
  "write_records D L [] w = (w, None)"
| "write_records D L (r # rs) w =
     (case write_record D L r w of
        (w', Some e) \<Rightarrow> (w', Some e)
      | (w', None) \<Rightarrow> write_records D L rs w')"

section \<open>The file as a function of the frames\<close>

text \<open>
  What a stream of records puts into the file, with no state: the frames with a payload, in
  order; one interface for the first frame of each key; each packet under the interface of its
  key.
\<close>

definition frame_key :: "packet_frame \<Rightarrow> string" where
  "frame_key f = interface_key (pf_pod f)"

definition written_frames :: "capture_record list \<Rightarrow> packet_frame list" where
  "written_frames rs = filter (\<lambda>f. pf_payload f \<noteq> []) (List.map_filter get_wire_frame rs)"

definition add_head :: "packet_frame \<Rightarrow> packet_frame list \<Rightarrow> packet_frame list" where
  "add_head f hs = (if frame_key f \<in> frame_key ` set hs then hs else hs @ [f])"

definition interface_heads :: "packet_frame list \<Rightarrow> packet_frame list" where
  "interface_heads fs = fold add_head fs []"

definition head_index :: "packet_frame list \<Rightarrow> string \<Rightarrow> nat" where
  "head_index hs k = length (takeWhile (\<lambda>h. frame_key h \<noteq> k) hs)"

definition frame_interface :: "dlt_codes \<Rightarrow> packet_frame \<Rightarrow> ng_interface" where
  "frame_interface D f = pod_interface (pf_pod f) (link_type_to_dlt D (pf_link_type f))"

definition ng_contents :: "dlt_codes \<Rightarrow> packet_frame list \<Rightarrow> ng_file" where
  "ng_contents D fs =
     (let hs = interface_heads fs in
      (map (frame_interface D) hs,
       map (\<lambda>f. ((frame_info f)\<lparr>ci_interface_index := head_index hs (frame_key f)\<rparr>, pf_payload f)) fs))"

definition classic_contents :: "dlt_codes \<Rightarrow> packet_frame list \<Rightarrow> classic_file" where
  "classic_contents D fs =
     (map (\<lambda>f. (65535, link_type_to_dlt D (pf_link_type f))) (take 1 fs),
      map (\<lambda>f. (frame_info f, pf_payload f)) fs)"

lemma written_frames_simps [simp]:
  "written_frames [] = []"
  "written_frames (r # rs) =
     (case get_wire_frame r of
        None \<Rightarrow> written_frames rs
      | Some f \<Rightarrow> if pf_payload f = [] then written_frames rs else f # written_frames rs)"
  by (auto simp: written_frames_def map_filter_simps split: option.splits)

lemma interface_heads_Nil [simp]: "interface_heads [] = []"
  by (simp add: interface_heads_def)

lemma interface_heads_snoc: "interface_heads (fs @ [f]) = add_head f (interface_heads fs)"
  by (simp add: interface_heads_def)

lemma head_keys: "frame_key ` set (interface_heads fs) = frame_key ` set fs"
  by (induction fs rule: rev_induct) (auto simp: interface_heads_snoc add_head_def)

lemma head_keys_distinct: "distinct (map frame_key (interface_heads fs))"
  by (induction fs rule: rev_induct) (auto simp: interface_heads_snoc add_head_def)

lemma interface_heads_subset: "set (interface_heads fs) \<subseteq> set fs"
  by (induction fs rule: rev_induct) (auto simp: interface_heads_snoc add_head_def)

lemma head_index_append:
  "k \<in> frame_key ` set hs \<Longrightarrow> head_index (hs @ hs') k = head_index hs k"
  by (auto simp: head_index_def takeWhile_append1)

lemma head_index_new: "k \<notin> frame_key ` set hs \<Longrightarrow> frame_key f = k \<Longrightarrow> head_index (hs @ [f]) k = length hs"
  by (induction hs) (auto simp: head_index_def)

lemma head_index_nth:
  "k \<in> frame_key ` set hs \<Longrightarrow> head_index hs k < length hs \<and> frame_key (hs ! head_index hs k) = k"
  by (induction hs) (auto simp: head_index_def)

lemma ng_contents_Nil [simp]: "ng_contents D [] = ([], [])"
  by (simp add: ng_contents_def)

lemma ng_contents_old:
  assumes "frame_key f \<in> frame_key ` set fs"
  shows "ng_contents D (fs @ [f]) =
    (fst (ng_contents D fs),
     snd (ng_contents D fs) @
       [((frame_info f)\<lparr>ci_interface_index := head_index (interface_heads fs) (frame_key f)\<rparr>, pf_payload f)])"
  using assms by (simp add: ng_contents_def interface_heads_snoc add_head_def head_keys Let_def)

lemma ng_contents_new:
  assumes "frame_key f \<notin> frame_key ` set fs"
  shows "ng_contents D (fs @ [f]) =
    (fst (ng_contents D fs) @ [frame_interface D f],
     snd (ng_contents D fs) @
       [((frame_info f)\<lparr>ci_interface_index := length (interface_heads fs)\<rparr>, pf_payload f)])"
  using assms
  by (auto simp: ng_contents_def interface_heads_snoc add_head_def head_keys Let_def
      head_index_append head_index_new)

section \<open>PCAPng\<close>

text \<open>What the writer's fields hold after the frames \<open>fs\<close>.\<close>

definition ng_state ::
    "dlt_codes \<Rightarrow> ('ng \<Rightarrow> ng_file) \<Rightarrow> packet_frame list \<Rightarrow> ('ng, 'cl) pcap_writer \<Rightarrow> bool" where
  "ng_state D view fs w =
     (use_pcapng (pw_path w) \<and> pw_count w = of_nat (length fs) \<and>
      (case pw_ng w of None \<Rightarrow> fs = [] | Some g \<Rightarrow> fs \<noteq> [] \<and> view g = ng_contents D fs) \<and>
      (\<forall>k. map_of (pw_ifaces w) k =
         (if k \<in> frame_key ` set fs then Some (head_index (interface_heads fs) k) else None)))"

lemma write_ng_step:
  assumes doc: "ng_documented L view" and st: "ng_state D view fs w"
    and ok: "write_ng D L f w = (w', None)"
  shows "ng_state D view (fs @ [f]) w'"
proof (cases "frame_key f \<in> frame_key ` set fs")
  case True
  then obtain g where g: "pw_ng w = Some g" "view g = ng_contents D fs"
    using st by (auto simp: ng_state_def split: option.splits)
  have i: "map_of (pw_ifaces w) (interface_key (pf_pod f)) =
      Some (head_index (interface_heads fs) (frame_key f))"
    using st True by (simp add: ng_state_def flip: frame_key_def)
  obtain g' where g': "ng_write_packet L g
        ((frame_info f)\<lparr>ci_interface_index := head_index (interface_heads fs) (frame_key f)\<rparr>)
        (pf_payload f) = (g', None)" and w': "w' = count_frame (w\<lparr>pw_ng := Some g'\<rparr>)"
    using ok g(1) i by (auto simp: write_ng_def ensure_interface_def split: prod.splits option.splits)
  have "view g' = ng_contents D (fs @ [f])"
    using doc g' g(2) by (simp add: ng_documented_def ng_contents_old [OF True])
  then show ?thesis
    using st w' True
    by (auto simp: ng_state_def count_frame_def interface_heads_snoc add_head_def head_keys)
next
  case False
  have none: "map_of (pw_ifaces w) (interface_key (pf_pod f)) = None"
    using st False by (simp add: ng_state_def flip: frame_key_def)
  have len: "length (fst (ng_contents D fs)) = length (interface_heads fs)"
    by (simp add: ng_contents_def Let_def)
  obtain g1 where g1: "view g1 = (fst (ng_contents D fs) @ [frame_interface D f], snd (ng_contents D fs))"
    and ens: "ensure_interface L (pf_pod f) (link_type_to_dlt D (pf_link_type f)) w =
      (w\<lparr>pw_ng := Some g1, pw_ifaces := AList.update (frame_key f) (length (interface_heads fs)) (pw_ifaces w)\<rparr>,
       Inr (length (interface_heads fs)))"
  proof (cases "pw_ng w")
    case None
    then have "fs = []" using st by (simp add: ng_state_def)
    moreover obtain g where "new_ng_writer_interface L (frame_interface D f) = Inr g"
      using ok none None
      by (auto simp: write_ng_def ensure_interface_def frame_interface_def split: sum.splits)
    moreover then have "view g = ([frame_interface D f], [])"
      using doc by (simp add: ng_documented_def)
    ultimately show thesis
      using that [of g] none None
      by (simp add: ensure_interface_def frame_key_def frame_interface_def)
  next
    case (Some g)
    then have v: "view g = ng_contents D fs" using st by (simp add: ng_state_def)
    obtain g' n where add: "ng_add_interface L g (frame_interface D f) = (g', Inr n)"
      using ok none Some
      by (auto simp: write_ng_def ensure_interface_def frame_interface_def split: sum.splits prod.splits)
    then have "n = length (fst (view g)) \<and>
        view g' = (fst (view g) @ [frame_interface D f], snd (view g))"
      using doc unfolding ng_documented_def by blast
    then show thesis
      using that [of g'] none Some add v
      by (simp add: ensure_interface_def frame_key_def frame_interface_def len [symmetric])
  qed
  obtain g' where g': "ng_write_packet L g1
        ((frame_info f)\<lparr>ci_interface_index := length (interface_heads fs)\<rparr>) (pf_payload f) = (g', None)"
    and w': "w' = count_frame (w\<lparr>
       pw_ifaces := AList.update (frame_key f) (length (interface_heads fs)) (pw_ifaces w),
       pw_ng := Some g'\<rparr>)"
    using ok ens by (auto simp: write_ng_def split: prod.splits option.splits)
  have "view g' = ng_contents D (fs @ [f])"
    using doc g' g1 by (simp add: ng_documented_def ng_contents_new [OF False])
  then show ?thesis
    using st w' False
    by (auto simp: ng_state_def count_frame_def interface_heads_snoc add_head_def head_keys
        head_index_append head_index_new)
qed


lemma written_frames_step:
  "written_frames (r # rs) = written_frames [r] @ written_frames rs"
  by (simp split: option.splits)

lemma write_frame_step:
  assumes doc: "ng_documented L view" and st: "ng_state D view fs w"
    and ok: "write_record D L r w = (w', None)"
  shows "ng_state D view (fs @ written_frames [r]) w'"
proof (cases "written_frames [r]")
  case Nil
  then show ?thesis using st ok
    by (auto simp: write_record_def write_frame_def split: option.splits if_splits)
next
  case (Cons f gs)
  then have "gs = []" "write_ng D L f w = (w', None)"
    using st ok
    by (auto simp: write_record_def write_frame_def ng_state_def split: option.splits if_splits)
  then show ?thesis using write_ng_step [OF doc st] Cons by simp
qed

lemma write_records_state:
  assumes doc: "ng_documented L view" and "ng_state D view fs w"
    and "write_records D L rs w = (w', None)"
  shows "ng_state D view (fs @ written_frames rs) w'"
  using assms(2,3)
proof (induction rs arbitrary: fs w)
  case (Cons r rs)
  then obtain w1 where "write_record D L r w = (w1, None)" "write_records D L rs w1 = (w', None)"
    by (auto split: prod.splits option.splits)
  then show ?case
    using Cons.IH [of "fs @ written_frames [r]" w1] write_frame_step [OF doc Cons.prems(1)]
    by (simp add: written_frames_step [of r rs] del: written_frames_simps)
qed simp

lemma ng_state_open:
  "open_pcap S path = Inr w \<Longrightarrow> use_pcapng path \<Longrightarrow> ng_state D view [] w"
  by (auto simp: open_pcap_def ng_state_def split: if_splits sum.splits)

text \<open>
  A PCAPng capture is a function of the records alone: after writing a stream of records
  without an error the file holds exactly one packet for each wire frame with a payload, in the
  order of arrival and with its bytes, under one interface for each distinct pod key, numbered in
  the order of the first frames, and \<open>PacketCount\<close> is the number of packets modulo 2^64.
\<close>

theorem pcapng_is_a_function_of_the_records:
  assumes "ng_documented L view" "use_pcapng path" "open_pcap S path = Inr w"
    and "write_records D L rs w = (w', None)"
  shows "packet_count w' = of_nat (length (written_frames rs)) \<and>
    (case pw_ng w' of
       None \<Rightarrow> written_frames rs = []
     | Some g \<Rightarrow> view g = ng_contents D (written_frames rs))"
  using write_records_state [OF assms(1) ng_state_open [OF assms(3,2)] assms(4)]
  by (auto simp: ng_state_def packet_count_def split: option.splits)

text \<open>
  When a key stands for one pod and one link type, the file attributes every packet to the pod
  it was captured in.
\<close>

definition keys_consistent :: "packet_frame list \<Rightarrow> bool" where
  "keys_consistent fs =
     (\<forall>f \<in> set fs. \<forall>g \<in> set fs. frame_key f = frame_key g \<longrightarrow>
        pf_pod f = pf_pod g \<and> pf_link_type f = pf_link_type g)"

lemma ng_contents_attributes:
  assumes "keys_consistent fs" "n < length fs"
  shows "ci_interface_index (fst (snd (ng_contents D fs) ! n)) < length (fst (ng_contents D fs)) \<and>
    fst (ng_contents D fs) ! ci_interface_index (fst (snd (ng_contents D fs) ! n)) =
      frame_interface D (fs ! n)"
proof -
  let ?hs = "interface_heads fs" and ?f = "fs ! n"
  have "?f \<in> set fs" using assms(2) by simp
  then have i: "head_index ?hs (frame_key ?f) < length ?hs"
      "frame_key (?hs ! head_index ?hs (frame_key ?f)) = frame_key ?f"
    using head_index_nth [of "frame_key ?f" ?hs] by (auto simp: head_keys)
  then have "?hs ! head_index ?hs (frame_key ?f) \<in> set fs"
    using interface_heads_subset [of fs] nth_mem by blast
  then have "frame_interface D (?hs ! head_index ?hs (frame_key ?f)) = frame_interface D ?f"
    using assms(1) \<open>?f \<in> set fs\<close> i(2) unfolding keys_consistent_def frame_interface_def by metis
  then show ?thesis using i(1) assms(2) by (simp add: ng_contents_def Let_def)
qed



section \<open>Classic PCAP\<close>

definition classic_state ::
    "dlt_codes \<Rightarrow> ('cl \<Rightarrow> classic_file) \<Rightarrow> packet_frame list \<Rightarrow> ('ng, 'cl) pcap_writer \<Rightarrow> bool" where
  "classic_state D view fs w =
     (\<not> use_pcapng (pw_path w) \<and> pw_count w = of_nat (length fs) \<and>
      (case pw_classic w of
         None \<Rightarrow> fs = []
       | Some c \<Rightarrow> fs \<noteq> [] \<and> view c = classic_contents D fs))"

lemma classic_contents_snoc:
  "fs \<noteq> [] \<Longrightarrow> classic_contents D (fs @ [f]) =
     (fst (classic_contents D fs), snd (classic_contents D fs) @ [(frame_info f, pf_payload f)])"
  by (cases fs) (simp_all add: classic_contents_def)

lemma write_classic_step:
  assumes doc: "classic_documented L view" and st: "classic_state D view fs w"
    and ok: "write_classic D L f w = (w', None)"
  shows "classic_state D view (fs @ [f]) w'"
proof (cases "pw_classic w")
  case None
  then have "fs = []" using st by (simp add: classic_state_def)
  obtain c c' where c: "cl_write_file_header L (new_writer L) 65535 (link_type_to_dlt D (pf_link_type f)) = (c, None)"
      "cl_write_packet L c (frame_info f) (pf_payload f) = (c', None)"
      "w' = count_frame (w\<lparr>pw_classic := Some c'\<rparr>)"
    using ok None by (auto simp: write_classic_def init_classic_def split: prod.splits option.splits)
  then have "view c' = classic_contents D [f]"
    using doc by (simp add: classic_documented_def classic_contents_def)
  then show ?thesis using st c(3) \<open>fs = []\<close> by (simp add: classic_state_def count_frame_def)
next
  case (Some c)
  then have v: "view c = classic_contents D fs" "fs \<noteq> []" using st by (simp_all add: classic_state_def)
  obtain c' where c': "cl_write_packet L c (frame_info f) (pf_payload f) = (c', None)"
      "w' = count_frame (w\<lparr>pw_classic := Some c'\<rparr>)"
    using ok Some by (auto simp: write_classic_def split: prod.splits option.splits)
  then have "view c' = classic_contents D (fs @ [f])"
    using doc v by (simp add: classic_documented_def classic_contents_snoc)
  then show ?thesis using st c'(2) v(2) by (simp add: classic_state_def count_frame_def)
qed

lemma write_record_classic:
  assumes doc: "classic_documented L view" and st: "classic_state D view fs w"
    and ok: "write_record D L r w = (w', None)"
  shows "classic_state D view (fs @ written_frames [r]) w'"
proof (cases "written_frames [r]")
  case Nil
  then show ?thesis using st ok
    by (auto simp: write_record_def write_frame_def split: option.splits if_splits)
next
  case (Cons f gs)
  then have "gs = []" "write_classic D L f w = (w', None)"
    using st ok
    by (auto simp: write_record_def write_frame_def classic_state_def split: option.splits if_splits)
  then show ?thesis using write_classic_step [OF doc st] Cons by simp
qed

lemma write_records_classic:
  assumes doc: "classic_documented L view" and "classic_state D view fs w"
    and "write_records D L rs w = (w', None)"
  shows "classic_state D view (fs @ written_frames rs) w'"
  using assms(2,3)
proof (induction rs arbitrary: fs w)
  case (Cons r rs)
  then obtain w1 where "write_record D L r w = (w1, None)" "write_records D L rs w1 = (w', None)"
    by (auto split: prod.splits option.splits)
  then show ?case
    using Cons.IH [of "fs @ written_frames [r]" w1] write_record_classic [OF doc Cons.prems(1)]
    by (simp add: written_frames_step [of r rs] del: written_frames_simps)
qed simp

text \<open>
  A classic PCAP (any other extension, and standard output) gets one header, with snaplen
  65535 and the link type of the first frame with a payload whatever frames follow, and then one
  packet for each such frame, in order, with its bytes.
\<close>

theorem classic_header_from_first_frame:
  assumes "classic_documented L view" "\<not> use_pcapng path" "open_pcap S path = Inr w"
    and "write_records D L rs w = (w', None)" "written_frames rs = f # fs"
  shows "\<exists>c. pw_classic w' = Some c \<and> packet_count w' = of_nat (length (f # fs)) \<and>
    view c = ([(65535, link_type_to_dlt D (pf_link_type f))],
              map (\<lambda>h. (frame_info h, pf_payload h)) (f # fs))"
proof -
  have "classic_state D view [] w"
    using assms(2,3) by (auto simp: open_pcap_def classic_state_def split: if_splits sum.splits)
  then have "classic_state D view (f # fs) w'"
    using write_records_classic [OF assms(1) _ assms(4), of "[]"] assms(5) by simp
  then show ?thesis
    by (auto simp: classic_state_def classic_contents_def packet_count_def split: option.splits)
qed

section \<open>Link types\<close>

text \<open>
  The link type survives the trip from the capture to the file: a DLT the agent recognises
  in the pcap header is the DLT the sink writes, and every link type of the API but the
  unspecified one is read back as itself.
\<close>

theorem link_type_roundtrip:
  assumes "distinct [dlt_ethernet D, dlt_raw D, dlt_linux_sll D, dlt_linux_sll2 D]"
  shows "(link_type_from_dlt D dlt = LINK_TYPE_UNSPECIFIED \<or>
          link_type_to_dlt D (link_type_from_dlt D dlt) = dlt) \<and>
    list_all (\<lambda>lt. link_type_from_dlt D (link_type_to_dlt D lt) = lt)
      [LINK_TYPE_ETHERNET, LINK_TYPE_RAW, LINK_TYPE_LINUX_SLL, LINK_TYPE_LINUX_SLL2]"
  using assms by (auto simp: link_type_from_dlt_def link_type_to_dlt_def link_type_defs)

section \<open>Examples\<close>

definition demo_dlt :: dlt_codes where
  "demo_dlt = \<lparr>dlt_ethernet = 1, dlt_raw = 101, dlt_linux_sll = 113, dlt_linux_sll2 = 276\<rparr>"

definition demo_pcapgo :: "(ng_file, classic_file) pcapgo_lib" where
  "demo_pcapgo =
     \<lparr>new_ng_writer_interface = (\<lambda>i. Inr ([i], [])),
      ng_add_interface = (\<lambda>g i. ((fst g @ [i], snd g), Inr (length (fst g)))),
      ng_write_packet = (\<lambda>g ci d.
        if ci_interface_index ci < length (fst g) \<and> ci_capture_length ci = length d
             \<and> ci_capture_length ci \<le> ci_length ci
        then ((fst g, snd g @ [(ci, d)]), None) else (g, Some ''invalid capture info'')),
      ng_flush = (\<lambda>g. (g, None)),
      new_writer = ([], []),
      cl_write_file_header = (\<lambda>c n t. ((fst c @ [(n, t)], snd c), None)),
      cl_write_packet = (\<lambda>c ci d.
        if ci_capture_length ci = length d \<and> ci_capture_length ci \<le> ci_length ci
        then ((fst c, snd c @ [(ci, d)]), None) else (c, Some ''invalid capture info''))\<rparr>"

lemma demo_ng_documented: "ng_documented demo_pcapgo id"
  by (auto simp: ng_documented_def demo_pcapgo_def split: if_splits)

lemma demo_classic_documented: "classic_documented demo_pcapgo id"
  by (auto simp: classic_documented_def demo_pcapgo_def split: if_splits)

definition demo_sink_os :: sink_os where
  "demo_sink_os = \<lparr>so_mkdir_all = (\<lambda>_. None), so_create = (\<lambda>_. None), so_close = (\<lambda>_. None)\<rparr>"

definition demo_wire :: "string \<Rightarrow> link_type \<Rightarrow> string \<Rightarrow> capture_record" where
  "demo_wire name lt d =
     WireFrame \<lparr>pf_pod = Some \<lparr>pr_namespace = ''prod'', pr_name = name, pr_uid = ''u-'' @ name,
                  pr_node = ''n1'', pr_container_id = []\<rparr>,
       pf_source = PACKET_SOURCE_WIRE, pf_timestamp = None, pf_link_type = lt,
       pf_original_length = 0, pf_payload = d, pf_sequence = 1\<rparr>"

definition demo_wires :: "capture_record list" where
  "demo_wires =
     [demo_wire ''pay'' LINK_TYPE_LINUX_SLL ''aa'', demo_wire ''web'' LINK_TYPE_ETHERNET ''b'',
      demo_wire ''web'' LINK_TYPE_ETHERNET [], NilRecord, demo_wire ''pay'' LINK_TYPE_LINUX_SLL ''c'']"

definition demo_writer :: "string \<Rightarrow> (ng_file, classic_file) pcap_writer" where
  "demo_writer path = \<lparr>pw_path = path, pw_has_file = True, pw_ng = None, pw_classic = None,
     pw_ifaces = [], pw_count = 0\<rparr>"

lemma demo_open:
  "open_pcap demo_sink_os ''o/c.pcapng'' = Inr (demo_writer ''o/c.pcapng'')"
  "open_pcap demo_sink_os ''o/c.pcap'' = Inr (demo_writer ''o/c.pcap'')"
  by code_simp+

lemma demo_extension: "use_pcapng ''o/c.pcapng''" "\<not> use_pcapng ''o/c.pcap''"
  by code_simp+

lemma demo_written:
  "snd (write_records demo_dlt demo_pcapgo demo_wires (demo_writer ''o/c.pcapng'')) = None"
  "snd (write_records demo_dlt demo_pcapgo demo_wires (demo_writer ''o/c.pcap'')) = None"
  by (simp_all add: demo_wires_def demo_wire_def demo_writer_def write_record_def write_frame_def
      demo_extension write_ng_def write_classic_def init_classic_def ensure_interface_def
      interface_key_def frame_info_def count_frame_def demo_pcapgo_def Let_def)

lemma demo_frames: "map pf_payload (written_frames demo_wires) = [''aa'', ''b'', ''c'']"
  by (simp add: demo_wires_def demo_wire_def)

lemma demo_consistent: "keys_consistent (written_frames demo_wires)"
  by (simp add: keys_consistent_def demo_wires_def demo_wire_def frame_key_def interface_key_def)

lemma demo_run:
  assumes "snd (write_records D L rs w) = None"
  obtains w' where "write_records D L rs w = (w', None)"
  using assms by (cases "write_records D L rs w") auto

theorem pcapng_is_a_function_of_the_records_witness:
  "\<exists>w. write_records demo_dlt demo_pcapgo demo_wires (demo_writer ''o/c.pcapng'') = (w, None) \<and>
     packet_count w = 3"
proof -
  obtain w where w: "write_records demo_dlt demo_pcapgo demo_wires (demo_writer ''o/c.pcapng'') = (w, None)"
    using demo_written(1) by (rule demo_run)
  show ?thesis
    using pcapng_is_a_function_of_the_records [OF demo_ng_documented demo_extension(1) demo_open(1) w]
      arg_cong [OF demo_frames, of length] w
    by simp
qed


theorem classic_header_from_first_frame_witness:
  "\<exists>w c. write_records demo_dlt demo_pcapgo demo_wires (demo_writer ''o/c.pcap'') = (w, None) \<and>
     pw_classic w = Some c \<and> fst c = [(65535, 113)] \<and> length (snd c) = 3"
proof -
  obtain w where w: "write_records demo_dlt demo_pcapgo demo_wires (demo_writer ''o/c.pcap'') = (w, None)"
    using demo_written(2) by (rule demo_run)
  obtain f fs where f: "written_frames demo_wires = f # fs"
    by (simp add: demo_wires_def demo_wire_def)
  have "pf_link_type f = LINK_TYPE_LINUX_SLL" "length fs = 2"
    using f by (auto simp: demo_wires_def demo_wire_def)
  then show ?thesis
    using classic_header_from_first_frame
      [OF demo_classic_documented demo_extension(2) demo_open(2) w f] w
    by (auto simp: link_type_to_dlt_def link_type_defs demo_dlt_def)
qed

theorem link_type_roundtrip_witness:
  "link_type_to_dlt demo_dlt (link_type_from_dlt demo_dlt 276) = 276"
proof -
  have "distinct [dlt_ethernet demo_dlt, dlt_raw demo_dlt, dlt_linux_sll demo_dlt, dlt_linux_sll2 demo_dlt]"
    by (simp add: demo_dlt_def)
  from link_type_roundtrip [OF this, of 276] show ?thesis
    by (simp add: link_type_from_dlt_def link_type_defs demo_dlt_def)
qed

end
