(* ===== verification/Sink_Jsonl.thy ===== *)
theory Sink_Jsonl imports Go_Encoding Sink_Pcap begin

text \<open>
  \<open>pkg/sink/jsonl.go\<close>: TLS plaintext events as one JSON object per line.  The file is the
  list of bytes written so far; what the operating system does with one write is an argument
  (\<open>WroteAll\<close>, or an error after some bytes), and the encoder keeps its first error, as
  \<open>json.Encoder\<close> does.  Times are in nanoseconds since 1970.
\<close>

section \<open>The line of an event\<close>

record tls_event_line =
  tl_timestamp :: string
  tl_namespace :: string
  tl_pod :: string
  tl_uid :: string
  tl_node :: string
  tl_direction :: string
  tl_pid :: u32
  tl_process :: string
  tl_tls_library :: string
  tl_connection_id :: string
  tl_sequence :: u64
  tl_payload :: string
  tl_payload_b64 :: string

definition direction_name :: "direction \<Rightarrow> string" where
  "direction_name d =
     (if d = DIRECTION_INBOUND then ''inbound''
      else if d = DIRECTION_OUTBOUND then ''outbound'' else [])"

definition event_line :: "tls_event \<Rightarrow> tls_event_line" where
  "event_line e =
     (let pod = deref_pod (te_pod e); payload = te_payload e in
      \<lparr>tl_timestamp = (case te_timestamp e of
          Some ts \<Rightarrow> if ts_valid ts then format_utc (ts_time ts) else [] | None \<Rightarrow> []),
       tl_namespace = pr_namespace pod, tl_pod = pr_name pod, tl_uid = pr_uid pod,
       tl_node = pr_node pod, tl_direction = direction_name (te_direction e),
       tl_pid = te_pid e, tl_process = te_process e, tl_tls_library = te_tls_library e,
       tl_connection_id = te_connection_id e, tl_sequence = te_sequence e,
       tl_payload = (if utf8_valid payload then payload else []),
       tl_payload_b64 = (if \<not> utf8_valid payload \<and> payload \<noteq> [] then base64 payload else [])\<rparr>)"

text \<open>
  The object: the fields of the struct in order under their tags, a field tagged
  \<open>omitempty\<close> only when it is not empty.
\<close>

definition json_string_field :: "string \<Rightarrow> string \<Rightarrow> string list" where
  "json_string_field k v = [json_quote k @ '':'' @ json_quote v]"

definition json_omit_string :: "string \<Rightarrow> string \<Rightarrow> string list" where
  "json_omit_string k v = (if v = [] then [] else json_string_field k v)"

definition json_number_field :: "string \<Rightarrow> nat \<Rightarrow> string list" where
  "json_number_field k n = [json_quote k @ '':'' @ show_nat n]"

definition line_fields :: "tls_event_line \<Rightarrow> string list" where
  "line_fields l =
     json_string_field ''timestamp'' (tl_timestamp l)
     @ json_omit_string ''namespace'' (tl_namespace l)
     @ json_omit_string ''pod'' (tl_pod l)
     @ json_omit_string ''uid'' (tl_uid l)
     @ json_omit_string ''node'' (tl_node l)
     @ json_omit_string ''direction'' (tl_direction l)
     @ (if tl_pid l = 0 then [] else json_number_field ''pid'' (unat (tl_pid l)))
     @ json_omit_string ''process'' (tl_process l)
     @ json_omit_string ''tls_library'' (tl_tls_library l)
     @ json_omit_string ''connection_id'' (tl_connection_id l)
     @ json_number_field ''sequence'' (unat (tl_sequence l))
     @ json_omit_string ''payload'' (tl_payload l)
     @ json_omit_string ''payload_b64'' (tl_payload_b64 l)"

fun join_comma :: "string list \<Rightarrow> string" where
  "join_comma [] = []"
| "join_comma [s] = s"
| "join_comma (s # t # ss) = s @ '','' @ join_comma (t # ss)"

definition encode_line :: "tls_event_line \<Rightarrow> string" where
  "encode_line l = ''{'' @ join_comma (line_fields l) @ ''}''"

section \<open>The writer\<close>

record jsonl_writer =
  jw_path :: string
  jw_file :: bool
  jw_bytes :: string
  jw_enc_err :: "string option"
  jw_count :: u64

definition open_jsonl :: "sink_os \<Rightarrow> string \<Rightarrow> sink_open_error + jsonl_writer" where
  "open_jsonl S path =
     (if path = [] then Inl PathRequired
      else
        case (if path_dir path \<noteq> ''.'' then so_mkdir_all S (path_dir path) else None) of
          Some e \<Rightarrow> Inl (CreateDirectory e)
        | None \<Rightarrow>
            (case so_create S path of
               Some e \<Rightarrow> Inl (OpenOutput e)
             | None \<Rightarrow> Inr \<lparr>jw_path = path, jw_file = True, jw_bytes = [], jw_enc_err = None,
                           jw_count = 0\<rparr>))"

datatype file_write = WroteAll | WroteSome nat string

text \<open>\<open>Encode\<close>: one \<open>Write\<close> of the object and a newline.\<close>

definition json_encode :: "file_write \<Rightarrow> string \<Rightarrow> jsonl_writer \<Rightarrow> jsonl_writer \<times> string option" where
  "json_encode wr text w =
     (case jw_enc_err w of
        Some e \<Rightarrow> (w, Some e)
      | None \<Rightarrow>
          (case wr of
             WroteAll \<Rightarrow> (w\<lparr>jw_bytes := jw_bytes w @ text @ [CHR 0x0A]\<rparr>, None)
           | WroteSome n e \<Rightarrow>
               (w\<lparr>jw_bytes := jw_bytes w @ take n (text @ [CHR 0x0A]), jw_enc_err := Some e\<rparr>, Some e)))"

definition write_event ::
    "file_write \<Rightarrow> tls_event option \<Rightarrow> jsonl_writer \<Rightarrow> jsonl_writer \<times> string option" where
  "write_event wr ev w =
     (case ev of
        None \<Rightarrow> (w, None)
      | Some e \<Rightarrow>
          (case json_encode wr (encode_line (event_line e)) w of
             (w', Some err) \<Rightarrow> (w', Some err)
           | (w', None) \<Rightarrow> (w'\<lparr>jw_count := jw_count w' + 1\<rparr>, None)))"

definition write_tls_record ::
    "file_write \<Rightarrow> capture_record \<Rightarrow> jsonl_writer \<Rightarrow> jsonl_writer \<times> string option" where
  "write_tls_record wr r w = write_event wr (get_tls_event r) w"

definition event_count :: "jsonl_writer \<Rightarrow> u64" where
  "event_count w = jw_count w"

definition jsonl_close :: "sink_os \<Rightarrow> jsonl_writer \<Rightarrow> jsonl_writer \<times> string option" where
  "jsonl_close S w =
     (if \<not> jw_file w then (w, None) else (w\<lparr>jw_file := False\<rparr>, so_close S (jw_path w)))"

text \<open>A stream of records, each with the outcome of its write, stopped by the first error.\<close>

fun write_tls_records ::
    "(file_write \<times> capture_record) list \<Rightarrow> jsonl_writer \<Rightarrow> jsonl_writer \<times> string option" where
  "write_tls_records [] w = (w, None)"
| "write_tls_records ((wr, r) # rs) w =
     (case write_tls_record wr r w of
        (w', Some e) \<Rightarrow> (w', Some e)
      | (w', None) \<Rightarrow> write_tls_records rs w')"

section \<open>What a line tells\<close>

text \<open>What a reader of the line takes as the payload.\<close>

definition line_payload :: "tls_event_line \<Rightarrow> string" where
  "line_payload l =
     (if tl_payload_b64 l = [] then json_unescape (json_escape (tl_payload l))
      else unbase64 (json_unescape (json_escape (tl_payload_b64 l))))"

lemma b64_char_plain:
  assumes "n < 64"
  shows "byte (b64_char n) < 128"
proof -
  have "list_all (\<lambda>c. byte c < 128) b64_alphabet" "length b64_alphabet = 64"
    by (simp_all add: b64_alphabet_def byte_def)
  then show ?thesis using assms by (simp add: b64_char_def list_all_length)
qed

lemma ascii_valid: "list_all (\<lambda>c. byte c < 128) s \<Longrightarrow> utf8_valid s"
proof (induction s)
  case (Cons c s)
  then show ?case by (subst utf8_valid.simps) (simp add: utf8_width_ascii)
qed (simp add: utf8_valid.simps)

lemma base64_ascii: "list_all (\<lambda>c. byte c < 128) (base64 s)"
  by (induction s rule: base64.induct) (simp_all add: b64_char_plain byte_split byte_def [of "CHR ''=''"])


section \<open>One object per line\<close>

lemma show_nat_ge: "c \<in> set (show_nat n) \<Longrightarrow> 48 \<le> byte c"
proof (induction n arbitrary: c rule: show_nat.induct)
  case (1 n)
  then show ?case
    by (auto simp: show_nat.simps [of n] byte_def split: if_splits)
qed

lemma newline_not_digit [simp]: "CHR 0x0A \<notin> set (show_nat n)"
  using show_nat_ge [of "CHR 0x0A" n] by (auto simp: byte_def)

lemma quote_no_newline [simp]: "CHR 0x0A \<notin> set (json_quote s)"
  by (simp add: json_quote_def json_escape_no_newline)

lemma join_comma_no_newline:
  "list_all (\<lambda>s. CHR 0x0A \<notin> set s) ss \<Longrightarrow> CHR 0x0A \<notin> set (join_comma ss)"
  by (induction ss rule: join_comma.induct) simp_all

lemma encode_line_no_newline: "CHR 0x0A \<notin> set (encode_line l)"
proof -
  have "list_all (\<lambda>s. CHR 0x0A \<notin> set s) (line_fields l)"
    by (simp add: line_fields_def json_string_field_def json_omit_string_def json_number_field_def)
  from join_comma_no_newline [OF this] show ?thesis
    by (simp add: encode_line_def)
qed

lemma split_lines:
  "CHR 0x0A \<notin> set l \<Longrightarrow> split_on CHR 0x0A (l @ CHR 0x0A # s) = l # split_on CHR 0x0A s"
  by (induction l) auto

definition written_events :: "(file_write \<times> capture_record) list \<Rightarrow> tls_event list" where
  "written_events rs = List.map_filter (get_tls_event \<circ> snd) rs"

lemma written_events_simps [simp]:
  "written_events [] = []"
  "written_events (p # rs) =
     (case get_tls_event (snd p) of None \<Rightarrow> written_events rs | Some e \<Rightarrow> e # written_events rs)"
  by (simp_all add: written_events_def map_filter_simps split: option.splits)

lemma write_tls_records_file:
  "write_tls_records rs w = (w', None) \<Longrightarrow>
     jw_bytes w' = jw_bytes w @ concat (map (\<lambda>e. encode_line (event_line e) @ [CHR 0x0A]) (written_events rs)) \<and>
     jw_count w' = jw_count w + of_nat (length (written_events rs))"
proof (induction rs w rule: write_tls_records.induct)
  case (2 wr r rs w)
  then obtain w1 where w1: "write_tls_record wr r w = (w1, None)" "write_tls_records rs w1 = (w', None)"
    by (auto split: prod.splits option.splits)
  have "jw_bytes w1 = jw_bytes w @
          concat (map (\<lambda>e. encode_line (event_line e) @ [CHR 0x0A]) (written_events [(wr, r)])) \<and>
      jw_count w1 = jw_count w + of_nat (length (written_events [(wr, r)]))"
    using w1(1)
    by (auto simp: write_tls_record_def write_event_def json_encode_def
        split: option.splits prod.splits file_write.splits)
  then show ?case
    using 2(1) [OF w1(1) [symmetric] refl w1(2)] by (simp split: option.splits)
qed simp

text \<open>
  The file is JSON Lines: after a stream of records was written without an error, splitting
  it at its newlines gives the objects of the TLS events of the stream, in their order, and
  nothing but the empty text after the last newline, whatever bytes the events carry; wire
  frames leave no trace, and \<open>EventCount\<close> is the number of lines.
\<close>

theorem one_object_per_line:
  assumes "open_jsonl S path = Inr w" "write_tls_records rs w = (w', None)"
  shows "split_on CHR 0x0A (jw_bytes w') = map (\<lambda>e. encode_line (event_line e)) (written_events rs) @ [[]] \<and>
    event_count w' = of_nat (length (written_events rs))"
proof -
  have "jw_bytes w = []" "jw_count w = 0"
    using assms(1) by (auto simp: open_jsonl_def split: if_splits option.splits)
  moreover have "split_on CHR 0x0A (concat (map (\<lambda>e. encode_line (event_line e) @ [CHR 0x0A]) es)) =
      map (\<lambda>e. encode_line (event_line e)) es @ [[]]" for es
    by (induction es) (simp_all add: split_lines encode_line_no_newline)
  ultimately show ?thesis
    using write_tls_records_file [OF assms(2)] by (simp add: event_count_def)
qed

definition demo_plain :: "string \<Rightarrow> capture_record" where
  "demo_plain d = TlsEvent \<lparr>te_pod = None, te_timestamp = None, te_direction = DIRECTION_INBOUND,
     te_payload = d, te_connection_id = [], te_pid = 7, te_process = ''curl'',
     te_tls_library = ''openssl'', te_sequence = 1\<rparr>"

definition demo_plain_writer :: jsonl_writer where
  "demo_plain_writer = \<lparr>jw_path = ''t.jsonl'', jw_file = True, jw_bytes = [], jw_enc_err = None, jw_count = 0\<rparr>"

theorem one_object_per_line_witness:
  "\<exists>w. write_tls_records [(WroteAll, demo_plain [CHR 0x0A, CHR 0xFF]), (WroteAll, NilRecord),
          (WroteAll, demo_plain ''hi'')] demo_plain_writer = (w, None) \<and>
     length (split_on CHR 0x0A (jw_bytes w)) = 3 \<and> event_count w = 2"
proof -
  let ?rs = "[(WroteAll, demo_plain [CHR 0x0A, CHR 0xFF]), (WroteAll, NilRecord), (WroteAll, demo_plain ''hi'')]"
  obtain w where w: "write_tls_records ?rs demo_plain_writer = (w, None)"
    by (simp add: demo_plain_def demo_plain_writer_def write_tls_record_def write_event_def json_encode_def)
  have "open_jsonl demo_sink_os ''t.jsonl'' = Inr demo_plain_writer"
    by code_simp
  from one_object_per_line [OF this w] w show ?thesis
    by (simp add: demo_plain_def)
qed

end
