(* ===== verification/Cli.thy ===== *)
theory Cli imports Sink_Jsonl Server_Facts begin

text \<open>
  \<open>pkg/cli\<close>: the \<open>capture\<close> command.  \<open>capture_command\<close> turns the parsed flags into
  \<open>CaptureOptions\<close> (cobra's parsing is not in the repository: \<open>default_flags\<close> are the values
  the flags are declared with).  \<open>run_capture\<close> is \<open>RunCapture\<close>: it returns its error and
  the list of its effects, in order, deferred calls included.  The operating system, the
  Kubernetes client, the gRPC transport and what the hub answers are the fields of
  \<open>cli_env\<close>; \<open>subscribe_loop\<close> and \<open>watch_loop\<close> are the two receiving goroutines.
\<close>

section \<open>The command line\<close>

datatype pattern_error = NoPodPattern

fun add_patterns :: "string list \<Rightarrow> string list \<Rightarrow> string list" where
  "add_patterns out [] = out"
| "add_patterns out (part # parts) =
     (let p = trim_space part in
      if p = [] then add_patterns out parts else add_patterns (out @ [p]) parts)"

definition parse_pod_patterns :: "string list \<Rightarrow> pattern_error + string list" where
  "parse_pod_patterns values =
     (let out = fold (\<lambda>value out. add_patterns out (split_on CHR '','' value)) values [] in
      if out = [] then Inl NoPodPattern else Inr out)"

text \<open>The \<open>--log-level\<close> flags of a command and its parents, outwards.\<close>

fun log_level_from_command :: "string option list \<Rightarrow> string" where
  "log_level_from_command [] = []"
| "log_level_from_command (Some v # cs) = v"
| "log_level_from_command (None # cs) = log_level_from_command cs"

record kube_client_config =
  kc_kubeconfig :: string
  kc_context :: string
  kc_namespace :: string
  kc_user_agent :: string

record capture_options =
  co_spec :: spec
  co_sink :: sink_spec
  co_agent :: agent_config
  co_kube :: kube_client_config
  co_hub_listen :: string
  co_hub_ingest :: string
  co_on_session_ready :: bool

record capture_flags =
  fl_namespace :: string
  fl_pods :: "string list"
  fl_out :: string
  fl_bpf :: string
  fl_duration :: int
  fl_snaplen :: u32
  fl_kubeconfig :: string
  fl_context :: string
  fl_agent_namespace :: string
  fl_agent_image :: string
  fl_cri_socket :: string
  fl_allow_mutable :: bool
  fl_hub_listen :: string
  fl_hub_ingest :: string
  fl_tls :: string
  fl_tls_out :: string
  fl_keylog_file :: string

definition default_flags :: "string \<Rightarrow> capture_flags" where
  "default_flags ref =
     \<lparr>fl_namespace = [], fl_pods = [], fl_out = ''capture.pcapng'', fl_bpf = [], fl_duration = 0,
      fl_snaplen = 0, fl_kubeconfig = [], fl_context = [],
      fl_agent_namespace = DefaultAgentNamespace, fl_agent_image = ref,
      fl_cri_socket = DefaultCRISocketPath, fl_allow_mutable = False, fl_hub_listen = [],
      fl_hub_ingest = [], fl_tls = ''auto'', fl_tls_out = [], fl_keylog_file = []\<rparr>"

datatype command_error = CmdPatterns pattern_error | CmdTlsMode tls_mode_error

definition capture_command ::
    "string \<Rightarrow> string \<Rightarrow> string option list \<Rightarrow> capture_flags \<Rightarrow> command_error + capture_options" where
  "capture_command ref version levels fl =
     (case parse_pod_patterns (fl_pods fl) of
        Inl e \<Rightarrow> Inl (CmdPatterns e)
      | Inr patterns \<Rightarrow>
          (case (if fl_tls fl \<noteq> [] then parse_tls_mode (fl_tls fl) else Inr TLSModeUnspecified) of
             Inl e \<Rightarrow> Inl (CmdTlsMode e)
           | Inr mode \<Rightarrow> Inr
               \<lparr>co_spec = \<lparr>sp_namespace = fl_namespace fl, sp_pod_patterns = patterns,
                  sp_bpf_filter = fl_bpf fl, sp_duration = fl_duration fl,
                  sp_snaplen = fl_snaplen fl, sp_tls_mode = mode\<rparr>,
                co_sink = \<lparr>sk_out = fl_out fl, sk_tls_out = fl_tls_out fl, sk_keylog_file = fl_keylog_file fl\<rparr>,
                co_agent = (default_agent_config ref)
                  \<lparr>ac_namespace := fl_agent_namespace fl, ac_image := fl_agent_image fl,
                   ac_cri_socket := fl_cri_socket fl, ac_allow_mutable_image := fl_allow_mutable fl,
                   ac_log_level := log_level_from_command levels\<rparr>,
                co_kube = \<lparr>kc_kubeconfig = fl_kubeconfig fl, kc_context = fl_context fl,
                  kc_namespace = fl_namespace fl, kc_user_agent = ''k8s-sniffer/'' @ version\<rparr>,
                co_hub_listen = fl_hub_listen fl, co_hub_ingest = fl_hub_ingest fl,
                co_on_session_ready = False\<rparr>))"

section \<open>The ingest address\<close>

datatype net_addr = TcpAddr nat | OtherAddr string

text \<open>What dialling \<open>8.8.8.8:80\<close> over UDP tells about the local address.\<close>

datatype udp_local = UdpDialFailed | UdpLocal string bool | UdpOther

datatype ingest_error = UnsupportedListener string | NoAssignedPort | SetHubIngestAddr

definition host_reachable_from_cluster :: "string \<Rightarrow> udp_local \<Rightarrow> string \<times> bool" where
  "host_reachable_from_cluster ingestHost udp =
     (if ingestHost \<noteq> [] then (ingestHost, True)
      else (case udp of
              UdpDialFailed \<Rightarrow> ([], False)
            | UdpLocal ip loopback \<Rightarrow> if \<not> loopback then (ip, True) else ([], False)
            | UdpOther \<Rightarrow> ([], False)))"

text \<open>\<open>net.JoinHostPort\<close>.\<close>

definition join_host_port :: "string \<Rightarrow> string \<Rightarrow> string" where
  "join_host_port host port =
     (if CHR '':'' \<in> set host then ''['' @ host @ '']:'' @ port else host @ '':'' @ port)"

definition default_hub_ingest_addr :: "string \<Rightarrow> udp_local \<Rightarrow> net_addr \<Rightarrow> ingest_error + string" where
  "default_hub_ingest_addr ingestHost udp ln =
     (case ln of
        OtherAddr ty \<Rightarrow> Inl (UnsupportedListener ty)
      | TcpAddr port \<Rightarrow>
          if port = 0 then Inl NoAssignedPort
          else (case host_reachable_from_cluster ingestHost udp of
                  (host, True) \<Rightarrow> Inr (join_host_port host (show_nat port))
                | (_, False) \<Rightarrow> Inl SetHubIngestAddr))"

section \<open>The receiving goroutines\<close>

text \<open>
  What one \<open>Recv\<close> returns; an error comes with the verdict of \<open>errors.Is(err, context.Canceled)\<close>.
\<close>

datatype 'r packet_recv = Received 'r | RecvEOF | RecvError bool string

datatype subscribe_error =
    SubscribeFailed string
  | ContextError
  | StreamError string
  | PcapSinkError sink_write_error
  | TlsSinkError string

definition subscribe_kinds :: "bool \<Rightarrow> record_kind list" where
  "subscribe_kinds hasTls = (if \<not> hasTls then [RECORD_KIND_WIRE_FRAME] else [])"

text \<open>
  The loop of \<open>subscribePackets\<close>, on what the stream returns (\<open>wr\<close> is what the operating
  system does with the JSONL write of that record); \<open>ctxDone\<close> says that the context has ended
  when the loop returns its error.  The first component is None while the loop still waits.
\<close>

fun subscribe_loop ::
    "dlt_codes \<Rightarrow> ('ng, 'cl) pcapgo_lib \<Rightarrow> bool \<Rightarrow> (file_write \<times> capture_record packet_recv) list
      \<Rightarrow> ('ng, 'cl) pcap_writer \<Rightarrow> jsonl_writer option
      \<Rightarrow> subscribe_error option option \<times> ('ng, 'cl) pcap_writer \<times> jsonl_writer option" where
  "subscribe_loop D L ctxDone [] p t = (None, p, t)"
| "subscribe_loop D L ctxDone ((wr, RecvEOF) # rs) p t =
     (Some (if ctxDone then Some ContextError else None), p, t)"
| "subscribe_loop D L ctxDone ((wr, RecvError canceled e) # rs) p t =
     (Some (if canceled then (if ctxDone then Some ContextError else None) else Some (StreamError e)), p, t)"
| "subscribe_loop D L ctxDone ((wr, Received r) # rs) p t =
     (case write_record D L r p of
        (p', Some e) \<Rightarrow> (Some (Some (PcapSinkError e)), p', t)
      | (p', None) \<Rightarrow>
          (case t of
             None \<Rightarrow> subscribe_loop D L ctxDone rs p' None
           | Some j \<Rightarrow>
               (case write_tls_record wr r j of
                  (j', Some e) \<Rightarrow> (Some (Some (TlsSinkError e)), p', Some j')
                | (j', None) \<Rightarrow> subscribe_loop D L ctxDone rs p' (Some j'))))"

text \<open>\<open>opened\<close> is the error of the call that opens the stream; nothing is written then.\<close>

definition subscribe_packets_client ::
    "dlt_codes \<Rightarrow> ('ng, 'cl) pcapgo_lib \<Rightarrow> bool \<Rightarrow> (record_kind list \<Rightarrow> string option)
      \<Rightarrow> (file_write \<times> capture_record packet_recv) list \<Rightarrow> ('ng, 'cl) pcap_writer \<Rightarrow> jsonl_writer option
      \<Rightarrow> subscribe_error option option \<times> ('ng, 'cl) pcap_writer \<times> jsonl_writer option" where
  "subscribe_packets_client D L ctxDone opened rs p t =
     (case opened (subscribe_kinds (t \<noteq> None)) of
        Some e \<Rightarrow> (Some (Some (SubscribeFailed e)), p, t)
      | None \<Rightarrow> subscribe_loop D L ctxDone rs p t)"

definition stats_line :: "string \<Rightarrow> u64 \<Rightarrow> u64 \<Rightarrow> u64 \<Rightarrow> string" where
  "stats_line who packets bytes lost =
     ''stats: '' @ who @ ''packets='' @ show_nat (unat packets) @ '' bytes='' @ show_nat (unat bytes)
     @ '' dropped='' @ show_nat (unat lost) @ [CHR 0x0A]"

text \<open>What \<open>watchEvents\<close> prints of one event; \<open>text\<close> is the event's message.\<close>

definition event_output :: "(message \<Rightarrow> string) \<Rightarrow> session_event \<Rightarrow> string" where
  "event_output text ev =
     (case se_payload ev of
        StatsEvent st \<Rightarrow>
          stats_line [] (st_packets st) (st_bytes st) (st_dropped st)
          @ concat (map (\<lambda>p. stats_line (''pod='' @ pr_name (pc_pod p) @ '' '')
                               (pc_packets p) (pc_bytes p) (pc_dropped p)) (st_per_pod st))
      | _ \<Rightarrow> ''event: '' @ text (se_message ev) @ [CHR 0x0A])"

fun watch_loop :: "(message \<Rightarrow> string) \<Rightarrow> (string + session_event) list \<Rightarrow> string option \<times> string" where
  "watch_loop text [] = (None, [])"
| "watch_loop text (Inl e # rs) = (Some e, [])"
| "watch_loop text (Inr ev # rs) =
     (case watch_loop text rs of (res, out) \<Rightarrow> (res, event_output text ev @ out))"

definition watch_events_client ::
    "(message \<Rightarrow> string) \<Rightarrow> string option \<Rightarrow> (string + session_event) list \<Rightarrow> string option \<times> string" where
  "watch_events_client text opened rs =
     (case opened of Some e \<Rightarrow> (Some e, []) | None \<Rightarrow> watch_loop text rs)"

section \<open>RunCapture\<close>

datatype cli_error =
    SpecError "spec_error list"
  | SinkError "sink_error list"
  | KubeError string
  | ListenError string
  | IngestError ingest_error
  | AgentConfigError "agent_config_error list"
  | HubError new_hub_error
  | HubDialError string
  | PcapOpenError sink_open_error
  | TlsOpenError sink_open_error
  | CreateSessionError string
  | SessionFailedError "hub_error option"
  | WaitSubscriberError string
  | PacketStreamError subscribe_error

datatype cli_effect =
    EfListen string
  | EfServe
  | EfDial
  | EfOpenPcap string
  | EfOpenTls string
  | EfKeylogHint string
  | EfCreateSession capture_spec
  | EfWatchEvents string
  | EfSubscribe string "record_kind list"
  | EfWaitSubscriber string
  | EfSessionReady
  | EfArmTimer int
  | EfStopSession string string
  | EfCancelSubscription
  | EfCloseTls
  | EfClosePcap
  | EfCloseConn
  | EfGracefulStop
  | EfStopAll
  | EfCloseListener

record 're cli_env =
  en_lib :: "'re ext_lib"
  en_image_ref :: string
  en_kube :: "kube_client_config \<Rightarrow> string option"
  en_listen :: "string \<Rightarrow> string + net_addr"
  en_ingest_host :: string
  en_udp :: udp_local
  en_dial :: "string option"
  en_os :: sink_os
  en_create_session :: "capture_spec \<Rightarrow> string + session_proto"
  en_wait_subscriber :: "string \<Rightarrow> string option"

text \<open>
  What may happen once the capture runs: the duration passes, the context ends (by a signal or
  a cancellation, or otherwise), \<open>subscribePackets\<close> returns; its error comes with the
  verdict of \<open>errors.Is(err, context.Canceled)\<close>.
\<close>

datatype cli_event =
  TimerFires | ContextDone bool | PacketsReturn "(bool \<times> subscribe_error) option"

text \<open>\<open>stopSession\<close>, which only acts the first time.\<close>

definition stop_once :: "string \<Rightarrow> bool \<Rightarrow> string \<Rightarrow> cli_effect list" where
  "stop_once sid stopped reason =
     (if stopped then [] else [EfStopSession sid reason, EfCancelSubscription])"

text \<open>
  The select and what follows it; \<open>stopped\<close> is the \<open>sync.Once\<close>.  None: still waiting.
\<close>

fun capture_select :: "string \<Rightarrow> bool \<Rightarrow> cli_event list \<Rightarrow> bool \<Rightarrow> cli_error option option \<times> cli_effect list" where
  "capture_select sid armed [] stopped = (None, [])"
| "capture_select sid armed (TimerFires # evs) stopped =
     (if armed then
        (case capture_select sid False evs True of
           (res, effs) \<Rightarrow> (res, stop_once sid stopped ''duration'' @ effs))
      else capture_select sid armed evs stopped)"
| "capture_select sid armed (ContextDone canceled # evs) stopped =
     (Some None, stop_once sid stopped (if canceled then ''signal'' else ''context ended''))"
| "capture_select sid armed (PacketsReturn err # evs) stopped =
     (case err of
        Some (False, e) \<Rightarrow> (Some (Some (PacketStreamError e)), stop_once sid stopped ''packet stream error'')
      | _ \<Rightarrow> (Some None, stop_once sid stopped ''packet stream ended''))"

text \<open>
  From \<open>CreateSession\<close> to the return; \<open>defers\<close> are the deferred calls so far, the last one
  first.  The result is None when the events end before the capture does.
\<close>

definition run_session ::
    "'re cli_env \<Rightarrow> capture_options \<Rightarrow> spec \<Rightarrow> bool \<Rightarrow> cli_event list \<Rightarrow> cli_effect list
      \<Rightarrow> cli_error option option \<times> cli_effect list" where
  "run_session E opts sp hasTls evs defers =
     (let hubSpec = (to_proto sp)\<lparr>cs_duration := None\<rparr> in
      case en_create_session E hubSpec of
        Inl e \<Rightarrow> (Some (Some (CreateSessionError e)), EfCreateSession hubSpec # defers)
      | Inr session \<Rightarrow>
          if sn_state session = Session_Failed
          then (Some (Some (SessionFailedError (sn_failure session))), EfCreateSession hubSpec # defers)
          else
            let sid = sn_id session;
                begun = [EfCreateSession hubSpec, EfWatchEvents sid,
                         EfSubscribe sid (subscribe_kinds hasTls), EfWaitSubscriber sid] in
            case en_wait_subscriber E sid of
              Some e \<Rightarrow> (Some (Some (WaitSubscriberError e)),
                         begun @ [EfCancelSubscription] @ [EfCancelSubscription] @ defers)
            | None \<Rightarrow>
                (case capture_select sid (0 < sp_duration sp) evs False of
                   (res, effs) \<Rightarrow>
                     (res, begun
                        @ (if co_on_session_ready opts then [EfSessionReady] else [])
                        @ (if 0 < sp_duration sp then [EfArmTimer (sp_duration sp)] else [])
                        @ effs
                        @ (if res = None then [] else EfCancelSubscription # defers))))"

text \<open>From the sinks on; the hub is serving.\<close>

definition run_sinks ::
    "'re cli_env \<Rightarrow> capture_options \<Rightarrow> spec \<Rightarrow> sink_spec \<Rightarrow> cli_event list \<Rightarrow> cli_effect list
      \<Rightarrow> cli_error option option \<times> cli_effect list" where
  "run_sinks E opts sp sk evs defers =
     (case open_pcap (en_os E) (sk_out sk) :: sink_open_error + (unit, unit) pcap_writer of
        Inl e \<Rightarrow> (Some (Some (PcapOpenError e)), EfOpenPcap (sk_out sk) # defers)
      | Inr _ \<Rightarrow>
          let defers1 = EfClosePcap # defers;
              hasTls = (sk_tls_out sk \<noteq> []);
              hint = (if sp_tls_mode sp = TLSModeKeylog then [EfKeylogHint (sk_keylog_file sk)] else []) in
          if \<not> hasTls then
            (case run_session E opts sp hasTls evs defers1 of
               (res, effs) \<Rightarrow> (res, EfOpenPcap (sk_out sk) # hint @ effs))
          else
            case open_jsonl (en_os E) (sk_tls_out sk) of
              Inl e \<Rightarrow> (Some (Some (TlsOpenError e)),
                         EfOpenPcap (sk_out sk) # EfOpenTls (sk_tls_out sk) # defers1)
            | Inr _ \<Rightarrow>
                (case run_session E opts sp hasTls evs (EfCloseTls # defers1) of
                   (res, effs) \<Rightarrow>
                     (res, EfOpenPcap (sk_out sk) # EfOpenTls (sk_tls_out sk) # hint @ effs)))"

definition run_capture ::
    "'re cli_env \<Rightarrow> capture_options \<Rightarrow> cli_event list \<Rightarrow> cli_error option option \<times> cli_effect list" where
  "run_capture E opts evs =
     (let sp = spec_with_defaults (co_spec opts); specErrs = spec_validate (en_lib E) sp;
          sk = sink_with_defaults (co_sink opts); sinkErrs = sink_validate sk in
      if specErrs \<noteq> [] then (Some (Some (SpecError specErrs)), [])
      else if sinkErrs \<noteq> [] then (Some (Some (SinkError sinkErrs)), [])
      else case en_kube E (co_kube opts) of
        Some e \<Rightarrow> (Some (Some (KubeError e)), [])
      | None \<Rightarrow>
          let listenAddr = (if co_hub_listen opts = [] then ''0.0.0.0:0'' else co_hub_listen opts) in
          case en_listen E listenAddr of
            Inl e \<Rightarrow> (Some (Some (ListenError e)), [EfListen listenAddr])
          | Inr ln \<Rightarrow>
              (case (if co_hub_ingest opts = []
                     then default_hub_ingest_addr (en_ingest_host E) (en_udp E) ln
                     else Inr (co_hub_ingest opts)) of
                 Inl e \<Rightarrow> (Some (Some (IngestError e)), [EfListen listenAddr, EfCloseListener])
               | Inr ingest \<Rightarrow>
                   let cfg = (agent_config_with_defaults (en_image_ref E) (co_agent opts))
                               \<lparr>ac_hub_ingest_addr := ingest\<rparr>;
                       cfgErrs = agent_config_validate (en_lib E) cfg in
                   if cfgErrs \<noteq> []
                   then (Some (Some (AgentConfigError cfgErrs)), [EfListen listenAddr, EfCloseListener])
                   else case new_hub (en_lib E) (en_image_ref E) True cfg 0 of
                     Inl e \<Rightarrow> (Some (Some (HubError e)), [EfListen listenAddr, EfCloseListener])
                   | Inr _ \<Rightarrow>
                       let defers = [EfGracefulStop, EfStopAll, EfCloseListener] in
                       case en_dial E of
                         Some e \<Rightarrow> (Some (Some (HubDialError e)), [EfListen listenAddr, EfServe, EfDial] @ defers)
                       | None \<Rightarrow>
                           (case run_sinks E opts sp sk evs (EfCloseConn # defers) of
                              (res, effs) \<Rightarrow> (res, [EfListen listenAddr, EfServe, EfDial] @ effs))))"

end
