(* ===== verification/Cli_Facts.thy ===== *)
theory Cli_Facts imports Cli begin

text \<open>
  What the \<open>capture\<close> command guarantees: how it reads patterns, that the hub accepts what the
  command line accepted, the order of the effects of \<open>RunCapture\<close> on every path, and what the
  two output files hold when the packet stream ends.
\<close>

section \<open>Patterns\<close>

lemma add_patterns_eq:
  "add_patterns out parts = out @ filter (\<lambda>p. p \<noteq> []) (map trim_space parts)"
  by (induction out parts rule: add_patterns.induct) (simp_all add: Let_def)

lemma fold_patterns_eq:
  "fold (\<lambda>value out. add_patterns out (split_on CHR '','' value)) values out =
     out @ filter (\<lambda>p. p \<noteq> []) (map trim_space (concat (map (split_on CHR '','') values)))"
  by (induction "values" arbitrary: out) (simp_all add: add_patterns_eq)

text \<open>
  \<open>ParsePodPatterns\<close> is the list of the trimmed, non-empty comma-separated parts of all
  values, in order, and an error exactly when there is none.
\<close>

theorem parse_pod_patterns_eq:
  "parse_pod_patterns vs =
     (let ps = filter (\<lambda>p. p \<noteq> []) (map trim_space (concat (map (split_on CHR '','') vs))) in
      if ps = [] then Inl NoPodPattern else Inr ps)"
  by (simp add: parse_pod_patterns_def fold_patterns_eq)

lemma set_trim_left: "set (trim_left rs s) \<subseteq> set s"
proof (induction rs s rule: trim_left.induct)
  case (1 rs s)
  then show ?case
    by (auto simp: trim_left.simps [of rs s] Let_def dest: in_set_dropD split: if_splits)
qed

lemma set_trim_space: "set (trim_space s) \<subseteq> set s"
  unfolding trim_space_def using set_trim_left by (metis (no_types, opaque_lifting) set_rev subset_trans)

text \<open>
  No pattern that reaches the hub contains a comma: a regular expression with a bounded
  repetition such as \<open>{1,3}\<close> is cut in two and both halves are used as patterns.
\<close>

theorem patterns_have_no_comma:
  assumes "parse_pod_patterns vs = Inr ps"
  shows "list_all (\<lambda>p. CHR '','' \<notin> set p \<and> p \<noteq> []) ps"
proof -
  have "ps = filter (\<lambda>p. p \<noteq> []) (map trim_space (concat (map (split_on CHR '','') vs)))"
    using assms by (simp add: parse_pod_patterns_def fold_patterns_eq Let_def split: if_splits)
  then show ?thesis
    using split_on_no_sep set_trim_space by (fastforce simp: list_all_iff)
qed

theorem patterns_have_no_comma_witness:
  "parse_pod_patterns [''api-[0-9]{1,3}''] = Inr [''api-[0-9]{1'', ''3}''] \<and>
   list_all (\<lambda>p. CHR '','' \<notin> set p \<and> p \<noteq> []) [''api-[0-9]{1'', ''3}'']"
proof -
  have "parse_pod_patterns [''api-[0-9]{1,3}''] = Inr [''api-[0-9]{1'', ''3}'']" by code_simp
  from this patterns_have_no_comma [OF this] show ?thesis by (rule conjI)
qed

section \<open>The runs of RunCapture\<close>

fun setup_effect :: "cli_effect \<Rightarrow> bool" where
  "setup_effect (EfListen a) = True"
| "setup_effect EfServe = True"
| "setup_effect EfDial = True"
| "setup_effect (EfOpenPcap p) = True"
| "setup_effect (EfOpenTls p) = True"
| "setup_effect (EfKeylogHint k) = True"
| "setup_effect _ = False"

fun close_effect :: "cli_effect \<Rightarrow> bool" where
  "close_effect EfCloseTls = True"
| "close_effect EfClosePcap = True"
| "close_effect EfCloseConn = True"
| "close_effect _ = False"

text \<open>The errors of every phase but the hub's own and the wait for the subscriber.\<close>

fun plain_error :: "cli_error \<Rightarrow> bool" where
  "plain_error (HubError h) = False"
| "plain_error (WaitSubscriberError e) = False"
| "plain_error _ = True"

definition teardown :: "cli_effect list" where
  "teardown = [EfGracefulStop, EfStopAll, EfCloseListener]"

lemma run_sinks_cases:
  assumes "run_sinks E opts sp sk evs defers = (res, effs)"
  obtains
    (failed) pre cs e where "res = Some (Some e)" "plain_error e" "list_all setup_effect pre"
      "list_all close_effect cs" "effs = pre @ cs @ defers"
  | (session) pre cs effs' where "list_all setup_effect pre" "list_all close_effect cs"
      "run_session E opts sp (sk_tls_out sk \<noteq> []) evs (cs @ defers) = (res, effs')" "effs = pre @ effs'"
proof (cases "open_pcap (en_os E) (sk_out sk) :: sink_open_error + (unit, unit) pcap_writer")
  case (Inl e)
  then show ?thesis
    using assms failed [of "PcapOpenError e" "[EfOpenPcap (sk_out sk)]" "[]"] by (simp add: run_sinks_def)
next
  case (Inr w)
  let ?hint = "if sp_tls_mode sp = TLSModeKeylog then [EfKeylogHint (sk_keylog_file sk)] else []"
  show ?thesis
  proof (cases "sk_tls_out sk = []")
    case True
    then show ?thesis
      using assms Inr session [of "EfOpenPcap (sk_out sk) # ?hint" "[EfClosePcap]"]
      by (auto simp: run_sinks_def Let_def split: prod.splits)
  next
    case False
    show ?thesis
    proof (cases "open_jsonl (en_os E) (sk_tls_out sk)")
      case (Inl e)
      then show ?thesis
        using assms Inr False
          failed [of "TlsOpenError e" "[EfOpenPcap (sk_out sk), EfOpenTls (sk_tls_out sk)]" "[EfClosePcap]"]
        by (simp add: run_sinks_def Let_def)
    next
      case (Inr j)
      then show ?thesis
        using assms \<open>open_pcap _ _ = Inr w\<close> False
          session [of "EfOpenPcap (sk_out sk) # EfOpenTls (sk_tls_out sk) # ?hint" "[EfCloseTls, EfClosePcap]"]
        by (auto simp: run_sinks_def Let_def split: prod.splits)
    qed
  qed
qed

text \<open>A configuration the command line accepted is complete, so the hub takes it as it is.\<close>

lemma validated_config_complete:
  assumes "agent_config_validate L c = []"
  shows "agent_config_with_defaults ref c = c"
proof -
  have "ac_namespace c \<noteq> []" "ac_image c \<noteq> []" "ac_cri_socket c \<noteq> []"
    using assms by (auto simp: agent_config_validate_def split: if_splits)
  then show ?thesis by (simp add: agent_config_with_defaults_def Let_def)
qed

lemma new_hub_accepts:
  "agent_config_validate L c = [] \<Longrightarrow> \<exists>h. new_hub L ref True c t = Inr h"
  by (simp add: new_hub_def validated_config_complete Let_def)

lemma run_capture_cases:
  assumes "run_capture E opts evs = (res, effs)"
  obtains
    (refused) e where "res = Some (Some e)" "plain_error e" "EfServe \<notin> set effs"
      "list_all (\<lambda>f. setup_effect f \<or> f = EfCloseListener) effs"
  | (failed) pre cs e where "res = Some (Some e)" "plain_error e" "list_all setup_effect pre"
      "list_all close_effect cs" "effs = pre @ cs @ teardown"
  | (session) pre cs sp hasTls effs' where "sp = spec_with_defaults (co_spec opts)"
      "spec_validate (en_lib E) sp = []" "list_all setup_effect pre" "list_all close_effect cs"
      "run_session E opts sp hasTls evs (cs @ teardown) = (res, effs')" "effs = pre @ effs'"
proof -
  define sp where "sp = spec_with_defaults (co_spec opts)"
  define sk where "sk = sink_with_defaults (co_sink opts)"
  define addr where "addr = (if co_hub_listen opts = [] then ''0.0.0.0:0'' else co_hub_listen opts)"
  consider "spec_validate (en_lib E) sp \<noteq> [] \<or> sink_validate sk \<noteq> [] \<or> en_kube E (co_kube opts) \<noteq> None"
    | "spec_validate (en_lib E) sp = []" "sink_validate sk = []" "en_kube E (co_kube opts) = None"
    by blast
  then show ?thesis
  proof cases
    case 1
    then show ?thesis
      using assms by (intro refused [of "the (the res)"])
        (auto simp: run_capture_def Let_def simp flip: sp_def sk_def split: if_splits option.splits)
  next
    case 2
    note ok = 2
    let ?defers = "EfCloseConn # teardown"
    show ?thesis
    proof (cases "\<exists>ln ingest. en_listen E addr = Inr ln \<and>
        (if co_hub_ingest opts = [] then default_hub_ingest_addr (en_ingest_host E) (en_udp E) ln
         else Inr (co_hub_ingest opts)) = Inr ingest \<and>
        agent_config_validate (en_lib E) ((agent_config_with_defaults (en_image_ref E) (co_agent opts))
          \<lparr>ac_hub_ingest_addr := ingest\<rparr>) = []")
      case False
      then show ?thesis
        using assms ok by (intro refused [of "the (the res)"])
          (auto simp: run_capture_def Let_def simp flip: sp_def sk_def addr_def split: if_splits sum.splits)
    next
      case True
      then obtain ln ingest where l: "en_listen E addr = Inr ln"
        "(if co_hub_ingest opts = [] then default_hub_ingest_addr (en_ingest_host E) (en_udp E) ln
          else Inr (co_hub_ingest opts)) = Inr ingest"
        "agent_config_validate (en_lib E) ((agent_config_with_defaults (en_image_ref E) (co_agent opts))
          \<lparr>ac_hub_ingest_addr := ingest\<rparr>) = []" by blast
      then obtain h where h: "new_hub (en_lib E) (en_image_ref E) True
          ((agent_config_with_defaults (en_image_ref E) (co_agent opts))\<lparr>ac_hub_ingest_addr := ingest\<rparr>) 0 = Inr h"
        using new_hub_accepts by blast
      have run: "(case en_dial E of
          Some e \<Rightarrow> (Some (Some (HubDialError e)), [EfListen addr, EfServe, EfDial] @ teardown)
        | None \<Rightarrow> (case run_sinks E opts sp sk evs ?defers of
             (res, effs) \<Rightarrow> (res, [EfListen addr, EfServe, EfDial] @ effs))) = (res, effs)"
        using assms ok l h
        unfolding run_capture_def Let_def sp_def [symmetric] sk_def [symmetric] addr_def [symmetric]
          teardown_def
        by simp
      show ?thesis
      proof (cases "en_dial E")
        case (Some e)
        then show ?thesis
          using run failed [of "HubDialError e" "[EfListen addr, EfServe, EfDial]" "[]"] by simp
      next
        case None
        obtain res' effs' where s: "run_sinks E opts sp sk evs ?defers = (res', effs')"
          by (cases "run_sinks E opts sp sk evs ?defers")
        then have e: "res = res'" "effs = [EfListen addr, EfServe, EfDial] @ effs'"
          using run None by simp_all
        from s show ?thesis
        proof (cases rule: run_sinks_cases)
          case (failed pre cs er)
          then show ?thesis
            using e that(2) [of er "[EfListen addr, EfServe, EfDial] @ pre" "cs @ [EfCloseConn]"] by simp
        next
          case (session pre cs effs'')
          then show ?thesis
            using e ok sp_def
              that(3) [of sp "[EfListen addr, EfServe, EfDial] @ pre" "cs @ [EfCloseConn]"] by simp
        qed
      qed
    qed
  qed
qed


section \<open>The order of the effects\<close>

definition is_stop :: "cli_effect \<Rightarrow> bool" where
  "is_stop f = (case f of EfStopSession _ _ \<Rightarrow> True | _ \<Rightarrow> False)"

definition stops :: "cli_effect list \<Rightarrow> nat" where
  "stops fs = length (filter is_stop fs)"

lemma is_stop_simps [simp]:
  "is_stop (EfStopSession i r)" "setup_effect f \<Longrightarrow> \<not> is_stop f" "close_effect f \<Longrightarrow> \<not> is_stop f"
  by (cases f; simp add: is_stop_def)+

lemma stops_simps [simp]:
  "stops [] = 0" "stops (f # fs) = (if is_stop f then Suc (stops fs) else stops fs)"
  "stops (xs @ ys) = stops xs + stops ys"
  by (simp_all add: stops_def)

lemma stops_setup [simp]: "list_all setup_effect fs \<Longrightarrow> stops fs = 0"
  by (induction fs) auto

lemma stops_close [simp]: "list_all close_effect fs \<Longrightarrow> stops fs = 0"
  by (induction fs) auto

lemma stops_teardown [simp]: "stops teardown = 0"
  by (simp add: teardown_def is_stop_def)

lemma capture_select_stops:
  "capture_select sid armed evs stopped = (res, effs) \<Longrightarrow>
     stops effs \<le> (if stopped then 0 else 1) \<and> (res \<noteq> None \<longrightarrow> stops effs = (if stopped then 0 else 1)) \<and>
     list_all (\<lambda>f. is_stop f \<or> f = EfCancelSubscription) effs"
  by (induction sid armed evs stopped arbitrary: res effs rule: capture_select.induct)
    (fastforce simp: stop_once_def is_stop_def split: prod.splits if_splits option.splits bool.splits)+

definition begun :: "string \<Rightarrow> capture_spec \<Rightarrow> bool \<Rightarrow> cli_effect list" where
  "begun sid hubSpec hasTls =
     [EfCreateSession hubSpec, EfWatchEvents sid, EfSubscribe sid (subscribe_kinds hasTls),
      EfWaitSubscriber sid]"

definition hub_spec :: "spec \<Rightarrow> capture_spec" where
  "hub_spec sp = (to_proto sp)\<lparr>cs_duration := None\<rparr>"

lemma run_session_cases:
  assumes "run_session E opts sp hasTls evs defers = (res, effs)"
  obtains
    (refused) e where "res = Some (Some e)" "plain_error e"
      "\<And>s. en_create_session E (hub_spec sp) = Inr s \<Longrightarrow> sn_state s = Session_Failed"
      "effs = EfCreateSession (hub_spec sp) # defers"
  | (unwatched) s e where "en_create_session E (hub_spec sp) = Inr s"
      "en_wait_subscriber E (sn_id s) = Some e" "res = Some (Some (WaitSubscriberError e))"
      "effs = begun (sn_id s) (hub_spec sp) hasTls @ [EfCancelSubscription, EfCancelSubscription] @ defers"
  | (ran) s sel where "en_create_session E (hub_spec sp) = Inr s" "sn_state s \<noteq> Session_Failed"
      "en_wait_subscriber E (sn_id s) = None"
      "capture_select (sn_id s) (0 < sp_duration sp) evs False = (res, sel)"
      "effs = begun (sn_id s) (hub_spec sp) hasTls
         @ (if co_on_session_ready opts then [EfSessionReady] else [])
         @ (if 0 < sp_duration sp then [EfArmTimer (sp_duration sp)] else [])
         @ sel @ (if res = None then [] else EfCancelSubscription # defers)"
proof (cases "en_create_session E (hub_spec sp)")
  case (Inl e)
  then show ?thesis
    using assms refused [of "CreateSessionError e"] by (simp add: run_session_def hub_spec_def)
next
  case (Inr s)
  consider "sn_state s = Session_Failed"
    | e where "sn_state s \<noteq> Session_Failed" "en_wait_subscriber E (sn_id s) = Some e"
    | "sn_state s \<noteq> Session_Failed" "en_wait_subscriber E (sn_id s) = None" by blast
  then show ?thesis
  proof cases
    case 1
    then show ?thesis
      using assms Inr refused [of "SessionFailedError (sn_failure s)"]
      by (simp add: run_session_def hub_spec_def Let_def)
  next
    case (2 e)
    then show ?thesis
      using assms Inr unwatched [of s e] by (simp add: run_session_def hub_spec_def begun_def Let_def)
  next
    case 3
    obtain res' sel where "capture_select (sn_id s) (0 < sp_duration sp) evs False = (res', sel)"
      by (cases "capture_select (sn_id s) (0 < sp_duration sp) evs False")
    then show ?thesis
      using assms Inr 3 ran [of s sel] by (auto simp: run_session_def hub_spec_def begun_def Let_def)
  qed
qed

lemma begun_stops [simp]: "stops (begun i c t) = 0"
  by (simp add: begun_def is_stop_def)

fun down_effect :: "cli_effect \<Rightarrow> bool" where
  "down_effect EfGracefulStop = True"
| "down_effect EfStopAll = True"
| "down_effect EfCloseListener = True"
| "down_effect _ = False"

lemma not_down [simp]:
  "setup_effect f \<Longrightarrow> \<not> down_effect f" "close_effect f \<Longrightarrow> \<not> down_effect f"
  "is_stop f \<Longrightarrow> \<not> down_effect f"
  by (cases f; simp add: is_stop_def)+

lemma not_down_lists [simp]:
  "list_all setup_effect fs \<Longrightarrow> \<not> list_ex down_effect fs"
  "list_all close_effect fs \<Longrightarrow> \<not> list_ex down_effect fs"
  "\<not> list_ex down_effect (begun i c t)"
  by (auto simp: list_all_iff list_ex_iff begun_def)

lemma capture_select_not_down:
  "capture_select sid armed evs stopped = (res, effs) \<Longrightarrow> \<not> list_ex down_effect effs"
  using capture_select_stops [of sid armed evs stopped res effs]
  by (auto simp: list_all_iff list_ex_iff)

text \<open>
  C27. Everything the command line started is taken down on every path: once the hub serves, a
  run that returns, with or without an error, ends by stopping the server gracefully, stopping
  all sessions and closing the listener, in this order, and does none of it before.
\<close>

theorem returned_run_tears_down:
  assumes "run_capture E opts evs = (Some r, effs)" "EfServe \<in> set effs"
  shows "\<exists>pre. effs = pre @ [EfGracefulStop, EfStopAll, EfCloseListener] \<and> \<not> list_ex down_effect pre"
  using assms(1)
proof (cases rule: run_capture_cases)
  case (failed pre cs e)
  then show ?thesis by (intro exI [of _ "pre @ cs"]) (simp add: teardown_def)
next
  case (session pre cs sp hasTls effs')
  from session(5) show ?thesis
  proof (cases rule: run_session_cases)
    case (refused e)
    then show ?thesis using session
      by (intro exI [of _ "pre @ EfCreateSession (hub_spec sp) # cs"]) (simp add: teardown_def)
  next
    case (unwatched s e)
    then show ?thesis using session
      by (intro exI [of _ "pre @ begun (sn_id s) (hub_spec sp) hasTls @
            [EfCancelSubscription, EfCancelSubscription] @ cs"]) (simp add: teardown_def)
  next
    case (ran s sel)
    then show ?thesis using session capture_select_not_down [OF ran(4)]
      by (intro exI [of _ "pre @ begun (sn_id s) (hub_spec sp) hasTls
            @ (if co_on_session_ready opts then [EfSessionReady] else [])
            @ (if 0 < sp_duration sp then [EfArmTimer (sp_duration sp)] else [])
            @ sel @ EfCancelSubscription # cs"]) (simp add: teardown_def)
  qed
qed (use assms(2) in simp)


lemma not_in_setup [simp]:
  "list_all setup_effect fs \<Longrightarrow> EfSessionReady \<notin> set fs"
  "list_all setup_effect fs \<Longrightarrow> EfCreateSession c \<notin> set fs"
  "list_all close_effect fs \<Longrightarrow> EfSessionReady \<notin> set fs"
  "list_all close_effect fs \<Longrightarrow> EfCreateSession c \<notin> set fs"
  by (auto simp: list_all_iff)

lemma not_in_select:
  assumes "capture_select sid armed evs stopped = (res, effs)"
  shows "EfSessionReady \<notin> set effs \<and> EfCreateSession c \<notin> set effs"
  using capture_select_stops [OF assms] by (auto simp: list_all_iff is_stop_def)

text \<open>
  \<open>OnSessionReady\<close> is not called too early: when it runs, the session has been created, the
  packet subscription was opened and the hub confirmed a packet subscriber, so the assignments
  are not withheld; and the duration timer has not been started and the session not stopped yet.
\<close>

theorem ready_after_subscriber:
  assumes "run_capture E opts evs = (res, effs)" "EfSessionReady \<in> set effs"
  shows "\<exists>pre post s hasTls. effs = pre @ EfSessionReady # post \<and>
    en_create_session E (hub_spec (spec_with_defaults (co_spec opts))) = Inr s \<and>
    en_wait_subscriber E (sn_id s) = None \<and>
    EfSubscribe (sn_id s) (subscribe_kinds hasTls) \<in> set pre \<and>
    EfWaitSubscriber (sn_id s) \<in> set pre \<and> stops pre = 0 \<and>
    EfArmTimer (sp_duration (spec_with_defaults (co_spec opts))) \<notin> set pre"
  using assms(1)
proof (cases rule: run_capture_cases)
  case (refused e)
  then show ?thesis using assms(2) by (auto simp: list_all_iff)
next
  case (failed pre cs e)
  then show ?thesis using assms(2) by (simp add: teardown_def)
next
  case (session pre cs sp hasTls effs')
  from session(5) show ?thesis
  proof (cases rule: run_session_cases)
    case (ran s sel)
    have "co_on_session_ready opts"
      using assms(2) session(3,4,6) ran(5) not_in_select [OF ran(4)]
      by (auto simp: begun_def teardown_def split: if_splits)
    moreover have "EfArmTimer d \<notin> set pre" for d
      using session(3) by (auto simp: list_all_iff)
    ultimately show ?thesis
      using session(1,3,6) ran(1,3,5)
      by (intro exI [of _ "pre @ begun (sn_id s) (hub_spec sp) hasTls"]
            exI [of _ "(if 0 < sp_duration sp then [EfArmTimer (sp_duration sp)] else [])
              @ sel @ (if res = None then [] else EfCancelSubscription # cs @ teardown)"]
            exI [of _ s] exI [of _ hasTls])
        (simp add: begun_def is_stop_def)
  qed (use assms(2) session(3,4,6) in \<open>simp_all add: teardown_def begun_def\<close>)
qed

text \<open>
  C26. The session is stopped once: a run that got its packet subscriber and returned has asked
  the hub to stop the session exactly once, whatever the timer, signals and the end of the
  packet stream do and in whatever order they come; a run that is still capturing has asked at
  most once.
\<close>

theorem session_stopped_once:
  assumes "run_capture E opts evs = (res, effs)" "EfCreateSession c \<in> set effs"
    and "en_create_session E c = Inr s" "sn_state s \<noteq> Session_Failed"
    and "en_wait_subscriber E (sn_id s) = None"
  shows "stops effs \<le> 1 \<and> (res = None \<or> stops effs = 1)"
  using assms(1)
proof (cases rule: run_capture_cases)
  case (refused e)
  then show ?thesis using assms(2) by (auto simp: list_all_iff)
next
  case (failed pre cs e)
  then show ?thesis using assms(2) by (simp add: teardown_def)
next
  case (session pre cs sp hasTls effs')
  from session(5) show ?thesis
  proof (cases rule: run_session_cases)
    case (refused e)
    then have "c = hub_spec sp" using assms(2) session(3,4,6) by (auto simp: teardown_def)
    then show ?thesis using refused(3) assms(3,4) by simp
  next
    case (unwatched s' e)
    then have "c = hub_spec sp" using assms(2) session(3,4,6) by (auto simp: teardown_def begun_def)
    then show ?thesis using unwatched(1,2) assms(3,5) by simp
  next
    case (ran s' sel)
    then show ?thesis
      using session(3,4,6) capture_select_stops [OF ran(4)] by (auto simp: is_stop_def)
  qed
qed


text \<open>
  A run that gave up waiting for its packet subscriber never asks the hub to stop the
  session it created: the graceful stop of the server, which waits for the streams of the
  agents, comes before the session is stopped with all others.
\<close>

theorem unwatched_session_not_stopped:
  assumes "run_capture E opts evs = (Some (Some (WaitSubscriberError e)), effs)"
  shows "stops effs = 0 \<and>
    (\<exists>pre c. effs = pre @ [EfGracefulStop, EfStopAll, EfCloseListener] \<and> EfCreateSession c \<in> set pre)"
  using assms
proof (cases rule: run_capture_cases)
  case (session pre cs sp hasTls effs')
  have wait: "capture_select sid armed evs stopped \<noteq> (Some (Some (WaitSubscriberError e)), sel)"
    for sid armed stopped sel
    by (induction sid armed evs stopped arbitrary: sel rule: capture_select.induct)
      (auto split: prod.splits option.splits bool.splits)
  from session(5) show ?thesis
  proof (cases rule: run_session_cases)
    case (unwatched s er)
    then show ?thesis using session
      by (auto simp: is_stop_def teardown_def begun_def)
  qed (use wait in auto)
qed auto

text \<open>A request the hub's own defaulting and validation let pass, with no duration.\<close>

definition accepted_request :: "'re ext_lib \<Rightarrow> cli_effect \<Rightarrow> bool" where
  "accepted_request L f =
     (case f of
        EfCreateSession c \<Rightarrow>
          cs_duration c = None \<and> spec_validate L (spec_with_defaults (spec_from_proto (Some c))) = []
      | _ \<Rightarrow> True)"

definition hub_refused :: "cli_error option option \<Rightarrow> bool" where
  "hub_refused res = (case res of Some (Some (HubError h)) \<Rightarrow> True | _ \<Rightarrow> False)"

lemma accepted_others:
  "setup_effect f \<or> close_effect f \<or> down_effect f \<or> is_stop f \<or> f = EfCancelSubscription
     \<Longrightarrow> accepted_request L f"
  by (cases f) (auto simp: accepted_request_def is_stop_def)

lemma accepted_plain [simp]:
  "accepted_request L EfCancelSubscription" "accepted_request L EfSessionReady"
  "accepted_request L (EfArmTimer d)" "accepted_request L (EfWatchEvents i)"
  "accepted_request L (EfSubscribe i k)" "accepted_request L (EfWaitSubscriber i)"
  by (simp_all add: accepted_request_def)

lemma plain_not_refused: "plain_error e \<Longrightarrow> \<not> hub_refused (Some (Some e))"
  by (cases e) (auto simp: hub_refused_def)

lemma accepted_hub_spec:
  assumes "spec_validate L sp = []" "sp = spec_with_defaults s"
  shows "accepted_request L (EfCreateSession (hub_spec sp))"
proof -
  have "spec_validate L (sp\<lparr>sp_duration := 0\<rparr>) = []"
    using assms(1) by (simp add: spec_validate_def split: if_splits)
  moreover have "spec_with_defaults (spec_from_proto (Some (hub_spec sp))) = sp\<lparr>sp_duration := 0\<rparr>"
    using assms(2)
    by (cases s) (simp add: hub_spec_def to_proto_def spec_with_defaults_def Let_def DefaultSnaplen_def
        DefaultTLSMode_def tls_mode_defs)
  ultimately show ?thesis by (simp add: accepted_request_def hub_spec_def)
qed

lemma capture_select_not_refused:
  "capture_select sid armed evs stopped = (res, sel) \<Longrightarrow> \<not> hub_refused res"
  by (induction sid armed evs stopped arbitrary: sel rule: capture_select.induct)
    (auto simp: hub_refused_def split: prod.splits option.splits bool.splits if_splits)

text \<open>
  C9. The hub accepts what the command line accepted: the specification of the
  \<open>CreateSession\<close> request carries no duration (the command line owns the hard stop) and passes
  the hub's own defaulting and validation, and the hub never refuses the agent configuration, so
  the error of \<open>hub.New\<close> does not occur.
\<close>

theorem hub_accepts_what_cli_accepted:
  "list_all (accepted_request (en_lib E)) (snd (run_capture E opts evs)) \<and>
   \<not> hub_refused (fst (run_capture E opts evs))"
proof -
  let ?ok = "accepted_request (en_lib E)"
  obtain res effs where run: "run_capture E opts evs = (res, effs)"
    by (cases "run_capture E opts evs")
  have lists: "list_all ?ok fs"
    if "list_all (\<lambda>f. setup_effect f \<or> close_effect f \<or> down_effect f \<or> is_stop f \<or> f = EfCancelSubscription) fs"
    for fs using that accepted_others by (auto simp: list_all_iff)
  from run have "list_all ?ok effs \<and> \<not> hub_refused res"
  proof (cases rule: run_capture_cases)
    case (refused e)
    then show ?thesis by (auto intro!: accepted_others simp: list_all_iff plain_not_refused)
  next
    case (failed pre cs e)
    then show ?thesis by (auto intro!: accepted_others simp: list_all_iff teardown_def plain_not_refused)
  next
    case (session pre cs sp hasTls effs')
    have hub: "?ok (EfCreateSession (hub_spec sp))"
      by (rule accepted_hub_spec [OF session(2,1)])
    have ends: "list_all ?ok (cs @ teardown)" "list_all ?ok pre"
      using session(3,4) by (auto intro!: accepted_others simp: list_all_iff teardown_def)
    have start: "list_all ?ok (begun sid (hub_spec sp) hasTls)" for sid
      using hub by (simp add: begun_def)
    from session(5) show ?thesis
    proof (cases rule: run_session_cases)
      case (refused e)
      then show ?thesis using session(6) hub ends by (simp add: plain_not_refused)
    next
      case (unwatched s e)
      then show ?thesis using session(6) start ends by (simp add: hub_refused_def)
    next
      case (ran s sel)
      have "list_all ?ok sel"
        using capture_select_stops [OF ran(4)] by (intro lists) (auto simp: list_all_iff)
      then show ?thesis
        using session(6) ran(5) start ends capture_select_not_refused [OF ran(4)] by simp
    qed
  qed
  then show ?thesis using run by simp
qed

section \<open>The output files\<close>

lemma subscribe_loop_sinks:
  "subscribe_loop D L ctx (map (\<lambda>(wr, r). (wr, Received r)) rs @ [(w, RecvEOF)]) p (Some j) = (Some None, p', Some j') \<Longrightarrow>
     write_records D L (map snd rs) p = (p', None) \<and> write_tls_records rs j = (j', None)"
  by (induction rs arbitrary: p j) (auto split: prod.splits option.splits)

text \<open>
  When the hub ends the packet stream after some records and \<open>subscribePackets\<close> returns
  without an error, both files are complete: the PCAPng file holds every wire frame with a
  payload that was received, and the JSONL file one line for every TLS event, in the order of the
  stream.
\<close>

theorem sinks_complete_at_end_of_stream:
  assumes "ng_documented L view" "use_pcapng path"
    and "open_pcap S path = Inr p" "open_jsonl S tlsPath = Inr j"
    and "subscribe_loop D L ctxDone (map (\<lambda>(wr, r). (wr, Received r)) rs @ [(w, RecvEOF)]) p (Some j)
           = (Some None, p', Some j')"
  shows "(case pw_ng p' of
        None \<Rightarrow> written_frames (map snd rs) = []
      | Some g \<Rightarrow> view g = ng_contents D (written_frames (map snd rs))) \<and>
    jw_bytes j' = concat (map (\<lambda>e. encode_line (event_line e) @ [CHR 0x0A]) (written_events rs))"
proof -
  have w: "write_records D L (map snd rs) p = (p', None)" "write_tls_records rs j = (j', None)"
    using subscribe_loop_sinks [OF assms(5)] by simp_all
  have "jw_bytes j = []"
    using assms(4) by (auto simp: open_jsonl_def split: if_splits option.splits)
  then show ?thesis
    using write_records_state [OF assms(1) ng_state_open [OF assms(3,2)] w(1)]
      write_tls_records_file [OF w(2)]
    by (auto simp: ng_state_def split: option.splits)
qed

text \<open>
  The subscription asks for exactly what the sinks write: without a JSONL file the hub
  filters out everything but wire frames, and with one it sends every record.
\<close>

theorem subscription_matches_sinks:
  "record_matches_filter r (subscribe_kinds hasTls) \<longleftrightarrow> hasTls \<or> get_wire_frame r \<noteq> None"
  by (simp add: subscribe_kinds_def)


section \<open>Examples\<close>

definition demo_cli_session :: session_proto where
  "demo_cli_session = \<lparr>sn_id = ''s1'', sn_spec = to_proto zero_spec, sn_state = Session_Running,
     sn_failure = None, sn_created_at = None, sn_stopped_at = None, sn_nodes = [''n1'']\<rparr>"

definition demo_env :: "string option \<Rightarrow> string cli_env" where
  "demo_env wait =
     \<lparr>en_lib = demo_lib, en_image_ref = ''img@sha256:ab'', en_kube = (\<lambda>_. None),
      en_listen = (\<lambda>_. Inr (TcpAddr 30551)), en_ingest_host = [], en_udp = UdpDialFailed,
      en_dial = None, en_os = demo_sink_os, en_create_session = (\<lambda>_. Inr demo_cli_session),
      en_wait_subscriber = (\<lambda>_. wait)\<rparr>"

definition demo_options :: capture_options where
  "demo_options =
     \<lparr>co_spec = demo_spec, co_sink = \<lparr>sk_out = ''o/c.pcapng'', sk_tls_out = [], sk_keylog_file = []\<rparr>,
      co_agent = demo_agent_config,
      co_kube = \<lparr>kc_kubeconfig = [], kc_context = [], kc_namespace = ''prod'', kc_user_agent = []\<rparr>,
      co_hub_listen = [], co_hub_ingest = ''10.0.0.1:30551'', co_on_session_ready = True\<rparr>"

abbreviation demo_hub_spec :: capture_spec where
  "demo_hub_spec \<equiv> hub_spec (spec_with_defaults demo_spec)"

lemma demo_setup:
  "sink_with_defaults (co_sink demo_options) = co_sink demo_options"
  "sink_validate (co_sink demo_options) = []"
  "(agent_config_with_defaults ref (co_agent demo_options))\<lparr>ac_hub_ingest_addr := ''10.0.0.1:30551''\<rparr>
     = demo_agent_config"
  by (simp_all add: demo_options_def sink_with_defaults_def sink_validate_def StdoutSink_def
      agent_config_with_defaults_def demo_agent_config_def)

lemma demo_run_sinks:
  "run_capture (demo_env wait) demo_options evs =
     (case run_sinks (demo_env wait) demo_options (spec_with_defaults demo_spec) (co_sink demo_options)
             evs (EfCloseConn # teardown) of
        (res, effs) \<Rightarrow> (res, [EfListen ''0.0.0.0:0'', EfServe, EfDial] @ effs))"
proof -
  obtain h where h: "new_hub demo_lib ''img@sha256:ab'' True demo_agent_config 0 = Inr h"
    using new_hub_accepts [OF demo_agent_config_valid] by blast
  show ?thesis
    unfolding run_capture_def demo_setup(1) teardown_def
    using demo_spec_valid demo_agent_config_valid h demo_setup(2,3)
    by (simp add: Let_def demo_env_def demo_options_def)
qed

lemma demo_cli_run:
  "run_capture (demo_env wait) demo_options evs =
     (case run_session (demo_env wait) demo_options (spec_with_defaults demo_spec) False evs
             ([EfClosePcap, EfCloseConn] @ teardown) of
        (res, effs) \<Rightarrow> (res, [EfListen ''0.0.0.0:0'', EfServe, EfDial, EfOpenPcap ''o/c.pcapng''] @ effs))"
  unfolding demo_run_sinks run_sinks_def
  by (simp add: open_pcap_def pcap_open_file_def demo_env_def demo_options_def demo_sink_os_def StdoutSink_def
      demo_spec_def spec_with_defaults_def DefaultTLSMode_def tls_mode_defs Let_def DefaultSnaplen_def
      split: prod.splits)


lemma demo_effects:
  "run_capture (demo_env None) demo_options [TimerFires, PacketsReturn None] =
     (Some None, [EfListen ''0.0.0.0:0'', EfServe, EfDial, EfOpenPcap ''o/c.pcapng''] @
       begun ''s1'' demo_hub_spec False @ [EfSessionReady, EfArmTimer 5, EfStopSession ''s1'' ''duration'',
         EfCancelSubscription, EfCancelSubscription, EfClosePcap, EfCloseConn] @ teardown)"
  "run_capture (demo_env (Some ''timeout'')) demo_options [] =
     (Some (Some (WaitSubscriberError ''timeout'')),
      [EfListen ''0.0.0.0:0'', EfServe, EfDial, EfOpenPcap ''o/c.pcapng''] @
       begun ''s1'' demo_hub_spec False @ [EfCancelSubscription, EfCancelSubscription, EfClosePcap,
         EfCloseConn] @ teardown)"
  unfolding demo_cli_run
  by (simp_all add: run_session_def demo_env_def demo_cli_session_def begun_def hub_spec_def
      demo_options_def stop_once_def demo_spec_def spec_with_defaults_def Let_def)

theorem returned_run_tears_down_witness:
  "\<exists>pre. snd (run_capture (demo_env None) demo_options [TimerFires, PacketsReturn None]) =
     pre @ [EfGracefulStop, EfStopAll, EfCloseListener] \<and> \<not> list_ex down_effect pre"
proof -
  let ?run = "run_capture (demo_env None) demo_options [TimerFires, PacketsReturn None]"
  obtain effs where e: "?run = (Some None, effs)" "EfServe \<in> set effs"
    by (simp add: demo_effects)
  from returned_run_tears_down [OF e] show ?thesis by (simp only: e snd_conv)
qed

theorem ready_after_subscriber_witness:
  "\<exists>pre post. snd (run_capture (demo_env None) demo_options [TimerFires, PacketsReturn None]) =
     pre @ EfSessionReady # post \<and> EfWaitSubscriber ''s1'' \<in> set pre \<and> stops pre = 0"
proof -
  let ?run = "run_capture (demo_env None) demo_options [TimerFires, PacketsReturn None]"
  obtain res effs where e: "?run = (res, effs)" "EfSessionReady \<in> set effs"
    by (simp add: demo_effects)
  have "en_create_session (demo_env None) c = Inr s \<Longrightarrow> sn_id s = ''s1''" for c s
    by (auto simp: demo_env_def demo_cli_session_def)
  with ready_after_subscriber [OF e] show ?thesis by (simp only: e snd_conv) fastforce
qed

theorem session_stopped_once_witness:
  "stops (snd (run_capture (demo_env None) demo_options [TimerFires, PacketsReturn None])) = 1"
proof -
  let ?run = "run_capture (demo_env None) demo_options [TimerFires, PacketsReturn None]"
  obtain effs where e: "?run = (Some None, effs)" "EfCreateSession demo_hub_spec \<in> set effs"
    by (simp add: demo_effects begun_def)
  have "en_create_session (demo_env None) demo_hub_spec = Inr demo_cli_session"
    "sn_state demo_cli_session \<noteq> Session_Failed"
    "en_wait_subscriber (demo_env None) (sn_id demo_cli_session) = None"
    by (simp_all add: demo_env_def demo_cli_session_def)
  from session_stopped_once [OF e this] show ?thesis by (simp only: e snd_conv) simp
qed

theorem unwatched_session_not_stopped_witness:
  "stops (snd (run_capture (demo_env (Some ''timeout'')) demo_options [])) = 0"
  using unwatched_session_not_stopped [OF demo_effects(2)] by (simp only: demo_effects(2) snd_conv)

theorem sinks_complete_at_end_of_stream_witness:
  "\<exists>p j. subscribe_loop demo_dlt demo_pcapgo False
       (map (\<lambda>(wr, r). (wr, Received r)) [(WroteAll, demo_plain ''hi'')] @ [(WroteAll, RecvEOF)])
       (demo_writer ''o/c.pcapng'') (Some demo_plain_writer) = (Some None, p, Some j) \<and>
     pw_ng p = None \<and> jw_bytes j \<noteq> []"
proof -
  let ?recvs = "map (\<lambda>(wr, r). (wr, Received r)) [(WroteAll, demo_plain ''hi'')] @ [(WroteAll, RecvEOF)]"
  obtain p j where r: "subscribe_loop demo_dlt demo_pcapgo False ?recvs (demo_writer ''o/c.pcapng'')
      (Some demo_plain_writer) = (Some None, p, Some j)" and p: "p = demo_writer ''o/c.pcapng''"
    by (simp add: demo_plain_def demo_plain_writer_def write_record_def write_tls_record_def
        write_event_def json_encode_def)
  have o: "open_jsonl demo_sink_os ''t.jsonl'' = Inr demo_plain_writer" by code_simp
  from sinks_complete_at_end_of_stream
    [OF demo_ng_documented demo_extension(1) demo_open(1) o r]
  have "jw_bytes j \<noteq> []" by (simp add: demo_plain_def)
  then show ?thesis using r p by (simp add: demo_writer_def)
qed

end
