(* ===== verification/End_To_End.thy ===== *)
theory End_To_End imports Agent_Hub Cli_Facts begin

text \<open>
  The path of a packet through all three processes: the batches an agent has sent
  (\<open>Agent_Run\<close>), the handler \<open>StreamCapture\<close> that takes them in, the handler \<open>SubscribePackets\<close>
  that sends its subscriber what is published, and the loop of the command line that writes the
  files.  The two handlers run in goroutines of the hub; \<open>relay_step\<close> interleaves them, one
  received batch, one record, one record sent, or the end of the agent's stream at a time.  The
  session is left alone meanwhile: no target changes and nobody stops it.
\<close>

section \<open>What a subscriber has taken\<close>

definition pl_taken :: "'r packet_log \<Rightarrow> nat \<Rightarrow> 'r list" where
  "pl_taken l i = (case map_of (pl_store l) i of None \<Rightarrow> [] | Some s \<Rightarrow> pks_taken s)"

lemma pl_got_length: "length (pl_got l i) = length (pl_taken l i) + pl_len l i"
  by (simp add: pl_got_def pl_taken_def pl_len_def split: option.split)

lemma pl_taken_prefix: "pl_taken l i = take (length (pl_taken l i)) (pl_got l i)"
  by (simp add: pl_got_def pl_taken_def split: option.split)

lemma send_all_taken: "send_all r is l = Some l' \<Longrightarrow> pl_taken l' i = pl_taken l i"
proof (induction "is" arbitrary: l)
  case (Cons j "is")
  then obtain m where m: "send_to r j l = ChOk m" "send_all r is m = Some l'"
    by (auto split: chan_outcome.splits)
  with send_to_OkD [OF m(1)] Cons.IH [OF m(2)] show ?case by (auto simp: pl_taken_def)
qed simp

lemma publish_now_taken:
  assumes "publish_now r l = Some (Inr u, l')"
  shows "pl_taken l' i = pl_taken l i"
proof -
  from assms obtain l1 l2 where l: "publish_begin l = Some l1" "send_all r (pl_subs l1) l1 = Some l2"
    "finish_publish l2 = ChOk l'"
    by (auto simp: publish_now_def split: option.splits chan_outcome.splits wait_verdict.splits)
  with publish_begin_SomeD [OF l(1)] finish_publish_OkD [OF l(3)] send_all_taken [OF l(2), of i]
  show ?thesis by (simp add: pl_taken_def same_subs_def)
qed

text \<open>The log of a session with one subscriber: what it has got, what it has taken.\<close>

definition one_subscriber :: "nat \<Rightarrow> 'r list \<Rightarrow> 'r list \<Rightarrow> 'r packet_log \<Rightarrow> bool" where
  "one_subscriber i got taken l \<longleftrightarrow>
     pl_room 0 l \<and> pl_subs l = [i] \<and> pl_got l i = got \<and> pl_taken l i = taken"

lemma one_subscriber_publish:
  assumes "one_subscriber i got taken l" "publish_now r l = Some (res, l')"
  shows "res = Inr () \<and> one_subscriber i (got @ [r]) taken l'"
proof -
  from assms(1) have l: "pl_room 0 l" "pl_subs l = [i]" "pl_got l i = got" "pl_taken l i = taken"
    by (simp_all add: one_subscriber_def)
  then have "wait_for_subscriber l = WaitReady" "publish_begin l \<noteq> None"
    by (simp_all add: pl_room_def wait_for_subscriber_def publish_begin_def Let_def)
  with assms(2) have res: "res = Inr ()"
    by (auto simp: publish_now_def split: option.splits chan_outcome.splits)
  have ok: "pl_ok l" using l(1) by (simp add: pl_room_def)
  note E = publish_now_effect [OF assms(2) [unfolded res] ok] and T = publish_now_taken [OF assms(2) [unfolded res]]
  have got: "pl_got l' i = got @ [r]" using E l by simp
  have "pl_len l' i = Suc (pl_len l i)"
    using pl_got_length [of l i] pl_got_length [of l' i] got T [of i] l by simp
  moreover have "pl_len l' i \<le> packet_chan_cap"
    using E pl_ok_in_store [of l' i] pl_ok_sub [of l' i] l(2) by (fastforce simp: sub_ok_def pl_len_def)
  ultimately have "pl_room (Suc 0) l" using l by (simp add: pl_room_def)
  from publish_now_room [OF this, of r] assms(2) have "pl_room 0 l'" by simp
  with res E got T [of i] l show ?thesis by (simp add: one_subscriber_def)
qed

lemma one_subscriber_free:
  assumes "one_subscriber i got taken l" "length got = length taken"
  shows "publish_now r l \<noteq> None"
proof -
  have "pl_len l i = 0" using assms pl_got_length [of l i] by (simp add: one_subscriber_def)
  then have "pl_room (Suc 0) l" using assms(1) by (simp add: one_subscriber_def pl_room_def packet_chan_cap_def)
  from publish_now_room [OF this, of r] show ?thesis by auto
qed

lemma one_subscriber_take:
  assumes "one_subscriber i got taken l" "length taken < length got"
  shows "\<exists>l'. pl_receive i l = Some (got ! length taken, l') \<and>
    one_subscriber i got (taken @ [got ! length taken]) l'"
proof -
  from assms(1) have l: "pl_room 0 l" "pl_subs l = [i]" "pl_got l i = got" "pl_taken l i = taken" "pl_ok l"
    by (simp_all add: one_subscriber_def pl_room_def)
  obtain s where s: "map_of (pl_store l) i = Some s" using pl_ok_in_store [OF l(5), of i] l(2) by auto
  with l have got: "got = taken @ ch_buf (pks_ch s)" "taken = pks_taken s" by (auto simp: pl_got_def pl_taken_def)
  with assms(2) obtain r rest where b: "ch_buf (pks_ch s) = r # rest" by (cases "ch_buf (pks_ch s)") auto
  let ?s = "s\<lparr>pks_ch := (pks_ch s)\<lparr>ch_buf := rest\<rparr>, pks_taken := pks_taken s @ [r]\<rparr>"
  let ?l = "l\<lparr>pl_store := AList.update i ?s (pl_store l)\<rparr>"
  have "pl_ok ?l" by (rule pl_ok_update [OF l(5) s]) (use pl_ok_sub [OF l(5) s] b in \<open>auto simp: sub_ok_def\<close>)
  moreover have "pl_len ?l i \<le> packet_chan_cap"
    using pl_ok_sub [OF l(5) s] b by (simp add: pl_len_def sub_ok_def)
  ultimately have "one_subscriber i got (taken @ [r]) ?l"
    using l s got b by (auto simp: one_subscriber_def pl_room_def pl_got_def pl_taken_def)
  moreover have "got ! length taken = r" using got b by (simp add: nth_append)
  ultimately show ?thesis using s b by (simp add: pl_receive_def)
qed

section \<open>The relay\<close>

datatype relay_event = RyBatch | RyRecord | RyTake | RyEof

record relay =
  ry_hub :: hub
  ry_stream :: capture_stream
  ry_todo :: "capture_batch list"
  ry_sent :: "capture_record list"

definition relay_init :: "hub \<Rightarrow> capture_batch list \<Rightarrow> relay" where
  "relay_init h bs = \<lparr>ry_hub = h, ry_stream = new_capture_stream, ry_todo = bs, ry_sent = []\<rparr>"

text \<open>
  The agent \<open>pod\<close> streams under the assignment \<open>a\<close>, subscriber \<open>i\<close> asked for the kinds \<open>kinds\<close>.
  \<open>SubscribePackets\<close> takes a record only when there is one.
\<close>

fun relay_step ::
    "agent_assignment \<Rightarrow> string \<Rightarrow> record_kind list \<Rightarrow> nat \<Rightarrow> relay_event \<Rightarrow> relay \<Rightarrow> relay option" where
  "relay_step a pod kinds i RyBatch y =
     (case (cp_pc (ry_stream y), ry_todo y) of
        (CpRecv, b # bs) \<Rightarrow>
          (case capture_recv pod (as_stream_id a) b (ry_hub y) (ry_stream y) of
             (h, st) \<Rightarrow> Some (y\<lparr>ry_hub := h, ry_stream := st, ry_todo := bs\<rparr>))
      | _ \<Rightarrow> None)"
| "relay_step a pod kinds i RyRecord y =
     (case capture_record_step (ry_hub y) (ry_stream y) of
        None \<Rightarrow> None
      | Some (h, st) \<Rightarrow> Some (y\<lparr>ry_hub := h, ry_stream := st\<rparr>))"
| "relay_step a pod kinds i RyTake y =
     (case deref_session (as_session_id a) (ry_hub y) of
        None \<Rightarrow> None
      | Some s \<Rightarrow>
          if pl_receive i (ss_packets s) = None then None
          else (case subscribe_packets_rounds kinds i [SelectRecord] (ss_packets s) of
                  (out, res, l) \<Rightarrow>
                    Some (y\<lparr>ry_hub := store_session (s\<lparr>ss_packets := l\<rparr>) (ry_hub y), ry_sent := ry_sent y @ out\<rparr>)))"
| "relay_step a pod kinds i RyEof y =
     (case (cp_pc (ry_stream y), ry_todo y) of
        (CpRecv, []) \<Rightarrow>
          (case capture_eof (ry_hub y) (ry_stream y) of (h, st) \<Rightarrow> Some (y\<lparr>ry_hub := h, ry_stream := st\<rparr>))
      | _ \<Rightarrow> None)"

fun relay_run ::
    "agent_assignment \<Rightarrow> string \<Rightarrow> record_kind list \<Rightarrow> nat \<Rightarrow> relay_event list \<Rightarrow> relay \<Rightarrow> relay option" where
  "relay_run a pod kinds i [] y = Some y"
| "relay_run a pod kinds i (e # es) y =
     (case relay_step a pod kinds i e y of None \<Rightarrow> None | Some z \<Rightarrow> relay_run a pod kinds i es z)"

section \<open>Its invariant\<close>

text \<open>
  The session: it has the agent's stream registered, claimed or not, has committed the records
  \<open>past\<close> of it, and its one subscriber got those of assigned pods and has taken \<open>taken\<close>.
\<close>

definition session_serves ::
    "agent_assignment \<Rightarrow> string \<Rightarrow> nat \<Rightarrow> bool \<Rightarrow> capture_record list \<Rightarrow> capture_record list \<Rightarrow> session \<Rightarrow> bool" where
  "session_serves a pod i claimed past taken s \<longleftrightarrow>
     as_session_id a \<noteq> [] \<and> ss_id s = as_session_id a \<and> as_stream_id a \<noteq> [] \<and> pod \<noteq> [] \<and>
     ss_state s \<in> {Session_Starting, Session_Running, Session_Stopping} \<and>
     map_of (ss_assigns s) (as_node a) = Some a \<and>
     (\<exists>rec. map_of (ss_agents s) (as_node a) = Some rec \<and> ar_stream_id rec = as_stream_id a \<and>
        ar_pod_name rec = pod \<and> ar_ingest_active rec = claimed \<and>
        ar_last_sequence rec = of_nat (length (frames past))) \<and>
     one_subscriber i (published (Some a) past) taken (ss_packets s)"

definition stream_ids :: "agent_assignment \<Rightarrow> string \<times> string \<times> string" where
  "stream_ids a = (as_session_id a, as_node a, as_stream_id a)"

text \<open>The handler: the claim it holds and the records \<open>cur\<close> left of its batch.\<close>

definition stream_at ::
    "agent_assignment \<Rightarrow> bool \<Rightarrow> nat \<Rightarrow> capture_record list \<Rightarrow> capture_batch list \<Rightarrow> capture_stream \<Rightarrow> bool" where
  "stream_at a claimed n cur todo st \<longleftrightarrow>
     cp_claim st = (if claimed then Some (stream_ids a) else None) \<and> cp_accepted st = of_nat n \<and>
     (case cp_pc st of
        CpRecv \<Rightarrow> cur = []
      | CpRecords b asg rs \<Rightarrow> claimed \<and> asg = Some a \<and> rs = cur \<and> (cb_session_id b, cb_node b, cb_stream_id b) = stream_ids a
      | CpReturned res \<Rightarrow> res = Inr (of_nat n) \<and> cur = [] \<and> todo = [])"

definition relay_at ::
    "agent_assignment \<Rightarrow> string \<Rightarrow> record_kind list \<Rightarrow> nat \<Rightarrow> capture_record list
       \<Rightarrow> capture_record list \<Rightarrow> capture_record list \<Rightarrow> capture_record list \<Rightarrow> relay \<Rightarrow> bool" where
  "relay_at a pod kinds i all past cur taken y \<longleftrightarrow>
     all = past @ cur @ concat (map cb_records (ry_todo y)) \<and> list_all (batch_of a) (ry_todo y) \<and>
     ry_sent y = filter (\<lambda>r. record_matches_filter r kinds) taken \<and>
     (\<exists>s claimed. get_session (as_session_id a) (ry_hub y) = Some s \<and>
        session_serves a pod i claimed past taken s \<and>
        stream_at a claimed (length past) cur (ry_todo y) (ry_stream y))"

lemma get_session_store:
  "get_session sid h = Some s \<Longrightarrow> ss_id t = sid \<Longrightarrow> get_session sid (store_session t h) = Some t"
  by (auto simp: get_session_def store_session_def deref_session_def split: if_splits)

lemma serves_batch_ok:
  assumes "session_serves a pod i c past taken s" "batch_of a b"
    and "consecutive 0 (frames (past @ cb_records b @ rest))"
  shows "validate_capture_batch b s = None"
  using assms
  by (auto simp: validate_batch_None_iff session_serves_def batch_of_def frames_append consecutive_append)

lemma serves_claim:
  assumes "session_serves a pod i False past taken s"
  shows "\<exists>t. claim_capture_stream (as_node a) pod (as_stream_id a) s = Inr t \<and>
    session_serves a pod i True past taken t"
proof -
  from assms obtain rec where rec: "map_of (ss_agents s) (as_node a) = Some rec" "ar_stream_id rec = as_stream_id a"
    "ar_pod_name rec = pod" "\<not> ar_ingest_active rec" "pod \<noteq> []" "as_stream_id a \<noteq> []"
    by (auto simp: session_serves_def)
  let ?t = "s\<lparr>ss_agents := AList.update (as_node a) (rec\<lparr>ar_ingest_active := True\<rparr>) (ss_agents s)\<rparr>"
  have "claim_capture_stream (as_node a) pod (as_stream_id a) s = Inr ?t"
    using rec by (simp add: claim_capture_stream_def)
  moreover have "session_serves a pod i True past taken ?t" using assms rec by (auto simp: session_serves_def)
  ultimately show ?thesis by auto
qed

lemma serves_release:
  assumes "session_serves a pod i True past taken s"
  shows "session_serves a pod i False past taken (release_capture_stream (as_node a) (as_stream_id a) s)"
  using assms by (auto simp: session_serves_def release_capture_stream_def)

lemma serves_dropped:
  "session_serves a pod i c past taken s \<Longrightarrow> session_serves a pod i c past taken (capture_dropped b s)"
  by (auto simp: session_serves_def capture_dropped_def add_dropped_def Let_def)

text \<open>One record more: published when its pod is assigned, and committed.\<close>

lemma serves_record:
  assumes "session_serves a pod i c past taken s" "consecutive 0 (frames (past @ r # rest))"
    and "publish_or_skip (Some a) r s = Some (res, l)"
  shows "res = Inr () \<and> (\<exists>t. commit_capture_record (as_node a) (as_stream_id a) r k (s\<lparr>ss_packets := l\<rparr>) = Inr t \<and>
    session_serves a pod i c (past @ [r]) taken t)"
proof -
  from assms(1) obtain rec where rec: "map_of (ss_agents s) (as_node a) = Some rec" "ar_stream_id rec = as_stream_id a"
    "ar_pod_name rec = pod" "ar_ingest_active rec = c" "ar_last_sequence rec = of_nat (length (frames past))"
    by (auto simp: session_serves_def)
  have one: "one_subscriber i (published (Some a) past) taken (ss_packets s)"
    using assms(1) by (simp add: session_serves_def)
  have l: "res = Inr () \<and> one_subscriber i (published (Some a) (past @ [r])) taken l"
    using assms(3) one one_subscriber_publish [OF one, of r res l]
    by (auto simp: publish_or_skip_def published_def split: if_splits)
  let ?s = "s\<lparr>ss_packets := l\<rparr>"
  obtain t rec' where t: "commit_capture_record (as_node a) (as_stream_id a) r k ?s = Inr t"
    "map_of (ss_agents t) (as_node a) = Some rec'" "ar_stream_id rec' = as_stream_id a" "ar_pod_name rec' = pod"
    "ar_ingest_active rec' = c" "ar_last_sequence rec' = of_nat (length (frames (past @ [r])))"
  proof (cases "get_wire_frame r")
    case None
    then have "commit_capture_record (as_node a) (as_stream_id a) r k ?s = Inr ?s"
      by (simp add: commit_capture_record_def)
    then show thesis by (rule that) (use rec None in \<open>simp_all add: frames_append\<close>)
  next
    case (Some f)
    then have r: "r = WireFrame f" by (simp add: get_wire_frame_Some_iff)
    have seq: "pf_sequence f = ar_last_sequence rec + 1"
      using assms(2) Some rec(5) by (simp add: frames_append consecutive_append)
    from commit_frame [of ?s "as_node a" rec "as_stream_id a" f k] rec seq obtain t where
      "commit_capture_record (as_node a) (as_stream_id a) r k ?s = Inr t"
      "map_of (ss_agents t) (as_node a) = Some (rec\<lparr>ar_last_sequence := pf_sequence f\<rparr>)"
      unfolding r by auto
    then show thesis by (rule that) (use rec seq Some in \<open>simp_all add: frames_append\<close>)
  qed
  have "ss_state t = ss_state s" using t(1)
    by (auto simp: commit_capture_record_def Let_def split: option.splits if_splits)
  with t commit_keeps [OF t(1)] commit_packets [OF t(1)] assms(1) l
  have "session_serves a pod i c (past @ [r]) taken t" by (auto simp: session_serves_def)
  with t(1) l show ?thesis by blast
qed

section \<open>Its steps\<close>

text \<open>What is left to do, in steps.\<close>

definition stream_left :: "capture_stream \<Rightarrow> nat" where
  "stream_left st = (case cp_pc st of CpRecv \<Rightarrow> 1 | CpRecords b asg rs \<Rightarrow> 2 + 2 * length rs | CpReturned res \<Rightarrow> 0)"

definition relay_left ::
    "agent_assignment \<Rightarrow> capture_record list \<Rightarrow> capture_record list \<Rightarrow> relay \<Rightarrow> nat" where
  "relay_left a past taken y =
     stream_left (ry_stream y) + sum_list (map (\<lambda>b. 2 + 2 * length (cb_records b)) (ry_todo y)) +
     (length (published (Some a) past) - length taken)"

lemma published_append: "published a (xs @ ys) = published a xs @ published a ys"
  by (simp add: published_def)

lemma relay_batch_step:
  assumes "relay_at a pod kinds i all past cur taken y" "consecutive 0 (frames all)"
    and "cp_pc (ry_stream y) = CpRecv" "ry_todo y = b # bs"
  shows "\<exists>z. relay_step a pod kinds i RyBatch y = Some z \<and>
    relay_at a pod kinds i all past (cb_records b) taken z \<and> relay_left a past taken z < relay_left a past taken y"
proof -
  from assms obtain s c where y: "all = past @ cb_records b @ concat (map cb_records bs)" "list_all (batch_of a) bs"
    "batch_of a b" "ry_sent y = filter (\<lambda>r. record_matches_filter r kinds) taken"
    "get_session (as_session_id a) (ry_hub y) = Some s" "session_serves a pod i c past taken s"
    "cp_claim (ry_stream y) = (if c then Some (stream_ids a) else None)" "cp_accepted (ry_stream y) = of_nat (length past)"
    by (auto simp: relay_at_def stream_at_def)
  have ids: "cb_session_id b = as_session_id a" "cb_node b = as_node a" "cb_stream_id b = as_stream_id a"
    using y(3) by (simp_all add: batch_of_def)
  have ok: "validate_capture_batch b t = None \<and> assignment_for_node (as_node a) t = Some a \<and> ss_id t = as_session_id a"
    if "session_serves a pod i c' past taken t" for c' t
    using serves_batch_ok [OF that y(3)] assms(2) y(1) that
    by (auto simp: assignment_for_node_def session_serves_def)
  obtain h t where t: "capture_recv pod (as_stream_id a) b (ry_hub y) (ry_stream y) =
      (h, (ry_stream y)\<lparr>cp_claim := Some (stream_ids a), cp_pc := CpRecords b (Some a) (cb_records b)\<rparr>)"
    "get_session (as_session_id a) h = Some t" "session_serves a pod i True past taken t"
  proof (cases c)
    case True
    with y(5-8) ok [OF y(6)] ids show thesis
      by (intro that [of "ry_hub y" s]) (auto simp: capture_recv_def capture_begin_batch_def stream_ids_def)
  next
    case False
    with serves_claim [of a pod i past taken s] y(6) obtain t where
      t: "claim_capture_stream (as_node a) pod (as_stream_id a) s = Inr t" "session_serves a pod i True past taken t" by auto
    have "get_session (as_session_id a) (store_session t (ry_hub y)) = Some t"
      using y(5) ok [OF t(2)] by (intro get_session_store) auto
    with t y(5,7) ok [OF t(2)] ids False show thesis
      by (intro that [of "store_session t (ry_hub y)" t])
        (simp_all add: capture_recv_def capture_begin_batch_def stream_ids_def)
  qed
  show ?thesis
    using assms(3,4) y t ids
    by (auto simp: relay_at_def stream_at_def relay_left_def stream_left_def stream_ids_def)
qed

lemma relay_record_step:
  assumes "relay_at a pod kinds i all past (r # cur) taken y" "consecutive 0 (frames all)"
    and "relay_step a pod kinds i RyRecord y = Some z"
  shows "relay_at a pod kinds i all (past @ [r]) cur taken z \<and>
    relay_left a (past @ [r]) taken z < relay_left a past taken y"
proof -
  from assms(1) obtain s c where s: "all = past @ r # cur @ concat (map cb_records (ry_todo y))"
    "list_all (batch_of a) (ry_todo y)" "ry_sent y = filter (\<lambda>r. record_matches_filter r kinds) taken"
    "get_session (as_session_id a) (ry_hub y) = Some s" "session_serves a pod i c past taken s"
    "stream_at a c (length past) (r # cur) (ry_todo y) (ry_stream y)"
    unfolding relay_at_def by auto
  from s(6) obtain b where y: "cp_claim (ry_stream y) = Some (stream_ids a)" "c"
    "cp_accepted (ry_stream y) = of_nat (length past)" "cp_pc (ry_stream y) = CpRecords b (Some a) (r # cur)"
    "(cb_session_id b, cb_node b, cb_stream_id b) = stream_ids a"
    by (cases "cp_pc (ry_stream y)") (auto simp: stream_at_def)
  note y = s(1-4) s(5) [unfolded eqTrueI [OF y(2)]] y(1,3-5)
  have ids: "cb_session_id b = as_session_id a" "cb_node b = as_node a" "cb_stream_id b = as_stream_id a"
    using y(9) by (simp_all add: stream_ids_def)
  from assms(3) obtain h st where st: "capture_record_step (ry_hub y) (ry_stream y) = Some (h, st)"
    "z = y\<lparr>ry_hub := h, ry_stream := st\<rparr>" by (auto split: option.splits)
  from st(1) y(8) get_session_deref [OF y(4)] ids obtain res l where
    p: "publish_or_skip (Some a) r s = Some (res, l)"
    by (auto simp: capture_record_step_def split: option.splits)
  let ?k = "assigned_target (Some a) (capture_record_pod r) \<noteq> None"
  from serves_record [OF y(5) _ p, of "cur @ concat (map cb_records (ry_todo y))" ?k] assms(2) y(1) obtain t where
    t: "res = Inr ()" "commit_capture_record (as_node a) (as_stream_id a) r ?k (s\<lparr>ss_packets := l\<rparr>) = Inr t"
    "session_serves a pod i True (past @ [r]) taken t" by auto
  have h: "h = store_session t (ry_hub y)" "st = (ry_stream y)\<lparr>cp_accepted := cp_accepted (ry_stream y) + 1,
      cp_pc := CpRecords b (Some a) cur\<rparr>"
    using st(1) y(8) get_session_deref [OF y(4)] ids p t(1,2)
    by (auto simp: capture_record_step_def commit_record_def)
  have "get_session (as_session_id a) h = Some t"
    using y(4) t(3) unfolding h by (intro get_session_store) (auto simp: session_serves_def)
  with t(3) y(1-3,6,7,9) h(2) st(2) have "relay_at a pod kinds i all (past @ [r]) cur taken z"
    unfolding relay_at_def by (intro conjI exI [of _ t] exI [of _ True]) (simp_all add: stream_at_def)
  moreover have "length (published (Some a) [r]) \<le> 1" by (simp add: published_def)
  then have "relay_left a (past @ [r]) taken z < relay_left a past taken y"
    using y(8) h(2) st(2) by (simp add: relay_left_def stream_left_def published_append)
  ultimately show ?thesis ..
qed

lemma relay_end_batch_step:
  assumes "relay_at a pod kinds i all past cur taken y" "cp_pc (ry_stream y) = CpRecords b asg []"
  shows "\<exists>z. relay_step a pod kinds i RyRecord y = Some z \<and> relay_at a pod kinds i all past [] taken z \<and>
    relay_left a past taken z < relay_left a past taken y"
proof -
  from assms obtain s where y: "all = past @ concat (map cb_records (ry_todo y))"
    "list_all (batch_of a) (ry_todo y)" "ry_sent y = filter (\<lambda>r. record_matches_filter r kinds) taken"
    "get_session (as_session_id a) (ry_hub y) = Some s" "session_serves a pod i True past taken s"
    "cp_claim (ry_stream y) = Some (stream_ids a)" "cp_accepted (ry_stream y) = of_nat (length past)"
    "cb_session_id b = as_session_id a"
    by (auto simp: relay_at_def stream_at_def stream_ids_def)
  let ?t = "capture_dropped b s" and ?st = "(ry_stream y)\<lparr>cp_pc := CpRecv\<rparr>"
  have step: "relay_step a pod kinds i RyRecord y =
      Some (y\<lparr>ry_hub := store_session ?t (ry_hub y), ry_stream := ?st\<rparr>)"
    using assms(2) y(8) get_session_deref [OF y(4)] by (simp add: capture_record_step_def)
  have "get_session (as_session_id a) (store_session ?t (ry_hub y)) = Some ?t"
    using y(4,5) by (intro get_session_store) (auto simp: session_serves_def)
  with serves_dropped [OF y(5), of b] y(1-3,6,7)
  have "relay_at a pod kinds i all past [] taken (y\<lparr>ry_hub := store_session ?t (ry_hub y), ry_stream := ?st\<rparr>)"
    unfolding relay_at_def by (intro conjI exI [of _ ?t] exI [of _ True]) (simp_all add: stream_at_def)
  with step assms(2) show ?thesis by (simp add: relay_left_def stream_left_def)
qed

lemma relay_eof_step:
  assumes "relay_at a pod kinds i all past cur taken y" "cp_pc (ry_stream y) = CpRecv" "ry_todo y = []"
  shows "\<exists>z. relay_step a pod kinds i RyEof y = Some z \<and> relay_at a pod kinds i all past [] taken z \<and>
    relay_left a past taken z < relay_left a past taken y"
proof -
  from assms obtain s c where y: "all = past" "ry_sent y = filter (\<lambda>r. record_matches_filter r kinds) taken"
    "get_session (as_session_id a) (ry_hub y) = Some s" "session_serves a pod i c past taken s"
    "cp_claim (ry_stream y) = (if c then Some (stream_ids a) else None)" "cp_accepted (ry_stream y) = of_nat (length past)"
    by (auto simp: relay_at_def stream_at_def)
  let ?res = "Inr (of_nat (length past)) :: rpc_error + u64"
  obtain h t where h: "capture_eof (ry_hub y) (ry_stream y) =
      (h, (ry_stream y)\<lparr>cp_claim := None, cp_pc := CpReturned ?res\<rparr>)"
    "get_session (as_session_id a) h = Some t" "session_serves a pod i False past taken t"
  proof (cases c)
    case True
    let ?t = "release_capture_stream (as_node a) (as_stream_id a) s"
    have "get_session (as_session_id a) (store_session ?t (ry_hub y)) = Some ?t"
      using y(3,4) by (intro get_session_store) (auto simp: session_serves_def)
    moreover have "session_serves a pod i False past taken ?t"
      by (rule serves_release) (use y(4) True in simp)
    moreover have "capture_eof (ry_hub y) (ry_stream y) = (store_session ?t (ry_hub y),
        (ry_stream y)\<lparr>cp_claim := None, cp_pc := CpReturned ?res\<rparr>)"
      using y(5,6) True get_session_deref [OF y(3)] by (simp add: capture_eof_def capture_return_def stream_ids_def)
    ultimately show thesis using that by blast
  next
    case False
    then have "capture_eof (ry_hub y) (ry_stream y) =
        (ry_hub y, (ry_stream y)\<lparr>cp_claim := None, cp_pc := CpReturned ?res\<rparr>)"
      using y(5,6) by (simp add: capture_eof_def capture_return_def)
    with y(3,4) False that show thesis by simp
  qed
  let ?z = "y\<lparr>ry_hub := h, ry_stream := (ry_stream y)\<lparr>cp_claim := None, cp_pc := CpReturned ?res\<rparr>\<rparr>"
  have "relay_at a pod kinds i all past [] taken ?z"
    unfolding relay_at_def
    by (intro conjI exI [of _ t] exI [of _ False]) (use y(1,2,6) h(2,3) assms(3) in \<open>simp_all add: stream_at_def\<close>)
  with assms(2,3) h(1) show ?thesis by (simp add: relay_left_def stream_left_def)
qed

lemma relay_take_step:
  assumes "relay_at a pod kinds i all past cur taken y" "length taken < length (published (Some a) past)"
  shows "\<exists>z r. relay_step a pod kinds i RyTake y = Some z \<and> relay_at a pod kinds i all past cur (taken @ [r]) z \<and>
    relay_left a past (taken @ [r]) z < relay_left a past taken y"
proof -
  from assms(1) obtain s c where y: "all = past @ cur @ concat (map cb_records (ry_todo y))"
    "list_all (batch_of a) (ry_todo y)" "ry_sent y = filter (\<lambda>r. record_matches_filter r kinds) taken"
    "get_session (as_session_id a) (ry_hub y) = Some s" "session_serves a pod i c past taken s"
    "stream_at a c (length past) cur (ry_todo y) (ry_stream y)"
    by (auto simp: relay_at_def)
  have one: "one_subscriber i (published (Some a) past) taken (ss_packets s)" using y(5) by (simp add: session_serves_def)
  let ?r = "published (Some a) past ! length taken"
  from one_subscriber_take [OF one assms(2)] obtain l where
    l: "pl_receive i (ss_packets s) = Some (?r, l)" "one_subscriber i (published (Some a) past) (taken @ [?r]) l" by blast
  let ?t = "s\<lparr>ss_packets := l\<rparr>"
  let ?z = "y\<lparr>ry_hub := store_session ?t (ry_hub y),
    ry_sent := filter (\<lambda>r. record_matches_filter r kinds) (taken @ [?r])\<rparr>"
  have step: "relay_step a pod kinds i RyTake y = Some ?z"
    using get_session_deref [OF y(4)] l(1) y(3) by simp
  have "get_session (as_session_id a) (store_session ?t (ry_hub y)) = Some ?t"
    using y(4,5) by (intro get_session_store) (auto simp: session_serves_def)
  moreover have "session_serves a pod i c past (taken @ [?r]) ?t" using y(5) l(2) by (auto simp: session_serves_def)
  ultimately have "relay_at a pod kinds i all past cur (taken @ [?r]) ?z"
    unfolding relay_at_def by (intro conjI exI [of _ ?t] exI [of _ c]) (use y(1,2,6) in simp_all)
  with step assms(2) show ?thesis by (intro exI [of _ ?z] exI [of _ ?r]) (simp add: relay_left_def)
qed

lemma one_subscriber_received:
  assumes "one_subscriber i got taken l"
  shows "length taken \<le> length got \<and> (pl_receive i l = None \<longleftrightarrow> length taken = length got) \<and>
    taken = take (length taken) got"
proof -
  have l: "length got = length taken + pl_len l i" "taken = take (length taken) got" "pl_ok l" "pl_subs l = [i]"
    using assms pl_got_length [of l i] pl_taken_prefix [of l i] by (simp_all add: one_subscriber_def pl_room_def)
  obtain s where "map_of (pl_store l) i = Some s" using pl_ok_in_store [OF l(3), of i] l(4) by auto
  then have "pl_receive i l = None \<longleftrightarrow> pl_len l i = 0"
    by (auto simp: pl_receive_def pl_len_def split: list.splits)
  then show ?thesis using l(1,2) by auto
qed

lemma relay_at_session:
  assumes "relay_at a pod kinds i all past cur taken y"
  shows "\<exists>s. deref_session (as_session_id a) (ry_hub y) = Some s \<and>
    one_subscriber i (published (Some a) past) taken (ss_packets s)"
  using assms get_session_deref by (fastforce simp: relay_at_def session_serves_def)

lemma relay_at_records:
  assumes "relay_at a pod kinds i all past cur taken y" "cp_pc (ry_stream y) = CpRecords b asg rs"
  shows "asg = Some a \<and> rs = cur \<and> cb_session_id b = as_session_id a"
  using assms by (auto simp: relay_at_def stream_at_def stream_ids_def)

lemma relay_step_inv:
  assumes "relay_at a pod kinds i all past cur taken y" "consecutive 0 (frames all)"
    and "relay_step a pod kinds i e y = Some z"
  shows "\<exists>past' cur' taken'. relay_at a pod kinds i all past' cur' taken' z \<and>
    relay_left a past' taken' z < relay_left a past taken y"
proof (cases e)
  case RyBatch
  with assms(3) obtain b bs where "cp_pc (ry_stream y) = CpRecv" "ry_todo y = b # bs"
    by (auto split: capture_pc.splits list.splits)
  from relay_batch_step [OF assms(1,2) this] assms(3) RyBatch show ?thesis by auto
next
  case RyRecord
  with assms(3) obtain b asg rs where pc: "cp_pc (ry_stream y) = CpRecords b asg rs"
    by (auto simp: capture_record_step_def split: capture_pc.splits option.splits)
  show ?thesis
  proof (cases cur)
    case Nil
    with relay_at_records [OF assms(1) pc] pc relay_end_batch_step [OF assms(1)] assms(3) RyRecord
    show ?thesis by fastforce
  next
    case (Cons r rest)
    from relay_record_step [OF assms(1) [unfolded Cons] assms(2)] assms(3) RyRecord show ?thesis by blast
  qed
next
  case RyTake
  from relay_at_session [OF assms(1)] obtain s where
    s: "deref_session (as_session_id a) (ry_hub y) = Some s"
      "one_subscriber i (published (Some a) past) taken (ss_packets s)" by blast
  with assms(3) RyTake have "pl_receive i (ss_packets s) \<noteq> None" by (auto split: if_splits)
  with one_subscriber_received [OF s(2)] have "length taken < length (published (Some a) past)" by linarith
  from relay_take_step [OF assms(1) this] assms(3) RyTake show ?thesis by fastforce
next
  case RyEof
  with assms(3) have "cp_pc (ry_stream y) = CpRecv" "ry_todo y = []"
    by (auto split: capture_pc.splits list.splits)
  from relay_eof_step [OF assms(1) this] assms(3) RyEof show ?thesis by auto
qed

lemma relay_run_inv:
  "relay_run a pod kinds i es y = Some z \<Longrightarrow> relay_at a pod kinds i all past cur taken y \<Longrightarrow>
   consecutive 0 (frames all) \<Longrightarrow>
   \<exists>past' cur' taken'. relay_at a pod kinds i all past' cur' taken' z \<and>
     relay_left a past' taken' z + length es \<le> relay_left a past taken y"
proof (induction es arbitrary: y past cur taken)
  case (Cons e es)
  then obtain x where x: "relay_step a pod kinds i e y = Some x" "relay_run a pod kinds i es x = Some z"
    by (auto split: option.splits)
  from relay_step_inv [OF Cons.prems(2,3) x(1)] obtain past1 cur1 taken1 where
    "relay_at a pod kinds i all past1 cur1 taken1 x" "relay_left a past1 taken1 x < relay_left a past taken y" by blast
  with Cons.IH [OF x(2) _ Cons.prems(3)] show ?case by fastforce
qed auto

text \<open>The handler has returned and nothing waits in the channel of the subscriber.\<close>

definition relay_finished :: "agent_assignment \<Rightarrow> nat \<Rightarrow> relay \<Rightarrow> bool" where
  "relay_finished a i y \<longleftrightarrow>
     (case cp_pc (ry_stream y) of CpReturned res \<Rightarrow> True | _ \<Rightarrow> False) \<and>
     (case deref_session (as_session_id a) (ry_hub y) of
        None \<Rightarrow> True | Some s \<Rightarrow> pl_receive i (ss_packets s) = None)"

lemma relay_progress:
  assumes "relay_at a pod kinds i all past cur taken y" "consecutive 0 (frames all)" "\<not> relay_finished a i y"
  shows "\<exists>e. relay_step a pod kinds i e y \<noteq> None"
proof -
  from relay_at_session [OF assms(1)] obtain s where
    s: "deref_session (as_session_id a) (ry_hub y) = Some s"
      "one_subscriber i (published (Some a) past) taken (ss_packets s)" by blast
  show ?thesis
  proof (cases "length taken < length (published (Some a) past)")
    case True
    from relay_take_step [OF assms(1) this] show ?thesis by blast
  next
    case False
    with one_subscriber_received [OF s(2)] have full: "pl_receive i (ss_packets s) = None"
      "length (published (Some a) past) = length taken" by auto
    show ?thesis
    proof (cases "cp_pc (ry_stream y)")
      case CpRecv
      then show ?thesis
        using relay_batch_step [OF assms(1,2)] relay_eof_step [OF assms(1)]
        by (cases "ry_todo y") (blast, blast)
    next
      case (CpRecords b asg rs)
      note r = relay_at_records [OF assms(1) CpRecords]
      show ?thesis
      proof (cases rs)
        case Nil
        with CpRecords relay_end_batch_step [OF assms(1)] show ?thesis by blast
      next
        case (Cons x xs)
        have "publish_or_skip (Some a) x s \<noteq> None"
          using one_subscriber_free [OF s(2) full(2)] by (simp add: publish_or_skip_def)
        then have "relay_step a pod kinds i RyRecord y \<noteq> None"
          using CpRecords Cons r s(1) by (auto simp: capture_record_step_def split: sum.splits option.splits)
        then show ?thesis by blast
      qed
    next
      case (CpReturned res)
      with assms(3) s(1) full(1) show ?thesis by (simp add: relay_finished_def)
    qed
  qed
qed

lemma relay_completes:
  assumes "relay_at a pod kinds i all past cur taken y" "consecutive 0 (frames all)"
  shows "\<exists>es z. relay_run a pod kinds i es y = Some z \<and> relay_finished a i z"
  using assms(1)
proof (induction "relay_left a past taken y" arbitrary: past cur taken y rule: less_induct)
  case less
  show ?case
  proof (cases "relay_finished a i y")
    case True
    then show ?thesis by (intro exI [of _ "[]"] exI [of _ y]) simp
  next
    case False
    from relay_progress [OF less.prems assms(2) False] obtain e x where
      x: "relay_step a pod kinds i e y = Some x" by blast
    from relay_step_inv [OF less.prems assms(2) x] less.hyps obtain es z where
      "relay_run a pod kinds i es x = Some z" "relay_finished a i z" by blast
    with x show ?thesis by (intro exI [of _ "e # es"] exI [of _ z]) simp
  qed
qed

lemma relay_at_end:
  assumes "relay_at a pod kinds i all past cur taken y" "relay_finished a i y"
  shows "ry_sent y = filter (\<lambda>r. record_matches_filter r kinds) (published (Some a) all) \<and>
    cp_pc (ry_stream y) = CpReturned (Inr (of_nat (length all)))"
proof -
  from relay_at_session [OF assms(1)] obtain s where
    s: "deref_session (as_session_id a) (ry_hub y) = Some s"
      "one_subscriber i (published (Some a) past) taken (ss_packets s)" by blast
  have "pl_receive i (ss_packets s) = None" using assms(2) s(1) by (simp add: relay_finished_def)
  with one_subscriber_received [OF s(2)] have "taken = published (Some a) past" by (metis take_all order_refl)
  moreover have "past = all \<and> cp_pc (ry_stream y) = CpReturned (Inr (of_nat (length past)))"
    using assms by (cases "cp_pc (ry_stream y)") (auto simp: relay_at_def stream_at_def relay_finished_def)
  ultimately show ?thesis using assms(1) by (auto simp: relay_at_def)
qed

lemma relay_start:
  assumes "get_session (as_session_id a) h = Some s" "session_serves a pod i False [] [] s"
    and "list_all (batch_of a) bs"
  shows "relay_at a pod kinds i (concat (map cb_records bs)) [] [] [] (relay_init h bs)"
  unfolding relay_at_def
  by (intro conjI exI [of _ s] exI [of _ False])
    (use assms in \<open>simp_all add: relay_init_def new_capture_stream_def stream_at_def\<close>)

lemma relay_left_start:
  "relay_left a [] [] (relay_init h bs) = 1 + 2 * (length bs + length (concat (map cb_records bs)))"
proof -
  have "sum_list (map (\<lambda>b. 2 + 2 * length (cb_records b)) bs) =
      2 * (length bs + length (concat (map cb_records bs)))"
    by (induction bs) simp_all
  then show ?thesis
    by (simp add: relay_left_def relay_init_def new_capture_stream_def stream_left_def published_def)
qed

lemma relay_at_prefix:
  assumes "relay_at a pod kinds i all past cur taken y"
  shows "\<exists>n. ry_sent y = filter (\<lambda>r. record_matches_filter r kinds) (take n (published (Some a) all))"
proof -
  from relay_at_session [OF assms] one_subscriber_received
  have t: "taken = take (length taken) (published (Some a) past)" "length taken \<le> length (published (Some a) past)"
    by blast+
  have all: "all = past @ cur @ concat (map cb_records (ry_todo y))" using assms by (simp add: relay_at_def)
  have "taken = take (length taken) (published (Some a) all)"
    using t unfolding all published_append by simp
  then have "ry_sent y = filter (\<lambda>r. record_matches_filter r kinds) (take (length taken) (published (Some a) all))"
    using assms by (simp add: relay_at_def)
  then show ?thesis ..
qed

text \<open>All of it, for the batches of any stream.\<close>

lemma relay_complete:
  assumes "relay_run a pod kinds i es (relay_init h bs) = Some y"
    and "get_session (as_session_id a) h = Some s" "session_serves a pod i False [] [] s"
    and "list_all (batch_of a) bs" "consecutive 0 (frames (concat (map cb_records bs)))"
  shows "length es \<le> 1 + 2 * (length bs + length (concat (map cb_records bs)))"
    and "\<exists>n. ry_sent y = filter (\<lambda>r. record_matches_filter r kinds) (take n (published (Some a) (concat (map cb_records bs))))"
    and "\<exists>fs z. relay_run a pod kinds i fs y = Some z \<and> relay_finished a i z"
    and "relay_finished a i y \<Longrightarrow>
      ry_sent y = filter (\<lambda>r. record_matches_filter r kinds) (published (Some a) (concat (map cb_records bs))) \<and>
      cp_pc (ry_stream y) = CpReturned (Inr (of_nat (length (concat (map cb_records bs)))))"
proof -
  from relay_run_inv [OF assms(1) relay_start [OF assms(2-4)] assms(5)] obtain past cur taken where
    y: "relay_at a pod kinds i (concat (map cb_records bs)) past cur taken y"
      "relay_left a past taken y + length es \<le> relay_left a [] [] (relay_init h bs)" by blast
  show "length es \<le> 1 + 2 * (length bs + length (concat (map cb_records bs)))"
    using y(2) unfolding relay_left_start by linarith
  show "\<exists>n. ry_sent y = filter (\<lambda>r. record_matches_filter r kinds) (take n (published (Some a) (concat (map cb_records bs))))"
    by (rule relay_at_prefix [OF y(1)])
  show "\<exists>fs z. relay_run a pod kinds i fs y = Some z \<and> relay_finished a i z"
    by (rule relay_completes [OF y(1) assms(5)])
  show "ry_sent y = filter (\<lambda>r. record_matches_filter r kinds) (published (Some a) (concat (map cb_records bs))) \<and>
      cp_pc (ry_stream y) = CpReturned (Inr (of_nat (length (concat (map cb_records bs)))))" if "relay_finished a i y"
    by (rule relay_at_end [OF y(1) that])
qed

section \<open>From the agent to the subscriber\<close>


section \<open>From the agent to the files\<close>

lemma subscribe_loop_pcap:
  "subscribe_loop D L ctx (map (\<lambda>(wr, r). (wr, Received r)) rs @ [(w, RecvEOF)]) p None = (Some None, p', t') \<Longrightarrow>
     write_records D L (map snd rs) p = (p', None)"
  by (induction rs arbitrary: p) (auto split: prod.splits option.splits)

lemma subscribe_loop_keeps: "subscribe_loop D L ctx ins p t = (res, p', t') \<Longrightarrow> t' = None \<longleftrightarrow> t = None"
  by (induction D L ctx ins p t rule: subscribe_loop.induct) (auto split: prod.splits option.splits if_splits)

lemma subscribe_filter:
  "filter (\<lambda>r. record_matches_filter r (subscribe_kinds hasTls)) rs =
     (if hasTls then rs else filter (\<lambda>r. get_wire_frame r \<noteq> None) rs)"
  by (simp add: subscribe_kinds_def)

lemma written_frames_of_frames: "written_frames (filter (\<lambda>r. get_wire_frame r \<noteq> None) rs) = written_frames rs"
  by (induction rs) (auto split: option.split)

lemma written_events_map: "written_events rs = List.map_filter get_tls_event (map snd rs)"
  by (induction rs) (simp_all add: map_filter_simps split: option.split)


section \<open>Examples\<close>

definition demo_relayed :: packet_frame where
  "demo_relayed = \<lparr>pf_pod = Some demo_ref, pf_source = PACKET_SOURCE_WIRE,
     pf_timestamp = Some \<lparr>ts_time = 5, ts_valid = True\<rparr>, pf_link_type = LINK_TYPE_ETHERNET,
     pf_original_length = 3, pf_payload = ''abc'', pf_sequence = 1\<rparr>"

lemma demo_ids:
  "as_session_id demo_assignment = ''s1''" "as_node demo_assignment = ''n1''" "as_stream_id demo_assignment = ''str1''"
  by (simp_all add: demo_assignment_def)

lemma demo_hub_sent:
  "r_sent (demo_state demo_hub_run) =
     [\<lparr>cb_session_id = ''s1'', cb_node = ''n1'', cb_stream_id = ''str1'', cb_records = [WireFrame demo_relayed],
       cb_dropped = 0\<rparr>]"
  by (simp add: demo_state_def demo_hub_run_def demo_run_simps demo_capture_batch_def packet_batch_def
      empty_batch_def read_frame_def demo_newts_def demo_relayed_def demo_ids)

lemma demo_relayed_payload: "pf_payload demo_relayed = ''abc''"
  by (simp add: demo_relayed_def)

lemma demo_hub_published: "published (Some demo_assignment) [WireFrame demo_relayed] = [WireFrame demo_relayed]"
  by (simp add: published_def demo_relayed_def demo_assignment_def assigned_target_def demo_ref_def)

lemma demo_one_subscriber: "one_subscriber 0 [] [] pl_sub1"
proof -
  have "pl_room 0 pl_sub1" using demo_room by (auto simp: pl_room_def)
  moreover have "pl_taken pl_sub1 0 = []" by (simp add: pl_sub1_eq pl_taken_def)
  ultimately show ?thesis by (simp add: one_subscriber_def pl_sub1_simps)
qed

lemma demo_serves: "session_serves demo_assignment ''agent-0'' 0 False [] [] demo_live"
  by (simp add: session_serves_def demo_session_simps demo_one_subscriber published_def demo_ids)

lemma demo_hub_accepted: "list_all (agent_batch demo_newts demo_assignment) (accepted_of demo_hub_run)"
  unfolding agent_batch_def demo_capture_batch_def demo_hub_run_def accepted_of.simps list.pred_inject
  by (intro conjI disjI1 exI TrueI, rule_tac [2] refl) (simp_all add: demo_newts_def)

lemma demo_hub_at:
  "get_session (as_session_id demo_assignment) demo_hub = Some demo_live"
  by (simp add: demo_ids demo_hub_simps)

text \<open>A run of the relay that has finished.\<close>

lemma demo_relay_run:
  obtains es y where
    "relay_run demo_assignment ''agent-0'' kinds 0 es (relay_init demo_hub (r_sent (demo_state demo_hub_run))) = Some y"
    "relay_finished demo_assignment 0 y"
proof -
  note ok = run_batches_ok [OF demo_hub_run_state demo_hub_accepted]
  from relay_completes [OF relay_start [OF demo_hub_at demo_serves conjunct1 [OF ok]] conjunct2 [OF ok]] that
  show thesis by blast
qed



end
