(* ===== verification/Stream_Merge.thy ===== *)
theory Stream_Merge imports End_To_End begin

text \<open>
  The packet handlers of the hub under everything else it does: any number of agents stream to
  any number of sessions, sessions change, are stopped and removed, other subscribers come and
  go, and one subscriber \<open>i\<close> of one session \<open>sid\<close> is followed.  \<open>feed_step\<close> is one step of one
  of the \<open>StreamCapture\<close> handlers, of the subscriber's \<open>SubscribePackets\<close>, or of the rest of the
  hub (\<open>hub_other\<close>).  A publish is one step here; its own interleaving is in \<open>Packet_Log\<close>.
\<close>

section \<open>The rest of the hub\<close>

definition hub_log :: "string \<Rightarrow> hub \<Rightarrow> capture_record packet_log option" where
  "hub_log sid h = map_option ss_packets (deref_session sid h)"

inductive hub_other :: "string \<Rightarrow> nat \<Rightarrow> hub \<Rightarrow> hub \<Rightarrow> bool" for sid i where
  ho_session: "deref_session sid h = Some s \<Longrightarrow> session_op s t \<Longrightarrow> ss_packets t = ss_packets s \<Longrightarrow>
    hub_other sid i h (store_session t h)"
| ho_subscribe: "deref_session sid h = Some s \<Longrightarrow> pl_subscribe (ss_packets s) = Some (j, l) \<Longrightarrow>
    hub_other sid i h (store_session (s\<lparr>ss_packets := l\<rparr>) h)"
| ho_unsubscribe: "deref_session sid h = Some s \<Longrightarrow> pl_unsubscribe j (ss_packets s) = ChOk l \<Longrightarrow>
    hub_other sid i h (store_session (s\<lparr>ss_packets := l\<rparr>) h)"
| ho_receive: "deref_session sid h = Some s \<Longrightarrow> j \<noteq> i \<Longrightarrow> pl_receive j (ss_packets s) = Some (r, l) \<Longrightarrow>
    hub_other sid i h (store_session (s\<lparr>ss_packets := l\<rparr>) h)"
| ho_close: "deref_session sid h = Some s \<Longrightarrow>
    hub_other sid i h (store_session (close_session_packets slow s) h)"
| ho_elsewhere: "ss_id t \<noteq> sid \<Longrightarrow> hub_other sid i h (store_session t h)"
| ho_put: "ss_id t \<noteq> sid \<Longrightarrow> hub_other sid i h (put_session t h)"
| ho_delete: "hub_other sid i h (delete_session x h)"

text \<open>What they do to the log, as far as subscriber \<open>i\<close> is concerned.\<close>

definition log_kept :: "nat \<Rightarrow> 'r packet_log \<Rightarrow> 'r packet_log \<Rightarrow> bool" where
  "log_kept i l l' \<longleftrightarrow> pl_ok l' \<and> pl_got l' i = pl_got l i \<and> pl_taken l' i = pl_taken l i \<and>
     (i \<in> set (pl_subs l') \<longrightarrow> i \<in> set (pl_subs l)) \<and> i < pl_next_id l'"

lemma log_kept_refl: "pl_ok l \<Longrightarrow> i < pl_next_id l \<Longrightarrow> log_kept i l l"
  by (simp add: log_kept_def)

lemma log_kept_subscribe:
  assumes "pl_ok l" "i < pl_next_id l" "pl_subscribe l = Some (j, l')"
  shows "log_kept i l l'"
proof -
  note D = pl_subscribe_SomeD [OF assms(3)]
  then show ?thesis
    using pl_ok_subscribe [OF assms(1,3)] subscribe_le [OF assms(1,3), of i] assms(2)
    by (simp add: log_kept_def pl_taken_def)
qed

lemma log_kept_dropped:
  assumes "dropped A l m" "i < pl_next_id l"
  shows "log_kept i l m" "log_kept i l (notify_locked m)"
proof -
  have "map_option (\<lambda>s. (pks_ch s, pks_taken s)) (map_of (pl_store m) i) =
      map_option (\<lambda>s. (pks_ch s, pks_taken s)) (map_of (pl_store l) i)"
    using assms(1) unfolding dropped_def by blast
  then have "pl_taken m i = pl_taken l i" by (auto simp: pl_taken_def split: option.split)
  with assms(1) dropped_got [OF assms(1), of i] assms(2) show "log_kept i l m"
    by (auto simp: log_kept_def dropped_def)
  then show "log_kept i l (notify_locked m)" by (simp add: log_kept_def pl_got_def pl_taken_def)
qed

lemma log_kept_unsubscribe:
  assumes "pl_ok l" "i < pl_next_id l" "pl_unsubscribe j l = ChOk l'"
  shows "log_kept i l l'"
  using pl_unsubscribe_ok [OF assms(1), of j] log_kept_dropped [OF _ assms(2)] log_kept_refl [OF assms(1,2)] assms(3)
  by (auto split: if_splits)

lemma log_kept_receive:
  assumes "pl_ok l" "i < pl_next_id l" "pl_receive j l = Some (r, l')" "j \<noteq> i"
  shows "log_kept i l l'"
  using pl_receive_SomeD [OF assms(3)] pl_ok_receive [OF assms(1,3)] receive_le [OF assms(3), of i] assms(2,4)
  by (auto simp: log_kept_def pl_taken_def)

lemma close_packets_drops:
  assumes "pl_ok l" "\<not> pl_closed l"
  shows "\<exists>m. snd (close_packets slow l) = notify_locked m \<and>
    dropped (set (pl_subs l)) (notify_locked (l\<lparr>pl_closed := True\<rparr>)) m"
proof -
  let ?l = "notify_locked (l\<lparr>pl_closed := True\<rparr>)"
  have "pl_ok ?l" using assms(1) by (simp add: pl_ok_def sub_ok_def)
  from close_subscribers_ok [OF this] show ?thesis using assms(2)
    by (auto simp: close_packets_def close_begin_def)
qed

lemma log_kept_close:
  assumes "pl_ok l" "i < pl_next_id l"
  shows "log_kept i l (snd (close_packets slow l))"
proof (cases "pl_closed l")
  case True
  then show ?thesis by (simp add: close_packets_def close_begin_def log_kept_refl [OF assms])
next
  case False
  from close_packets_drops [OF assms(1) False, of slow] obtain m where
    m: "snd (close_packets slow l) = notify_locked m"
      "dropped (set (pl_subs l)) (notify_locked (l\<lparr>pl_closed := True\<rparr>)) m" by blast
  have "log_kept i (notify_locked (l\<lparr>pl_closed := True\<rparr>)) (notify_locked m)"
    by (rule log_kept_dropped(2) [OF m(2)]) (use assms(2) in simp)
  then show ?thesis unfolding m(1) by (simp add: log_kept_def pl_got_def pl_taken_def)
qed

lemma close_session_packets_log:
  "ss_packets (close_session_packets slow s) = snd (close_packets slow (ss_packets s)) \<and>
   ss_id (close_session_packets slow s) = ss_id s"
  by (auto simp: close_session_packets_def emit_def Let_def split: prod.split option.split)

lemma session_op_id: "session_op s t \<Longrightarrow> ss_id t = ss_id s"
  by (erule session_op.cases)
    (auto simp: signal_stop_def set_nodes_def begin_ensure_def end_ensure_def record_agent_def set_state_def
      update_assignment_def notify_assign_locked_def remove_agent_def Let_def add_dropped_def emit_def
      commit_capture_record_def claim_capture_stream_def release_capture_stream_def
      split: option.splits if_splits)

lemma hub_log_store:
  "hub_log sid (store_session t h) = (if sid = ss_id t then Some (ss_packets t) else hub_log sid h)"
  by (simp add: hub_log_def store_session_def deref_session_def update_conv')

lemma hub_log_put: "ss_id t \<noteq> sid \<Longrightarrow> hub_log sid (put_session t h) = hub_log sid h"
  using hub_log_store [of sid t h] by (simp add: put_session_def hub_log_def deref_session_def)

lemma hub_log_delete: "hub_log sid (delete_session x h) = hub_log sid h"
  by (simp add: delete_session_def hub_log_def deref_session_def)

lemma hub_other_log:
  assumes "hub_other sid i h h'" "hub_ok h" "hub_log sid h = Some l" "pl_ok l" "i < pl_next_id l"
  shows "hub_ok h' \<and> (\<exists>l'. hub_log sid h' = Some l' \<and> log_kept i l l')"
proof -
  have id: "ss_id s = sid" if "deref_session sid h = Some s" for s
    using that assms(2) unfolding hub_ok_def by blast
  have l: "ss_packets s = l" if "deref_session sid h = Some s" for s
    using that assms(3) by (simp add: hub_log_def)
  show ?thesis
    using assms(1)
  proof cases
    case (ho_session s t)
    then show ?thesis
      using id [OF ho_session(2)] l [OF ho_session(2)] session_op_id [OF ho_session(3)] hub_ok_store [OF assms(2)]
        log_kept_refl [OF assms(4,5)] by (simp add: hub_log_store)
  next
    case (ho_subscribe s j l')
    then show ?thesis
      using id [OF ho_subscribe(2)] l [OF ho_subscribe(2)] hub_ok_store [OF assms(2)]
        log_kept_subscribe [OF assms(4,5)] by (simp add: hub_log_store)
  next
    case (ho_unsubscribe s j l')
    then show ?thesis
      using id [OF ho_unsubscribe(2)] l [OF ho_unsubscribe(2)] hub_ok_store [OF assms(2)]
        log_kept_unsubscribe [OF assms(4,5)] by (simp add: hub_log_store)
  next
    case (ho_receive s j r l')
    then show ?thesis
      using id [OF ho_receive(2)] l [OF ho_receive(2)] hub_ok_store [OF assms(2)]
        log_kept_receive [OF assms(4,5) _ ho_receive(3)] by (simp add: hub_log_store)
  next
    case (ho_close s slow)
    then show ?thesis
      using id [OF ho_close(2)] l [OF ho_close(2)] hub_ok_store [OF assms(2)] close_session_packets_log [of slow s]
        log_kept_close [OF assms(4,5), of slow] by (simp add: hub_log_store)
  next
    case (ho_elsewhere t)
    then show ?thesis
      using hub_ok_store [OF assms(2)] log_kept_refl [OF assms(4,5)] assms(3) by (simp add: hub_log_store)
  next
    case (ho_put t)
    then show ?thesis
      using hub_ok_put [OF assms(2)] log_kept_refl [OF assms(4,5)] assms(3) by (simp add: hub_log_put)
  next
    case (ho_delete x)
    then show ?thesis
      using hub_ok_delete [OF assms(2)] log_kept_refl [OF assms(4,5)] assms(3) by (simp add: hub_log_delete)
  qed
qed

section \<open>The handlers\<close>

lemma hub_ok_id: "hub_ok h \<Longrightarrow> deref_session sid h = Some s \<Longrightarrow> ss_id s = sid"
  unfolding hub_ok_def by blast

text \<open>A session stored back with the same log.\<close>

lemma hub_log_update:
  assumes "hub_ok h" "deref_session csid h = Some s" "ss_packets t = ss_packets s" "ss_id t = ss_id s"
  shows "hub_ok (store_session t h)" "hub_log sid (store_session t h) = hub_log sid h"
  using hub_ok_store [OF assms(1)] hub_ok_id [OF assms(1,2)] assms(2-4)
  by (simp_all add: hub_log_store) (simp add: hub_log_def)

lemma capture_return_log:
  assumes "hub_ok h"
  shows "hub_ok (fst (capture_return res h st)) \<and> hub_log sid (fst (capture_return res h st)) = hub_log sid h"
proof (cases "cp_claim st")
  case (Some c)
  obtain csid node str where c: "c = (csid, node, str)" by (cases c)
  show ?thesis
  proof (cases "deref_session csid h")
    case (Some s)
    with \<open>cp_claim st = Some c\<close> c hub_log_update [OF assms Some, of "release_capture_stream node str s"]
    show ?thesis by (simp add: capture_return_def)
  qed (simp add: capture_return_def c assms \<open>cp_claim st = Some c\<close>)
qed (simp add: capture_return_def assms)

lemma capture_begin_batch_log:
  "hub_ok h \<Longrightarrow> hub_ok (fst (capture_begin_batch b t h st)) \<and> hub_log sid (fst (capture_begin_batch b t h st)) = hub_log sid h"
  using capture_return_log by (simp add: capture_begin_batch_def capture_fail_def split: option.split)

lemma capture_recv_log:
  assumes "hub_ok h"
  shows "hub_ok (fst (capture_recv pod md b h st)) \<and> hub_log sid (fst (capture_recv pod md b h st)) = hub_log sid h"
proof (cases "get_session (cb_session_id b) h")
  case None
  with capture_return_log [OF assms] show ?thesis by (simp add: capture_recv_def capture_fail_def)
next
  case (Some s)
  note d = get_session_deref [OF Some]
  show ?thesis
  proof (cases "cp_claim st")
    case None
    show ?thesis
    proof (cases "claim_capture_stream (cb_node b) pod md s")
      case (Inl e)
      with None Some capture_return_log [OF assms] show ?thesis by (simp add: capture_recv_def capture_fail_def)
    next
      case (Inr t)
      have t: "ss_packets t = ss_packets s" "ss_id t = ss_id s" using claim_packets [OF Inr] by simp_all
      note u = hub_log_update [OF assms d t]
      show ?thesis
        using None Some Inr capture_return_log [OF assms] capture_begin_batch_log [OF u(1)] u(2)
        by (simp add: capture_recv_def capture_fail_def)
    qed
  next
    case (Some c)
    with \<open>get_session (cb_session_id b) h = Some s\<close> capture_return_log [OF assms] capture_begin_batch_log [OF assms]
    show ?thesis by (simp add: capture_recv_def capture_fail_def)
  qed
qed

text \<open>A received batch is refused, and the handler returns, or it is the batch worked on.\<close>

lemma capture_return_pc [simp]: "cp_pc (snd (capture_return res h st)) = CpReturned res"
  by (auto simp: capture_return_def split: option.split)

lemma capture_begin_batch_pc:
  "(\<exists>res. cp_pc (snd (capture_begin_batch b s h st)) = CpReturned res) \<or>
   (\<exists>a. cp_pc (snd (capture_begin_batch b s h st)) = CpRecords b a (cb_records b))"
  by (simp add: capture_begin_batch_def capture_fail_def split: option.split)

lemma capture_recv_pc:
  "(\<exists>res. cp_pc (snd (capture_recv pod md b h st)) = CpReturned res) \<or>
   (\<exists>a. cp_pc (snd (capture_recv pod md b h st)) = CpRecords b a (cb_records b))"
  using capture_begin_batch_pc
  by (simp add: capture_recv_def capture_fail_def split: option.split sum.split)

lemma end_batch_log:
  assumes "hub_ok h" "capture_record_step h st = Some (h', st')" "cp_pc st = CpRecords b a []"
  shows "hub_ok h' \<and> hub_log sid h' = hub_log sid h \<and> cp_pc st' = CpRecv"
proof -
  from assms(2,3) obtain s where s: "deref_session (cb_session_id b) h = Some s"
    "h' = store_session (capture_dropped b s) h" "st' = st\<lparr>cp_pc := CpRecv\<rparr>"
    by (auto simp: capture_record_step_def split: option.splits)
  then show ?thesis using hub_log_update [OF assms(1) s(1), of "capture_dropped b s"] by simp
qed

lemma record_log:
  assumes "hub_ok h" "capture_record_step h st = Some (h', st')" "cp_pc st = CpRecords b a (r # rs)"
    and "deref_session (cb_session_id b) h = Some s" "publish_or_skip a r s = Some (res, l)"
  shows "hub_ok h' \<and> hub_log sid h' = (if sid = cb_session_id b \<and> res = Inr () then Some l else hub_log sid h) \<and>
    ((\<exists>x. cp_pc st' = CpReturned x) \<or> res = Inr () \<and> cp_pc st' = CpRecords b a rs)"
proof (cases res)
  case (Inl e)
  with assms(2-5) have "(h', st') = publish_failed e h st" by (simp add: capture_record_step_def)
  then obtain x where "(h', st') = capture_return x h st" by (cases e) (auto simp: publish_failed_def)
  then have x: "h' = fst (capture_return x h st)" "st' = snd (capture_return x h st)" by (metis fst_conv snd_conv)+
  then show ?thesis using capture_return_log [OF assms(1)] Inl by simp
next
  case (Inr u)
  let ?s = "s\<lparr>ss_packets := l\<rparr>"
  have id: "ss_id s = cb_session_id b" by (rule hub_ok_id [OF assms(1,4)])
  have step: "(h', st') = commit_record b a r rs ?s h st"
    using assms(2-5) Inr by (simp add: capture_record_step_def)
  show ?thesis
  proof (cases "commit_capture_record (cb_node b) (cb_stream_id b) r
      (assigned_target a (capture_record_pod r) \<noteq> None) ?s")
    case (Inl e)
    with step have "(h', st') = capture_return (Inl (Status FailedPrecondition (CaptureCommitErr e))) (store_session ?s h) st"
      by (simp add: commit_record_def capture_fail_def)
    then have x: "h' = fst (capture_return (Inl (Status FailedPrecondition (CaptureCommitErr e))) (store_session ?s h) st)"
      "st' = snd (capture_return (Inl (Status FailedPrecondition (CaptureCommitErr e))) (store_session ?s h) st)"
      by (metis fst_conv snd_conv)+
    show ?thesis
      unfolding x using capture_return_log [OF hub_ok_store [OF assms(1)]] id \<open>res = Inr u\<close>
      by (simp add: hub_log_store)
  next
    case (Inr t)
    with step have "h' = store_session t h" "cp_pc st' = CpRecords b a rs" by (simp_all add: commit_record_def)
    with commit_packets [OF Inr] id \<open>res = Inr u\<close> hub_ok_store [OF assms(1)] show ?thesis
      by (simp add: hub_log_store)
  qed
qed

section \<open>What a step does to the log\<close>

lemma send_all_next: "send_all r is l = Some l' \<Longrightarrow> pl_next_id l' = pl_next_id l"
proof (induction "is" arbitrary: l)
  case (Cons j "is")
  then obtain m where "send_to r j l = ChOk m" "send_all r is m = Some l'" by (auto split: chan_outcome.splits)
  with send_to_OkD [of r j l m] Cons.IH [of m] show ?case by auto
qed simp

lemma publish_now_next:
  assumes "publish_now r l = Some (Inr u, l')"
  shows "pl_next_id l' = pl_next_id l"
proof -
  from assms obtain l1 l2 where l: "publish_begin l = Some l1" "send_all r (pl_subs l1) l1 = Some l2"
    "finish_publish l2 = ChOk l'"
    by (auto simp: publish_now_def split: option.splits chan_outcome.splits wait_verdict.splits)
  with publish_begin_SomeD [OF l(1)] finish_publish_OkD [OF l(3)] send_all_next [OF l(2)]
  show ?thesis by (simp add: same_subs_def)
qed

lemma publish_log:
  assumes "publish_or_skip a r s = Some (Inr u, l')" "pl_ok (ss_packets s)" "i < pl_next_id (ss_packets s)"
  shows "pl_ok l' \<and> i < pl_next_id l' \<and> pl_subs l' = pl_subs (ss_packets s) \<and> pl_taken l' i = pl_taken (ss_packets s) i \<and>
    pl_got l' i = pl_got (ss_packets s) i @
      (if assigned_target a (capture_record_pod r) \<noteq> None \<and> i \<in> set (pl_subs (ss_packets s)) then [r] else [])"
  using assms publish_now_effect [of r "ss_packets s" u l' i] publish_now_next [of r "ss_packets s" u l']
    publish_now_taken [of r "ss_packets s" u l' i]
  by (auto simp: publish_or_skip_def split: if_splits)

lemma receive_log:
  assumes "pl_receive i l = Some (r, l')" "pl_ok l"
  shows "pl_ok l' \<and> pl_next_id l' = pl_next_id l \<and> pl_subs l' = pl_subs l \<and> pl_got l' i = pl_got l i \<and>
    pl_taken l' i = pl_taken l i @ [r]"
  using pl_receive_SomeD [OF assms(1)] pl_ok_receive [OF assms(2,1)] receive_le [OF assms(1), of i]
  by (auto simp: pl_taken_def)

lemma drain_log:
  assumes "drain_packets kinds i n l = (out, l')" "pl_ok l"
  shows "pl_ok l' \<and> pl_next_id l' = pl_next_id l \<and> pl_subs l' = pl_subs l \<and> pl_got l' i = pl_got l i \<and>
    filter (\<lambda>r. record_matches_filter r kinds) (pl_taken l' i) =
      filter (\<lambda>r. record_matches_filter r kinds) (pl_taken l i) @ out"
  using assms
proof (induction n arbitrary: l out)
  case (Suc n)
  show ?case
  proof (cases "pl_receive i l")
    case (Some p)
    obtain r l1 where p: "p = (r, l1)" by (cases p)
    obtain out1 l2 where d: "drain_packets kinds i n l1 = (out1, l2)" by fastforce
    note R = receive_log [OF Some [unfolded p] Suc.prems(2)]
    have "l2 = l'" "out = (if record_matches_filter r kinds then r # out1 else out1)"
      using Suc.prems(1) Some p d by (auto split: prod.splits)
    with R Suc.IH [of l1 out1] d show ?thesis by (auto simp del: record_matches_filter.simps)
  qed (use Suc.prems in simp)
qed simp

lemma drain_all_taken:
  assumes "drain_packets kinds i packet_chan_cap l = (out, l')" "pl_ok l"
  shows "pl_taken l' i = pl_got l' i"
proof (cases "map_of (pl_store l) i")
  case None
  then have "l' = l" using assms(1) by (auto simp: packet_chan_cap_def numeral_eq_Suc pl_receive_def)
  with None show ?thesis by (simp add: pl_taken_def pl_got_def)
next
  case (Some s)
  then have "length (ch_buf (pks_ch s)) \<le> packet_chan_cap" using pl_ok_sub [OF assms(2) Some] by (simp add: sub_ok_def)
  from drain_packets_all [OF Some this, of kinds] assms(1) have "pl_len l' i = 0" by auto
  with pl_got_length [of l' i] pl_taken_prefix [of l' i] show ?thesis by simp
qed

section \<open>Feeds\<close>

record feeds =
  fd_hub :: hub
  fd_streams :: "capture_stream list"
  fd_accepted :: "(nat \<times> capture_batch) list"
  fd_handled :: "(nat \<times> string \<times> agent_assignment option \<times> capture_record) list"
  fd_sent :: "capture_record list"
  fd_ended :: bool

text \<open>
  \<open>fd_accepted\<close> and \<open>fd_handled\<close> keep, for each handler, the batches it accepted and the
  records it got through, with the session they are for and the assignment read for the batch.
\<close>

definition feeds_init :: "hub \<Rightarrow> feeds" where
  "feeds_init h = \<lparr>fd_hub = h, fd_streams = [], fd_accepted = [], fd_handled = [], fd_sent = [], fd_ended = False\<rparr>"

definition set_stream :: "nat \<Rightarrow> hub \<times> capture_stream \<Rightarrow> feeds \<Rightarrow> feeds" where
  "set_stream k p y = y\<lparr>fd_hub := fst p, fd_streams := (fd_streams y)[k := snd p]\<rparr>"

inductive feed_step :: "string \<Rightarrow> record_kind list \<Rightarrow> nat \<Rightarrow> feeds \<Rightarrow> feeds \<Rightarrow> bool" for sid kinds i where
  feed_open: "feed_step sid kinds i y (y\<lparr>fd_streams := fd_streams y @ [new_capture_stream]\<rparr>)"
| feed_batch: "k < length (fd_streams y) \<Longrightarrow> cp_pc (fd_streams y ! k) = CpRecv \<Longrightarrow>
    p = capture_recv pod md b (fd_hub y) (fd_streams y ! k) \<Longrightarrow>
    new = (case cp_pc (snd p) of CpRecords b' a rs \<Rightarrow> [(k, b')] | _ \<Rightarrow> []) \<Longrightarrow>
    feed_step sid kinds i y (set_stream k p y\<lparr>fd_accepted := fd_accepted y @ new\<rparr>)"
| feed_record: "k < length (fd_streams y) \<Longrightarrow> cp_pc (fd_streams y ! k) = CpRecords b a (r # rs) \<Longrightarrow>
    deref_session (cb_session_id b) (fd_hub y) = Some s \<Longrightarrow> publish_or_skip a r s = Some (res, l) \<Longrightarrow>
    capture_record_step (fd_hub y) (fd_streams y ! k) = Some p \<Longrightarrow>
    new = (if res = Inr () then [(k, cb_session_id b, a, r)] else []) \<Longrightarrow>
    feed_step sid kinds i y (set_stream k p y\<lparr>fd_handled := fd_handled y @ new\<rparr>)"
| feed_batch_end: "k < length (fd_streams y) \<Longrightarrow> cp_pc (fd_streams y ! k) = CpRecords b a [] \<Longrightarrow>
    capture_record_step (fd_hub y) (fd_streams y ! k) = Some p \<Longrightarrow>
    feed_step sid kinds i y (set_stream k p y)"
| feed_end: "k < length (fd_streams y) \<Longrightarrow> cp_pc (fd_streams y ! k) = CpRecv \<Longrightarrow>
    p \<in> {capture_eof (fd_hub y) (fd_streams y ! k), capture_recv_error (fd_hub y) (fd_streams y ! k)} \<Longrightarrow>
    feed_step sid kinds i y (set_stream k p y)"
| feed_cancel: "k < length (fd_streams y) \<Longrightarrow> cp_pc (fd_streams y ! k) = CpRecords b a (r # rs) \<Longrightarrow>
    p = capture_cancel (fd_hub y) (fd_streams y ! k) \<Longrightarrow>
    feed_step sid kinds i y (set_stream k p y)"
| feed_take: "\<not> fd_ended y \<Longrightarrow> deref_session sid (fd_hub y) = Some s \<Longrightarrow> pl_receive i (ss_packets s) \<noteq> None \<Longrightarrow>
    subscribe_packets_rounds kinds i [SelectRecord] (ss_packets s) = (out, res, l) \<Longrightarrow>
    feed_step sid kinds i y (y\<lparr>fd_hub := store_session (s\<lparr>ss_packets := l\<rparr>) (fd_hub y), fd_sent := fd_sent y @ out\<rparr>)"
| feed_unsubscribed: "\<not> fd_ended y \<Longrightarrow> deref_session sid (fd_hub y) = Some s \<Longrightarrow> sub_done i (ss_packets s) \<Longrightarrow>
    subscribe_packets_rounds kinds i [SelectUnsubscribed] (ss_packets s) = (out, res, l) \<Longrightarrow>
    feed_step sid kinds i y (y\<lparr>fd_hub := store_session (s\<lparr>ss_packets := l\<rparr>) (fd_hub y),
      fd_sent := fd_sent y @ out, fd_ended := True\<rparr>)"
| feed_other: "hub_other sid i (fd_hub y) h \<Longrightarrow> feed_step sid kinds i y (y\<lparr>fd_hub := h\<rparr>)"

definition accepted_by :: "nat \<Rightarrow> (nat \<times> capture_batch) list \<Rightarrow> capture_record list" where
  "accepted_by k bs = concat (map (\<lambda>(j, b). if j = k then cb_records b else []) bs)"

definition handled_by :: "nat \<Rightarrow> (nat \<times> string \<times> agent_assignment option \<times> capture_record) list \<Rightarrow> capture_record list" where
  "handled_by k hs = concat (map (\<lambda>(j, s, a, r). if j = k then [r] else []) hs)"

text \<open>The records published to session \<open>sid\<close>: those whose pod is assigned.\<close>

definition feed_published ::
    "string \<Rightarrow> (nat \<times> string \<times> agent_assignment option \<times> capture_record) list \<Rightarrow> capture_record list" where
  "feed_published sid hs = concat (map (\<lambda>(j, s, a, r).
     if s = sid \<and> assigned_target a (capture_record_pod r) \<noteq> None then [r] else []) hs)"

lemma by_append [simp]:
  "accepted_by k (bs @ bs') = accepted_by k bs @ accepted_by k bs'"
  "handled_by k (hs @ hs') = handled_by k hs @ handled_by k hs'"
  "feed_published sid (hs @ hs') = feed_published sid hs @ feed_published sid hs'"
  by (simp_all add: accepted_by_def handled_by_def feed_published_def)

lemma by_single [simp]:
  "accepted_by k [] = []" "handled_by k [] = []" "feed_published sid [] = []"
  "accepted_by k [(j, b)] = (if j = k then cb_records b else [])"
  "handled_by k [(j, s, a, r)] = (if j = k then [r] else [])"
  "feed_published sid [(j, s, a, r)] =
     (if s = sid \<and> assigned_target a (capture_record_pod r) \<noteq> None then [r] else [])"
  by (simp_all add: accepted_by_def handled_by_def feed_published_def)

lemma set_stream_fields [simp]:
  "fd_hub (set_stream k p y) = fst p" "fd_streams (set_stream k p y) = (fd_streams y)[k := snd p]"
  "fd_accepted (set_stream k p y) = fd_accepted y" "fd_handled (set_stream k p y) = fd_handled y"
  "fd_sent (set_stream k p y) = fd_sent y" "fd_ended (set_stream k p y) = fd_ended y"
  by (simp_all add: set_stream_def)

section \<open>The order within a stream\<close>

fun order_ok :: "capture_record list \<Rightarrow> capture_record list \<Rightarrow> capture_pc \<Rightarrow> bool" where
  "order_ok acc han CpRecv = (acc = han)"
| "order_ok acc han (CpRecords b a rs) = (acc = han @ rs)"
| "order_ok acc han (CpReturned res) = (han = take (length han) acc)"

lemma order_ok_prefix: "order_ok acc han pc \<Longrightarrow> han = take (length han) acc"
  by (cases pc) auto

lemma order_ok_returned: "order_ok acc han pc \<Longrightarrow> order_ok acc han (CpReturned res)"
  using order_ok_prefix by simp

definition feeds_ordered :: "feeds \<Rightarrow> bool" where
  "feeds_ordered y \<longleftrightarrow> (\<forall>k. if k < length (fd_streams y)
     then order_ok (accepted_by k (fd_accepted y)) (handled_by k (fd_handled y)) (cp_pc (fd_streams y ! k))
     else accepted_by k (fd_accepted y) = [] \<and> handled_by k (fd_handled y) = [])"

text \<open>A step of handler \<open>k\<close>.\<close>

lemma feeds_ordered_set:
  assumes "feeds_ordered y" "k < length (fd_streams y)" "fd_streams z = (fd_streams y)[k := st]"
    and "fd_accepted z = fd_accepted y @ bs" "fd_handled z = fd_handled y @ hs"
    and "\<And>j. j \<noteq> k \<Longrightarrow> accepted_by j bs = [] \<and> handled_by j hs = []"
    and "order_ok (accepted_by k (fd_accepted y)) (handled_by k (fd_handled y)) (cp_pc (fd_streams y ! k)) \<Longrightarrow>
      order_ok (accepted_by k (fd_accepted y) @ accepted_by k bs) (handled_by k (fd_handled y) @ handled_by k hs) (cp_pc st)"
  shows "feeds_ordered z"
  unfolding feeds_ordered_def
proof
  fix j
  show "if j < length (fd_streams z)
     then order_ok (accepted_by j (fd_accepted z)) (handled_by j (fd_handled z)) (cp_pc (fd_streams z ! j))
     else accepted_by j (fd_accepted z) = [] \<and> handled_by j (fd_handled z) = []"
  proof (cases "j = k")
    case True
    with assms(1-5,7) show ?thesis by (simp add: feeds_ordered_def)
  next
    case False
    have "if j < length (fd_streams y)
       then order_ok (accepted_by j (fd_accepted y)) (handled_by j (fd_handled y)) (cp_pc (fd_streams y ! j))
       else accepted_by j (fd_accepted y) = [] \<and> handled_by j (fd_handled y) = []"
      using assms(1) unfolding feeds_ordered_def by blast
    with False assms(3-5) assms(6) [OF False] show ?thesis by simp
  qed
qed

lemma feed_step_ordered:
  assumes "feed_step sid kinds i y z" "feeds_ordered y" "hub_ok (fd_hub y)"
  shows "feeds_ordered z"
  using assms(1)
proof cases
  case feed_open
  with assms(2) show ?thesis
    by (auto simp: feeds_ordered_def nth_append new_capture_stream_def less_Suc_eq)
next
  case (feed_batch k p pod md b new)
  show ?thesis
  proof (rule feeds_ordered_set [OF assms(2) feed_batch(2), of _ "snd p" new "[]"])
    show "order_ok (accepted_by k (fd_accepted y) @ accepted_by k new) (handled_by k (fd_handled y) @ handled_by k []) (cp_pc (snd p))"
      if "order_ok (accepted_by k (fd_accepted y)) (handled_by k (fd_handled y)) (cp_pc (fd_streams y ! k))"
      using capture_recv_pc [of pod md b "fd_hub y" "fd_streams y ! k"] that feed_batch(3-5) by auto
  qed (use feed_batch(1,5) in \<open>auto split: capture_pc.splits\<close>)
next
  case (feed_record k b a r rs s res l p new)
  have pc: "(\<exists>x. cp_pc (snd p) = CpReturned x) \<or> res = Inr () \<and> cp_pc (snd p) = CpRecords b a rs"
    using record_log [OF assms(3) _ feed_record(3,4,5), of "fst p" "snd p"] feed_record(6) by simp
  show ?thesis
  proof (rule feeds_ordered_set [OF assms(2) feed_record(2), of _ "snd p" "[]" new])
    show "order_ok (accepted_by k (fd_accepted y) @ accepted_by k []) (handled_by k (fd_handled y) @ handled_by k new) (cp_pc (snd p))"
      if "order_ok (accepted_by k (fd_accepted y)) (handled_by k (fd_handled y)) (cp_pc (fd_streams y ! k))"
      using pc that feed_record(3,7) by auto
  qed (use feed_record(1,7) in auto)
next
  case (feed_batch_end k b a p)
  have pc: "cp_pc (snd p) = CpRecv"
    using end_batch_log [OF assms(3) _ feed_batch_end(3), of "fst p" "snd p"] feed_batch_end(4) by simp
  show ?thesis
    by (rule feeds_ordered_set [OF assms(2) feed_batch_end(2), of _ "snd p" "[]" "[]"])
      (use feed_batch_end(1,3) pc in simp_all)
next
  case (feed_end k p)
  then have pc: "\<exists>x. cp_pc (snd p) = CpReturned x" by (auto simp: capture_eof_def capture_recv_error_def)
  show ?thesis
    by (rule feeds_ordered_set [OF assms(2) feed_end(2), of _ "snd p" "[]" "[]"])
      (use feed_end(1) pc order_ok_returned in auto)
next
  case (feed_cancel k b a r rs p)
  then have pc: "\<exists>x. cp_pc (snd p) = CpReturned x" by (auto simp: capture_cancel_def)
  show ?thesis
    by (rule feeds_ordered_set [OF assms(2) feed_cancel(2), of _ "snd p" "[]" "[]"])
      (use feed_cancel(1) pc order_ok_returned in auto)
qed (use assms(2) in \<open>simp_all add: feeds_ordered_def\<close>)

section \<open>The subscriber\<close>

text \<open>
  The log at \<open>l\<close>: the subscriber got what was published, up to the moment it was
  unsubscribed, was sent what it took of it, and has taken all of it when its stream ended.
\<close>

definition log_feeds :: "string \<Rightarrow> record_kind list \<Rightarrow> nat \<Rightarrow> feeds \<Rightarrow> capture_record packet_log \<Rightarrow> bool" where
  "log_feeds sid kinds i y l \<longleftrightarrow> pl_ok l \<and> i < pl_next_id l \<and>
     (\<exists>missed. feed_published sid (fd_handled y) = pl_got l i @ missed \<and> (i \<in> set (pl_subs l) \<longrightarrow> missed = [])) \<and>
     fd_sent y = filter (\<lambda>r. record_matches_filter r kinds) (pl_taken l i) \<and>
     (fd_ended y \<longrightarrow> i \<notin> set (pl_subs l) \<and> pl_taken l i = pl_got l i)"

definition feeds_logged :: "string \<Rightarrow> record_kind list \<Rightarrow> nat \<Rightarrow> feeds \<Rightarrow> bool" where
  "feeds_logged sid kinds i y \<longleftrightarrow> hub_ok (fd_hub y) \<and>
     (\<exists>l. hub_log sid (fd_hub y) = Some l \<and> log_feeds sid kinds i y l)"

text \<open>What the steps do to the log and the lists, one way or the other.\<close>

definition log_step :: "string \<Rightarrow> record_kind list \<Rightarrow> nat \<Rightarrow> feeds \<Rightarrow> feeds \<Rightarrow> capture_record packet_log \<Rightarrow> capture_record packet_log \<Rightarrow> bool" where
  "log_step sid kinds i y z l l' \<longleftrightarrow> log_feeds sid kinds i z l' \<and> (\<exists>new. fd_handled z = fd_handled y @ new) \<and>
     (\<exists>more. pl_got l' i = pl_got l i @ more)"

lemma log_step_kept:
  assumes "log_feeds sid kinds i y l" "log_kept i l l'"
    and "fd_handled z = fd_handled y" "fd_sent z = fd_sent y" "fd_ended z = fd_ended y"
  shows "log_step sid kinds i y z l l'"
  using assms by (auto simp: log_step_def log_feeds_def log_kept_def)

lemma log_step_record:
  assumes "log_feeds sid kinds i y (ss_packets s)" "publish_or_skip a r s = Some (Inr u, l')"
    and "fd_handled z = fd_handled y @ [(k, sid, a, r)]" "fd_sent z = fd_sent y" "fd_ended z = fd_ended y"
  shows "log_step sid kinds i y z (ss_packets s) l'"
proof -
  let ?l = "ss_packets s" and ?new = "if assigned_target a (capture_record_pod r) \<noteq> None then [r] else []"
  obtain missed where l: "pl_ok ?l" "i < pl_next_id ?l" "feed_published sid (fd_handled y) = pl_got ?l i @ missed"
    "i \<in> set (pl_subs ?l) \<longrightarrow> missed = []"
    using assms(1) by (auto simp: log_feeds_def)
  note P = publish_log [OF assms(2) l(1,2)]
  have pub: "feed_published sid (fd_handled z) = pl_got ?l i @ missed @ ?new" using l(3) assms(3) by simp
  have "\<exists>missed. feed_published sid (fd_handled z) = pl_got l' i @ missed \<and> (i \<in> set (pl_subs l') \<longrightarrow> missed = [])"
  proof (cases "i \<in> set (pl_subs ?l)")
    case True
    with pub P l(4) show ?thesis by (intro exI [of _ "[]"]) simp
  next
    case False
    with pub P show ?thesis by (intro exI [of _ "missed @ ?new"]) simp
  qed
  moreover have "\<exists>more. pl_got l' i = pl_got ?l i @ more" using P by simp
  ultimately show ?thesis using P assms(1,3-5) by (simp add: log_step_def log_feeds_def)
qed

lemma log_step_other_record:
  assumes "log_feeds sid kinds i y l" "fd_handled z = fd_handled y @ new" "feed_published sid new = []"
    and "fd_sent z = fd_sent y" "fd_ended z = fd_ended y"
  shows "log_step sid kinds i y z l l"
  using assms by (auto simp: log_step_def log_feeds_def)

lemma log_step_take:
  assumes "log_feeds sid kinds i y l" "subscribe_packets_rounds kinds i [SelectRecord] l = (out, res, l')"
    and "fd_handled z = fd_handled y" "fd_sent z = fd_sent y @ out" "\<not> fd_ended z"
  shows "log_step sid kinds i y z l l'"
proof (cases "pl_receive i l")
  case None
  with assms show ?thesis by (auto simp: log_step_def log_feeds_def simp del: record_matches_filter.simps)
next
  case (Some p)
  obtain r l1 where p: "p = (r, l1)" by (cases p)
  have "pl_ok l" using assms(1) by (simp add: log_feeds_def)
  note R = receive_log [OF Some [unfolded p] this]
  have "l' = l1" "out = (if record_matches_filter r kinds then [r] else [])"
    using assms(2) Some p by (auto simp del: record_matches_filter.simps)
  with R assms show ?thesis by (auto simp: log_step_def log_feeds_def simp del: record_matches_filter.simps)
qed

lemma log_step_unsubscribed:
  assumes "log_feeds sid kinds i y l" "subscribe_packets_rounds kinds i [SelectUnsubscribed] l = (out, res, l')"
    and "fd_handled z = fd_handled y" "fd_sent z = fd_sent y @ out" "sub_done i l"
  shows "log_step sid kinds i y z l l'"
proof -
  obtain s where s: "map_of (pl_store l) i = Some s" "pks_done s"
    using assms(5) by (auto simp: sub_done_def split: option.splits)
  have ok: "pl_ok l" using assms(1) by (simp add: log_feeds_def)
  have d: "drain_packets kinds i packet_chan_cap l = (out, l')" using assms(2) by (auto split: prod.splits)
  have "i \<notin> set (pl_subs l)" using pl_ok_sub [OF ok s(1)] s(2) by (simp add: sub_ok_def)
  with drain_log [OF d ok] drain_all_taken [OF d ok] assms(1,3,4) show ?thesis
    by (auto simp: log_step_def log_feeds_def simp del: record_matches_filter.simps)
qed

lemma feed_step_logged:
  assumes "feed_step sid kinds i y z" "hub_ok (fd_hub y)" "hub_log sid (fd_hub y) = Some l" "log_feeds sid kinds i y l"
  shows "hub_ok (fd_hub z) \<and> (\<exists>l'. hub_log sid (fd_hub z) = Some l' \<and> log_step sid kinds i y z l l')"
proof -
  have l: "pl_ok l" "i < pl_next_id l" using assms(4) by (simp_all add: log_feeds_def)
  note same = log_step_kept [OF assms(4) log_kept_refl [OF l]]
  show ?thesis
    using assms(1)
  proof cases
    case feed_open
    with same assms(2,3) show ?thesis by simp
  next
    case (feed_batch k p pod md b new)
    with capture_recv_log [OF assms(2), of pod md b "fd_streams y ! k" sid] same assms(3) show ?thesis by simp
  next
    case (feed_record k b a r rs s res l1 p new)
    note R = record_log [OF assms(2) _ feed_record(3,4,5), of "fst p" "snd p" sid]
    show ?thesis
    proof (cases "sid = cb_session_id b \<and> res = Inr ()")
      case True
      with feed_record(4) assms(3) have s: "ss_packets s = l" by (simp add: hub_log_def)
      have "log_step sid kinds i y z l l1"
        unfolding s [symmetric]
        by (rule log_step_record [of sid kinds i y s a r "()" l1 z k])
          (use feed_record(1,5,7) True assms(4) s in simp_all)
      with R feed_record(1,6) True show ?thesis by simp
    next
      case False
      have "log_step sid kinds i y z l l"
        by (rule log_step_other_record [OF assms(4), of z new]) (use feed_record(1,7) False in auto)
      with R feed_record(1,6) False assms(3) show ?thesis by auto
    qed
  next
    case (feed_batch_end k b a p)
    with end_batch_log [OF assms(2) _ feed_batch_end(3), of "fst p" "snd p" sid] same assms(3) show ?thesis by simp
  next
    case (feed_end k p)
    with capture_return_log [OF assms(2), of _ "fd_streams y ! k" sid] same assms(3) show ?thesis
      by (auto simp: capture_eof_def capture_recv_error_def)
  next
    case (feed_cancel k b a r rs p)
    with capture_return_log [OF assms(2), of _ "fd_streams y ! k" sid] same assms(3) show ?thesis
      by (simp add: capture_cancel_def)
  next
    case (feed_take s out res l')
    with assms(3) have s: "ss_packets s = l" by (simp add: hub_log_def)
    have "log_step sid kinds i y z l l'"
      by (rule log_step_take [OF assms(4), of out res]) (use feed_take s in simp_all)
    with feed_take(1) hub_ok_id [OF assms(2) feed_take(3)] hub_ok_store [OF assms(2)] show ?thesis
      by (simp add: hub_log_store)
  next
    case (feed_unsubscribed s out res l')
    with assms(3) have s: "ss_packets s = l" by (simp add: hub_log_def)
    have "log_step sid kinds i y z l l'"
      by (rule log_step_unsubscribed [OF assms(4), of out res]) (use feed_unsubscribed s in simp_all)
    with feed_unsubscribed(1) hub_ok_id [OF assms(2) feed_unsubscribed(3)] hub_ok_store [OF assms(2)] show ?thesis
      by (simp add: hub_log_store)
  next
    case (feed_other h)
    from hub_other_log [OF feed_other(2) assms(2,3) l] obtain l' where
      l': "hub_ok h" "hub_log sid h = Some l'" "log_kept i l l'" by blast
    with log_step_kept [OF assms(4) l'(3), of z] feed_other(1) show ?thesis by simp
  qed
qed

section \<open>The properties\<close>

text \<open>Right after the subscription.\<close>

definition feeds_start :: "string \<Rightarrow> nat \<Rightarrow> feeds \<Rightarrow> bool" where
  "feeds_start sid i y \<longleftrightarrow> y = feeds_init (fd_hub y) \<and> hub_ok (fd_hub y) \<and>
     (case hub_log sid (fd_hub y) of
        None \<Rightarrow> False
      | Some l \<Rightarrow> pl_ok l \<and> i \<in> set (pl_subs l) \<and> pl_got l i = [])"

lemma subscription_starts:
  assumes "hub_ok h0" "get_session sid h0 = Some s0" "pl_ok (ss_packets s0)"
    and "subscribe_packets_begin sid h0 = Inr (i, h)"
  shows "feeds_start sid i (feeds_init h)"
proof -
  obtain l where l: "pl_subscribe (ss_packets s0) = Some (i, l)" "h = store_session (s0\<lparr>ss_packets := l\<rparr>) h0"
    using assms(2,4) by (auto simp: subscribe_packets_begin_def split: option.splits)
  have "ss_id s0 = sid" by (rule hub_ok_id [OF assms(1) get_session_deref [OF assms(2)]])
  with l(2) have "hub_log sid h = Some l" by (simp add: hub_log_store)
  moreover have "pl_got l i = []" "i \<in> set (pl_subs l)"
    using pl_subscribe_SomeD [OF l(1)] by (simp_all add: pl_got_def make_chan_def)
  ultimately show ?thesis
    using pl_ok_subscribe [OF assms(3) l(1)] hub_ok_store [OF assms(1)] l(2)
    by (simp add: feeds_start_def feeds_init_def)
qed

definition feeds_inv :: "string \<Rightarrow> record_kind list \<Rightarrow> nat \<Rightarrow> feeds \<Rightarrow> bool" where
  "feeds_inv sid kinds i y \<longleftrightarrow> feeds_ordered y \<and> feeds_logged sid kinds i y"

lemma feeds_inv_start:
  assumes "feeds_start sid i y"
  shows "feeds_inv sid kinds i y"
proof -
  have y: "y = feeds_init (fd_hub y)" "hub_ok (fd_hub y)" using assms by (simp_all add: feeds_start_def)
  obtain l where l: "hub_log sid (fd_hub y) = Some l" "pl_ok l" "i \<in> set (pl_subs l)" "pl_got l i = []"
    using assms by (auto simp: feeds_start_def split: option.splits)
  have "pl_taken l i = []" using l(4) pl_taken_prefix [of l i] by simp
  then have log: "log_feeds sid kinds i (feeds_init h) l" for h
    using l pl_ok_less [OF l(2,3)] by (simp add: log_feeds_def feeds_init_def)
  have order: "feeds_ordered (feeds_init h)" for h by (simp add: feeds_ordered_def feeds_init_def)
  show ?thesis
    using log [of "fd_hub y", folded y(1)] order [of "fd_hub y", folded y(1)] l(1) y(2)
    unfolding feeds_inv_def feeds_logged_def by blast
qed

lemma feeds_inv_step: "feeds_inv sid kinds i y \<Longrightarrow> feed_step sid kinds i y z \<Longrightarrow> feeds_inv sid kinds i z"
  using feed_step_ordered [of sid kinds i y z] feed_step_logged [of sid kinds i y z]
  unfolding feeds_inv_def feeds_logged_def log_step_def by blast

interpretation feed_sys: invariant_system "feeds_start sid i" "feed_step sid kinds i" "feeds_inv sid kinds i"
  for sid kinds i
  by unfold_locales (auto intro: feeds_inv_start feeds_inv_step)

lemma feed_steps_grow:
  assumes "(feed_step sid kinds i)\<^sup>*\<^sup>* y z" "feeds_inv sid kinds i y" "hub_log sid (fd_hub y) = Some l"
  shows "\<exists>l' more. hub_log sid (fd_hub z) = Some l' \<and> pl_got l' i = pl_got l i @ more"
  using assms
proof (induction rule: rtranclp_induct)
  case (step u z)
  then obtain l1 more where l1: "hub_log sid (fd_hub u) = Some l1" "pl_got l1 i = pl_got l i @ more" by blast
  have "feeds_logged sid kinds i u"
    using feed_sys.steps_inv [OF step(1) step.prems(1)] by (simp add: feeds_inv_def)
  with feed_step_logged [OF step(2)] l1 show ?case by (fastforce simp: feeds_logged_def log_step_def)
qed simp

text \<open>
  C1. Whatever else the hub does - other agents and subscribers, targets attached and detached,
  sessions stopped, failed or removed - a subscriber of packets is sent, in the order of
  publication and each once, only records of pods assigned when their batch was accepted, and
  each agent's records keep the order in which the agent sent them, none left out between.
\<close>

theorem feeds_merge_in_order:
  assumes "hub_ok h0" "get_session sid h0 = Some s0" "pl_ok (ss_packets s0)"
    and "subscribe_packets_begin sid h0 = Inr (i, h)" "(feed_step sid kinds i)\<^sup>*\<^sup>* (feeds_init h) y"
  shows "(\<exists>n. fd_sent y = filter (\<lambda>r. record_matches_filter r kinds) (take n (feed_published sid (fd_handled y)))) \<and>
    (\<forall>k. \<exists>n. handled_by k (fd_handled y) = take n (accepted_by k (fd_accepted y)))"
proof -
  have inv: "feeds_inv sid kinds i y"
    by (rule feed_sys.reachable_inv [OF subscription_starts [OF assms(1-4)] assms(5)])
  then obtain l missed where l: "fd_sent y = filter (\<lambda>r. record_matches_filter r kinds) (pl_taken l i)"
    "feed_published sid (fd_handled y) = pl_got l i @ missed"
    by (auto simp: feeds_inv_def feeds_logged_def log_feeds_def)
  have "length (pl_taken l i) \<le> length (pl_got l i)" using pl_got_length [of l i] by simp
  then have "pl_taken l i = take (length (pl_taken l i)) (feed_published sid (fd_handled y))"
    using l(2) pl_taken_prefix [of l i] by simp
  with l(1) have "\<exists>n. fd_sent y = filter (\<lambda>r. record_matches_filter r kinds) (take n (feed_published sid (fd_handled y)))"
    by metis
  moreover have "\<exists>n. handled_by k (fd_handled y) = take n (accepted_by k (fd_accepted y))" for k
  proof (cases "k < length (fd_streams y)")
    case True
    then have "order_ok (accepted_by k (fd_accepted y)) (handled_by k (fd_handled y)) (cp_pc (fd_streams y ! k))"
      using inv by (simp add: feeds_inv_def feeds_ordered_def)
    from order_ok_prefix [OF this] show ?thesis ..
  next
    case False
    then show ?thesis using inv by (simp add: feeds_inv_def feeds_ordered_def)
  qed
  ultimately show ?thesis by blast
qed

text \<open>
  C38. Stopping a session loses no record: everything that was published while a subscription
  lasted has been sent to the subscriber when its stream ends because the session's log was
  closed, however the closing falls between its steps.
\<close>

theorem stop_loses_nothing:
  assumes "hub_ok h0" "get_session sid h0 = Some s0" "pl_ok (ss_packets s0)"
    and "subscribe_packets_begin sid h0 = Inr (i, h)" "(feed_step sid kinds i)\<^sup>*\<^sup>* (feeds_init h) y"
    and "hub_log sid (fd_hub y) = Some l" "i \<in> set (pl_subs l)"
    and "(feed_step sid kinds i)\<^sup>*\<^sup>* y z" "fd_ended z"
  shows "\<exists>more. fd_sent z = filter (\<lambda>r. record_matches_filter r kinds) (feed_published sid (fd_handled y) @ more)"
proof -
  have inv: "feeds_inv sid kinds i y"
    by (rule feed_sys.reachable_inv [OF subscription_starts [OF assms(1-4)] assms(5)])
  then have got: "pl_got l i = feed_published sid (fd_handled y)"
    using assms(6,7) by (auto simp: feeds_inv_def feeds_logged_def log_feeds_def)
  from feed_steps_grow [OF assms(8) inv assms(6)] obtain l' more where
    l': "hub_log sid (fd_hub z) = Some l'" "pl_got l' i = pl_got l i @ more" by blast
  have "feeds_logged sid kinds i z"
    using feed_sys.steps_inv [OF assms(8) inv] by (simp add: feeds_inv_def)
  with l'(1) assms(9) have "fd_sent z = filter (\<lambda>r. record_matches_filter r kinds) (pl_got l' i)"
    by (auto simp: feeds_logged_def log_feeds_def)
  with l'(2) got show ?thesis by auto
qed

section \<open>Examples\<close>

text \<open>The session is stopped: its log is closed and the subscriber's stream ends.\<close>

lemma feed_can_end:
  assumes "feeds_inv sid kinds i y" "\<not> fd_ended y" "hub_log sid (fd_hub y) = Some l" "i \<in> set (pl_subs l)" "\<not> pl_closed l"
  shows "\<exists>z. (feed_step sid kinds i)\<^sup>*\<^sup>* y z \<and> fd_ended z"
proof -
  obtain s where s: "deref_session sid (fd_hub y) = Some s" "ss_packets s = l"
    using assms(3) by (auto simp: hub_log_def)
  have ok: "hub_ok (fd_hub y)" "pl_ok l"
    using assms(1,3) by (auto simp: feeds_inv_def feeds_logged_def log_feeds_def)
  let ?t = "close_session_packets True s"
  let ?y = "y\<lparr>fd_hub := store_session ?t (fd_hub y)\<rparr>"
  have step: "feed_step sid kinds i y ?y" by (intro feed_other ho_close [OF s(1)])
  obtain m where m: "ss_packets ?t = notify_locked m"
    "dropped (set (pl_subs l)) (notify_locked (l\<lparr>pl_closed := True\<rparr>)) m"
    using close_packets_drops [OF ok(2) assms(5), of True] close_session_packets_log [of True s] s(2) by auto
  obtain u where "map_of (pl_store l) i = Some u" using pl_ok_in_store [OF ok(2) assms(4)] by blast
  with dropped_dom [OF m(2), of i] obtain v where v: "map_of (pl_store m) i = Some v" by auto
  have "pl_ok m" "i \<notin> set (pl_subs m)" using m(2) assms(4) by (auto simp: dropped_def)
  with pl_ok_sub [OF _ v] have "pks_done v" by (simp add: sub_ok_def)
  with v have dn: "sub_done i (ss_packets ?t)" unfolding m(1) by (simp add: sub_done_def)
  obtain out res l' where out: "subscribe_packets_rounds kinds i [SelectUnsubscribed] (ss_packets ?t) = (out, res, l')"
    by (cases "subscribe_packets_rounds kinds i [SelectUnsubscribed] (ss_packets ?t)") auto
  have "deref_session sid (fd_hub ?y) = Some ?t"
    using hub_ok_id [OF ok(1) s(1)] close_session_packets_log [of True s] by (simp add: store_session_def deref_session_def)
  from feed_unsubscribed [of ?y, OF _ this dn out] assms(2) obtain z where
    "feed_step sid kinds i ?y z" "fd_ended z" by force
  with step show ?thesis by (meson r_into_rtranclp rtranclp.rtrancl_into_rtrancl)
qed

definition demo_unwatched_hub :: hub where
  "demo_unwatched_hub = put_session demo_session empty_hub"

lemma demo_subscription:
  "hub_ok demo_unwatched_hub" "get_session ''s1'' demo_unwatched_hub = Some demo_session"
  "ss_packets demo_session = new_packet_log"
  "subscribe_packets_begin ''s1'' demo_unwatched_hub = Inr (0, demo_hub)"
proof -
  show "hub_ok demo_unwatched_hub" using hub_ok_put [OF hub_ok_empty] by (simp add: demo_unwatched_hub_def)
  show g: "get_session ''s1'' demo_unwatched_hub = Some demo_session"
    by (simp add: demo_unwatched_hub_def get_session_def put_session_def store_session_def deref_session_def
        demo_session_simps)
  show p: "ss_packets demo_session = new_packet_log"
    by (simp add: demo_session_def record_agent_def notify_assign_locked_def demo_new_def new_session_state_def)
  show "subscribe_packets_begin ''s1'' demo_unwatched_hub = Inr (0, demo_hub)"
    using g p
    by (simp add: pl_subscribe_new subscribe_packets_begin_def demo_hub_def demo_live_def demo_unwatched_hub_def put_session_def
        store_session_def demo_session_simps empty_hub_def)
qed

text \<open>One agent opens its stream and sends \<open>demo_batch\<close>; its first record is published.\<close>

lemma demo_feed:
  "\<exists>y l. (feed_step ''s1'' kinds 0)\<^sup>*\<^sup>* (feeds_init demo_hub) y \<and> \<not> fd_ended y \<and>
     hub_log ''s1'' (fd_hub y) = Some l \<and> 0 \<in> set (pl_subs l) \<and> \<not> pl_closed l \<and>
     feed_published ''s1'' (fd_handled y) = [Session_Facts.demo_wire 1] \<and>
     accepted_by 0 (fd_accepted y) = [Session_Facts.demo_wire 1, Session_Facts.demo_wire 2] \<and>
     handled_by 0 (fd_handled y) = [Session_Facts.demo_wire 1]"
proof -
  let ?rs = "[Session_Facts.demo_wire 1, Session_Facts.demo_wire 2]"
  let ?y0 = "relay_init demo_hub [demo_batch]"
  have b: "cb_records demo_batch = ?rs" "cb_session_id demo_batch = ''s1''" by (simp_all add: demo_batch_def)
  have of_b: "list_all (batch_of demo_assignment) [demo_batch]"
    by (simp add: batch_of_def demo_ids demo_batch_def record_acceptable_def Session_Facts.demo_wire_def
        published_def assigned_target_def demo_assignment_def demo_ref_def)
  have seq: "consecutive 0 (frames ?rs)" by (simp add: frames_def Session_Facts.demo_wire_def)
  have at0: "relay_at demo_assignment ''agent-0'' kinds 0 ?rs [] [] [] ?y0"
    using relay_start [OF demo_hub_at demo_serves of_b, of kinds] b by simp
  have y0: "ry_stream ?y0 = new_capture_stream" "ry_todo ?y0 = [demo_batch]" "ry_hub ?y0 = demo_hub"
    "cp_pc new_capture_stream = CpRecv"
    by (simp_all add: relay_init_def new_capture_stream_def)
  obtain z where z: "relay_step demo_assignment ''agent-0'' kinds 0 RyBatch ?y0 = Some z"
    "relay_at demo_assignment ''agent-0'' kinds 0 ?rs [] ?rs [] z"
    using relay_batch_step [OF at0 seq _ y0(2)] y0(1,4) b by auto
  let ?p = "capture_recv ''agent-0'' ''str1'' demo_batch demo_hub new_capture_stream"
  have p: "?p = (ry_hub z, ry_stream z)" using z(1) y0 by (auto simp: demo_ids split: prod.splits)
  obtain s c where s: "deref_session ''s1'' (ry_hub z) = Some s"
    "session_serves demo_assignment ''agent-0'' 0 c [] [] s" "stream_at demo_assignment c 0 ?rs (ry_todo z) (ry_stream z)"
    using z(2) get_session_deref by (auto simp: relay_at_def demo_ids)
  have "\<exists>a. cp_pc (ry_stream z) = CpRecords demo_batch a ?rs"
    using capture_recv_pc [of "''agent-0''" "''str1''" demo_batch demo_hub new_capture_stream] s(3) p b
    by (auto simp: stream_at_def)
  then have pc: "cp_pc (ry_stream z) = CpRecords demo_batch (Some demo_assignment) ?rs"
    using s(3) by (auto simp: stream_at_def)
  let ?u = "feeds_init demo_hub\<lparr>fd_streams := [new_capture_stream]\<rparr>"
  let ?v = "set_stream 0 ?p ?u\<lparr>fd_accepted := [(0, demo_batch)]\<rparr>"
  have 1: "feed_step ''s1'' kinds 0 (feeds_init demo_hub) ?u"
    using feed_open [of "''s1''" kinds 0 "feeds_init demo_hub"] by (simp add: feeds_init_def)
  have 2: "feed_step ''s1'' kinds 0 ?u ?v"
    using feed_batch [of 0 ?u ?p "''agent-0''" "''str1''" demo_batch "[(0, demo_batch)]" "''s1''" kinds 0] y0(4) p pc
    by (simp add: feeds_init_def)
  have v: "fd_hub ?v = ry_hub z" "fd_streams ?v = [ry_stream z]" "fd_handled ?v = []" "\<not> fd_ended ?v"
    "fd_accepted ?v = [(0, demo_batch)]"
    by (simp_all add: set_stream_def p feeds_init_def)
  have target: "assigned_target (Some demo_assignment) (capture_record_pod (Session_Facts.demo_wire 1)) \<noteq> None"
    by (simp add: assigned_target_def demo_assignment_def Session_Facts.demo_wire_def demo_ref_def)
  have one: "one_subscriber 0 [] [] (ss_packets s)" using s(2) by (simp add: session_serves_def published_def)
  obtain res l where pub: "publish_or_skip (Some demo_assignment) (Session_Facts.demo_wire 1) s = Some (res, l)"
    using one_subscriber_free [OF one, of "Session_Facts.demo_wire 1"] target by (auto simp: publish_or_skip_def)
  then have ok: "res = Inr ()" using one_subscriber_publish [OF one] target by (auto simp: publish_or_skip_def)
  obtain q where q: "capture_record_step (ry_hub z) (ry_stream z) = Some q"
    using pub ok pc s(1) b by (auto simp: capture_record_step_def)
  let ?w = "set_stream 0 q ?v\<lparr>fd_handled := [(0, ''s1'', Some demo_assignment, Session_Facts.demo_wire 1)]\<rparr>"
  have 3: "feed_step ''s1'' kinds 0 ?v ?w"
    using feed_record [of 0 ?v demo_batch "Some demo_assignment" "Session_Facts.demo_wire 1" "[Session_Facts.demo_wire 2]" s
        res l q _ "''s1''" kinds 0] v pc s(1) b pub ok q by simp
  have "relay_step demo_assignment ''agent-0'' kinds 0 RyRecord z = Some (z\<lparr>ry_hub := fst q, ry_stream := snd q\<rparr>)"
    using q by (cases q) simp
  from relay_record_step [OF z(2) seq this] obtain t where t: "get_session ''s1'' (fst q) = Some t"
    "one_subscriber 0 (published (Some demo_assignment) [Session_Facts.demo_wire 1]) [] (ss_packets t)"
    by (auto simp: relay_at_def demo_ids session_serves_def)
  show ?thesis
  proof (intro exI conjI)
    show "(feed_step ''s1'' kinds 0)\<^sup>*\<^sup>* (feeds_init demo_hub) ?w"
      using 1 2 3 by (meson r_into_rtranclp rtranclp.rtrancl_into_rtrancl)
    show "hub_log ''s1'' (fd_hub ?w) = Some (ss_packets t)"
      using get_session_deref [OF t(1)] by (simp add: set_stream_def hub_log_def)
    show "feed_published ''s1'' (fd_handled ?w) = [Session_Facts.demo_wire 1]"
      using target by (simp add: feed_published_def)
  qed (use t(2) in \<open>auto simp: one_subscriber_def pl_room_def set_stream_def feeds_init_def accepted_by_def
        handled_by_def b\<close>)
qed

text \<open>The record reaches the subscriber, although the session is stopped before it has taken it.\<close>

theorem feeds_merge_in_order_witness:
  "\<exists>y n. (feed_step ''s1'' [] 0)\<^sup>*\<^sup>* (feeds_init demo_hub) y \<and> fd_ended y \<and>
     fd_sent y = take n (feed_published ''s1'' (fd_handled y))"
proof -
  obtain y l where y: "(feed_step ''s1'' [] 0)\<^sup>*\<^sup>* (feeds_init demo_hub) y" "\<not> fd_ended y"
    "hub_log ''s1'' (fd_hub y) = Some l" "0 \<in> set (pl_subs l)" "\<not> pl_closed l"
    using demo_feed [of "[]"] by blast
  have ok: "pl_ok (ss_packets demo_session)" by (simp add: demo_subscription(3) pl_ok_new)
  have inv: "feeds_inv ''s1'' [] 0 y"
    by (rule feed_sys.reachable_inv [OF subscription_starts [OF demo_subscription(1,2) ok demo_subscription(4)] y(1)])
  obtain z where z: "(feed_step ''s1'' [] 0)\<^sup>*\<^sup>* y z" "fd_ended z"
    using feed_can_end [OF inv y(2-5)] by blast
  have "(feed_step ''s1'' [] 0)\<^sup>*\<^sup>* (feeds_init demo_hub) z" using y(1) z(1) by (rule rtranclp_trans)
  with feeds_merge_in_order [OF demo_subscription(1,2) ok demo_subscription(4) this] z(2) show ?thesis by auto
qed

theorem stop_loses_nothing_witness:
  "\<exists>y z l more. (feed_step ''s1'' [] 0)\<^sup>*\<^sup>* (feeds_init demo_hub) y \<and> fd_ended z \<and>
     (feed_step ''s1'' [] 0)\<^sup>*\<^sup>* y z \<and> hub_log ''s1'' (fd_hub y) = Some l \<and>
     fd_sent z = Session_Facts.demo_wire 1 # more"
proof -
  obtain y l where y: "(feed_step ''s1'' [] 0)\<^sup>*\<^sup>* (feeds_init demo_hub) y" "\<not> fd_ended y"
    "hub_log ''s1'' (fd_hub y) = Some l" "0 \<in> set (pl_subs l)" "\<not> pl_closed l"
    "feed_published ''s1'' (fd_handled y) = [Session_Facts.demo_wire 1]"
    using demo_feed [of "[]"] by blast
  have ok: "pl_ok (ss_packets demo_session)" by (simp add: demo_subscription(3) pl_ok_new)
  have inv: "feeds_inv ''s1'' [] 0 y"
    by (rule feed_sys.reachable_inv [OF subscription_starts [OF demo_subscription(1,2) ok demo_subscription(4)] y(1)])
  obtain z where z: "(feed_step ''s1'' [] 0)\<^sup>*\<^sup>* y z" "fd_ended z"
    using feed_can_end [OF inv y(2-5)] by blast
  from stop_loses_nothing [OF demo_subscription(1,2) ok demo_subscription(4) y(1,3,4) z] y(6)
  have "\<exists>more. fd_sent z = Session_Facts.demo_wire 1 # more" by simp
  with y(1,3) z show ?thesis by blast
qed

end
