(* ===== verification/Hub_Client.thy ===== *)
theory Hub_Client imports Agent_Hub begin

text \<open>
  \<open>pkg/agent/hubclient/client.go\<close> and the adapter of it in \<open>pkg/agent/runner.go\<close>: how the agent
  talks to the hub.  gRPC is \<open>grpc_hub\<close>: what each call answers to the outgoing metadata and the
  request it is given.  An error keeps its cause, as \<open>%w\<close> does, so that
  \<open>errors.Is(err, context.Canceled)\<close> still sees it.
\<close>

section \<open>The client\<close>

type_synonym metadata = "(string \<times> string) list"

datatype client_error =
    DialHub string go_err
  | WatchTargetsErr go_err
  | ReportStatusErr go_err
  | StreamCaptureErr go_err
  | SendBatchErr go_err
  | CaptureSummaryErr go_err

fun client_cause :: "client_error \<Rightarrow> go_err" where
  "client_cause (DialHub addr e) = e"
| "client_cause (WatchTargetsErr e) = e"
| "client_cause (ReportStatusErr e) = e"
| "client_cause (StreamCaptureErr e) = e"
| "client_cause (SendBatchErr e) = e"
| "client_cause (CaptureSummaryErr e) = e"

definition client_canceled :: "client_error \<Rightarrow> bool" where
  "client_canceled e = ge_canceled (client_cause e)"

record ('w, 's) grpc_hub =
  gh_new_client :: "string \<Rightarrow> go_err option"
  gh_watch_targets :: "metadata \<Rightarrow> targets_request \<Rightarrow> go_err + 'w"
  gh_report_status :: "metadata \<Rightarrow> status_report \<Rightarrow> go_err option"
  gh_stream_capture :: "metadata \<Rightarrow> go_err + 's"
  gh_conn_close :: "go_err option"

text \<open>A client has a connection, except the zero value.\<close>

record hub_client =
  hc_conn :: bool

definition dial_hub :: "('w, 's) grpc_hub \<Rightarrow> string \<Rightarrow> client_error + hub_client" where
  "dial_hub G hubAddr =
     (case gh_new_client G hubAddr of
        Some e \<Rightarrow> Inl (DialHub hubAddr e)
      | None \<Rightarrow> Inr \<lparr>hc_conn = True\<rparr>)"

definition client_close :: "('w, 's) grpc_hub \<Rightarrow> hub_client \<Rightarrow> go_err option" where
  "client_close G c = (if \<not> hc_conn c then None else gh_conn_close G)"

definition client_watch_targets ::
    "('w, 's) grpc_hub \<Rightarrow> metadata \<Rightarrow> string \<Rightarrow> string \<Rightarrow> string \<Rightarrow> string \<Rightarrow> client_error + 'w" where
  "client_watch_targets G md sessionID node agentPod streamID =
     (case gh_watch_targets G (with_agent_identity agentPod streamID md)
             \<lparr>tr_session_id = sessionID, tr_node = node, tr_agent_pod = agentPod\<rparr> of
        Inl e \<Rightarrow> Inl (WatchTargetsErr e)
      | Inr stream \<Rightarrow> Inr stream)"

definition client_report_status ::
    "('w, 's) grpc_hub \<Rightarrow> metadata \<Rightarrow> status_report \<Rightarrow> string \<Rightarrow> client_error option" where
  "client_report_status G md req agentPod =
     (case gh_report_status G (with_agent_identity agentPod (sr_stream_id req) md) req of
        Some e \<Rightarrow> Some (ReportStatusErr e)
      | None \<Rightarrow> None)"

definition client_stream_capture ::
    "('w, 's) grpc_hub \<Rightarrow> metadata \<Rightarrow> string \<Rightarrow> string \<Rightarrow> client_error + 's" where
  "client_stream_capture G md agentPod streamID =
     (case gh_stream_capture G (with_agent_identity agentPod streamID md) of
        Inl e \<Rightarrow> Inl (StreamCaptureErr e)
      | Inr stream \<Rightarrow> Inr stream)"

text \<open>\<open>SendBatch\<close> on what \<open>stream.Send\<close> returned.\<close>

definition send_batch_result :: "go_err option \<Rightarrow> client_error option" where
  "send_batch_result sent = (case sent of Some e \<Rightarrow> Some (SendBatchErr e) | None \<Rightarrow> None)"

text \<open>
  \<open>CloseCapture\<close>: what \<open>CloseAndRecv\<close> returned is a summary, \<open>io.EOF\<close> or another error; at the
  end of the stream there is no summary and no error.
\<close>

datatype 'm close_recv = Summary 'm | CloseEOF | CloseFailed go_err

definition close_capture :: "'m close_recv \<Rightarrow> client_error + 'm option" where
  "close_capture r =
     (case r of
        Summary m \<Rightarrow> Inr (Some m)
      | CloseEOF \<Rightarrow> Inr None
      | CloseFailed e \<Rightarrow> Inl (CaptureSummaryErr e))"

section \<open>Connecting\<close>

text \<open>\<open>NewRunner\<close>: an own way to dial is kept, otherwise the runner dials with this client.\<close>

record ('w, 's) runner_options =
  ro_config :: config
  ro_has_resolver :: bool
  ro_has_capturer :: bool
  ro_has_tls :: bool
  ro_dial :: "(string \<Rightarrow> client_error + hub_client) option"

definition new_runner :: "('w, 's) grpc_hub \<Rightarrow> ('w, 's) runner_options \<Rightarrow> ('w, 's) runner_options" where
  "new_runner G opts =
     (case ro_dial opts of
        None \<Rightarrow> opts\<lparr>ro_dial := Some (dial_hub G)\<rparr>
      | Some d \<Rightarrow> opts)"

text \<open>
  The first half of \<open>Run\<close> through the client, in its order: what is checked, dialled, watched,
  received (\<open>recv\<close>, on the stream of the watch) and opened.  The result carries the capture
  stream and the first assignment.
\<close>

datatype connect_error =
    ConnectConfig "config_error list" | ConnectResolver | ConnectCapturer
  | ConnectClient client_error | ConnectRecv go_err | ConnectAssignment assignment_error

definition connect_hub ::
    "('w, 's) grpc_hub \<Rightarrow> ('w \<Rightarrow> go_err + agent_assignment option) \<Rightarrow> ('w, 's) runner_options
       \<Rightarrow> connect_error + 's \<times> agent_assignment option" where
  "connect_hub G recv opts =
     (let cfg = ro_config opts in
      if config_validate cfg \<noteq> [] then Inl (ConnectConfig (config_validate cfg))
      else if \<not> ro_has_resolver opts then Inl ConnectResolver
      else if \<not> ro_has_capturer opts then Inl ConnectCapturer
      else case (case ro_dial (new_runner G opts) of Some dial \<Rightarrow> dial | None \<Rightarrow> dial_hub G) (cf_hub_addr cfg) of
        Inl e \<Rightarrow> Inl (ConnectClient e)
      | Inr client \<Rightarrow>
      (case client_watch_targets G [] (cf_session_id cfg) (cf_node cfg) (cf_agent_pod cfg) (cf_stream_id cfg) of
         Inl e \<Rightarrow> Inl (ConnectClient e)
       | Inr watch \<Rightarrow>
      (case recv watch of
         Inl e \<Rightarrow> Inl (ConnectRecv e)
       | Inr assignment \<Rightarrow>
      (case validate_assignment cfg assignment of
         Some e \<Rightarrow> Inl (ConnectAssignment e)
       | None \<Rightarrow>
      (case client_stream_capture G [] (cf_agent_pod cfg) (cf_stream_id cfg) of
         Inl e \<Rightarrow> Inl (ConnectClient e)
       | Inr stream \<Rightarrow> Inr (stream, assignment))))))"

section \<open>The client and the hub\<close>

text \<open>gRPC delivers the outgoing metadata: each key with the values appended for it.\<close>

definition delivers :: "(metadata \<Rightarrow> string \<Rightarrow> string list) \<Rightarrow> bool" where
  "delivers incoming \<longleftrightarrow> (\<forall>md k. incoming md k = map snd (filter (\<lambda>(x, _). x = k) md))"

lemma client_identity:
  assumes "delivers incoming"
  shows "incoming_agent_identity (incoming (with_agent_identity pod sid []) AgentPodMetadataKey)
    (incoming (with_agent_identity pod sid []) AgentStreamMetadataKey) = (pod, sid)"
  using assms by (simp add: delivers_def with_agent_identity_def incoming_agent_identity_def
      AgentPodMetadataKey_def AgentStreamMetadataKey_def)

text \<open>The hub's side of \<open>WatchTargets\<close> on the states the session goes through: what it sends.\<close>

definition serve_watch ::
    "(metadata \<Rightarrow> string \<Rightarrow> string list) \<Rightarrow> session list \<Rightarrow> metadata \<Rightarrow> targets_request \<Rightarrow> agent_assignment list" where
  "serve_watch incoming ss md req =
     (case incoming_agent_identity (incoming md AgentPodMetadataKey) (incoming md AgentStreamMetadataKey) of
        (pod, sid) \<Rightarrow> watch_targets_run req pod sid ss TgIdentity)"

definition recv_first :: "agent_assignment list \<Rightarrow> go_err + agent_assignment option" where
  "recv_first w = (case w of [] \<Rightarrow> Inl (GoErr ''EOF'' False) | a # _ \<Rightarrow> Inr (Some a))"

lemma watch_first_assignment:
  assumes "assignment_for (tr_node req) pod sid s = Inr a" "pod = tr_agent_pod req"
    "ss_state s = Session_Running" "wait_for_subscriber (ss_packets s) = WaitReady"
  shows "watch_targets_run req pod sid (replicate 5 s) TgIdentity = [a]"
  using assms by (simp add: numeral_eq_Suc wait_until_running_def)


section \<open>Examples\<close>

definition demo_agent_cfg :: config where
  "demo_agent_cfg = demo_config\<lparr>cf_agent_pod := ''agent-0''\<rparr>"

definition demo_options :: "(agent_assignment list, nat) runner_options" where
  "demo_options = \<lparr>ro_config = demo_agent_cfg, ro_has_resolver = True, ro_has_capturer = True,
     ro_has_tls = False, ro_dial = None\<rparr>"

definition demo_incoming :: "metadata \<Rightarrow> string \<Rightarrow> string list" where
  "demo_incoming md k = map snd (filter (\<lambda>(x, _). x = k) md)"

definition demo_grpc :: "(agent_assignment list, nat) grpc_hub" where
  "demo_grpc = \<lparr>gh_new_client = (\<lambda>_. None),
     gh_watch_targets = (\<lambda>md req. Inr (serve_watch demo_incoming (replicate 5 demo_live) md req)),
     gh_report_status = (\<lambda>_ _. None), gh_stream_capture = (\<lambda>_. Inr 7), gh_conn_close = None\<rparr>"

definition demo_tls_spec :: spec where
  "demo_tls_spec = demo_spec\<lparr>sp_bpf_filter := [], sp_tls_mode := TLSModeAuto, sp_snaplen := 262144\<rparr>"

lemma demo_assignment_built:
  "demo_assignment = build_assignment ''s1'' \<lparr>ng_node = ''n1'', ng_targets = [demo_ref]\<rparr> demo_tls_spec ''str1''"
  by (simp add: demo_assignment_def build_assignment_def demo_tls_spec_def)

lemma demo_group_found: "\<lparr>ng_node = ''n1'', ng_targets = [demo_ref]\<rparr> \<in> set (fst (group_by_node [demo_located]))"
  by (simp add: group_by_node_eq_spec group_spec_def scheduled_def firsts_def on_node_def
      demo_located_def pod_ref_from_pod_def demo_ref_def empty_pod_def)

lemma demo_agent_cfg_simps:
  "config_validate demo_agent_cfg = []" "cf_session_id demo_agent_cfg = ''s1''" "cf_node demo_agent_cfg = ''n1''"
  "cf_agent_pod demo_agent_cfg = ''agent-0''" "cf_stream_id demo_agent_cfg = ''str1''"
  using demo_config_valid unfolding config_validate_Nil_iff by (simp_all add: demo_agent_cfg_def demo_config_def)


end
