(* ===== verification/Log_Handler.thy ===== *)
theory Log_Handler imports Log_Level begin

text \<open>
  The loggers of \<open>pkg/log\<close>: what \<open>Init\<close> installs as the process-wide default and the
  \<open>delegateHandler\<close> behind every \<open>WithComponent\<close> logger, which looks the default up when it logs.
  A handler of \<open>slog\<close> is its minimum level, its format and its writer; a log entry is the
  level, the message and the attributes in order.
\<close>

section \<open>Init\<close>

text \<open>A level that is not set is \<open>None\<close>, a writer that is not set too.\<close>

record 'w log_config =
  lc_level :: "level option"
  lc_writer :: "'w option"
  lc_json :: bool

definition to_slog_level :: "level \<Rightarrow> int" where
  "to_slog_level l = (if l = LevelDebug then - 4 else 0)"

record 'w slog_handler =
  sh_min :: int
  sh_json :: bool
  sh_writer :: 'w

definition log_init :: "'w \<Rightarrow> 'w log_config \<Rightarrow> 'w slog_handler" where
  "log_init stderr cfg =
     (let writer = (case lc_writer cfg of None \<Rightarrow> stderr | Some w \<Rightarrow> w);
          level = (case lc_level cfg of None \<Rightarrow> LevelInfo | Some l \<Rightarrow> l) in
      \<lparr>sh_min = to_slog_level level, sh_json = lc_json cfg, sh_writer = writer\<rparr>)"

definition init_default_from_env :: "'w \<Rightarrow> string \<Rightarrow> level_error + 'w slog_handler" where
  "init_default_from_env stderr env =
     (case init_from_env env of
        Inl e \<Rightarrow> Inl e
      | Inr l \<Rightarrow> Inr (log_init stderr \<lparr>lc_level = Some l, lc_writer = None, lc_json = False\<rparr>))"

section \<open>Component loggers\<close>

type_synonym log_attr = "string \<times> string"

record log_entry =
  le_level :: int
  le_message :: string
  le_attrs :: "log_attr list"

record delegate =
  dg_attrs :: "log_attr list"

definition with_component :: "string \<Rightarrow> delegate" where
  "with_component component = \<lparr>dg_attrs = [(''component'', component)]\<rparr>"

definition handler_enabled :: "'w slog_handler \<Rightarrow> int \<Rightarrow> bool" where
  "handler_enabled h l = (sh_min h \<le> l)"

definition delegate_enabled :: "'w slog_handler \<Rightarrow> delegate \<Rightarrow> int \<Rightarrow> bool" where
  "delegate_enabled dflt d l = handler_enabled dflt l"

text \<open>\<open>Handle\<close>: what the default handler is given.\<close>

definition delegate_handle :: "delegate \<Rightarrow> log_entry \<Rightarrow> log_entry" where
  "delegate_handle d r =
     (if length (dg_attrs d) > 0 then r\<lparr>le_attrs := le_attrs r @ dg_attrs d\<rparr> else r)"

definition delegate_with_attrs :: "log_attr list \<Rightarrow> delegate \<Rightarrow> delegate" where
  "delegate_with_attrs attrs d = \<lparr>dg_attrs = dg_attrs d @ attrs\<rparr>"

definition delegate_with_group :: "string \<Rightarrow> delegate \<Rightarrow> delegate" where
  "delegate_with_group name d = \<lparr>dg_attrs = dg_attrs d\<rparr>"

text \<open>
  A program as far as its log goes: it installs a default or logs through a component logger;
  what is written, and by which handler.
\<close>

datatype 'w log_action = Install "'w log_config" | Log delegate log_entry

fun log_run :: "'w \<Rightarrow> 'w slog_handler \<Rightarrow> 'w log_action list \<Rightarrow> ('w slog_handler \<times> log_entry) list" where
  "log_run stderr dflt [] = []"
| "log_run stderr dflt (Install cfg # as) = log_run stderr (log_init stderr cfg) as"
| "log_run stderr dflt (Log d r # as) =
     (if delegate_enabled dflt d (le_level r) then [(dflt, delegate_handle d r)] else [])
     @ log_run stderr dflt as"

section \<open>Facts\<close>

lemma log_init_threshold:
  "handler_enabled (log_init stderr cfg) (to_slog_level l) \<longleftrightarrow> lc_level cfg = Some LevelDebug \<or> l = LevelInfo"
proof (cases "lc_level cfg")
  case None
  then show ?thesis by (cases l) (simp_all add: log_init_def handler_enabled_def to_slog_level_def)
next
  case (Some k)
  then show ?thesis by (cases l; cases k) (simp_all add: log_init_def handler_enabled_def to_slog_level_def)
qed

text \<open>
  A logger made before \<open>Init\<close> honours it: whatever the default was when the logger was made,
  after a configuration is installed every entry is written by that configuration's handler,
  debug entries only if it asks for them, with the component as the last attributes.
\<close>

lemma component_logger_follows_init:
  "log_run stderr dflt (Install cfg # map (\<lambda>(c, l, msg). Log (with_component c) \<lparr>le_level = to_slog_level l,
       le_message = msg, le_attrs = []\<rparr>) es) =
   map (\<lambda>(c, l, msg). (log_init stderr cfg, \<lparr>le_level = to_slog_level l, le_message = msg,
       le_attrs = [(''component'', c)]\<rparr>))
     (filter (\<lambda>(c, l, msg). lc_level cfg = Some LevelDebug \<or> l = LevelInfo) es)"
  by (induction es) (auto simp: delegate_enabled_def log_init_threshold delegate_handle_def with_component_def
      split: if_splits)

text \<open>A group is dropped: attributes added under it are written as if they were not.\<close>

lemma group_is_dropped:
  "delegate_handle (delegate_with_attrs as (delegate_with_group g d)) r = delegate_handle (delegate_with_attrs as d) r"
  by (simp add: delegate_with_group_def delegate_with_attrs_def)

end
