(* ===== verification/Tls_Fake.thy ===== *)
theory Tls_Fake imports Tls_Worker begin

text \<open>
  \<open>pkg/agent/tlsworker/fake.go\<close>: the worker that stands in for \<open>ecapture\<close> in tests.  Its channels
  are large enough for everything it sends, so that it stops early only where its context has
  ended: \<open>n\<close> is the number of events it sends before that.
\<close>

record fake_worker =
  fk_status :: worker_status
  fk_events :: "tls_event list"
  fk_err :: "string option"

definition fake_status :: "worker_status \<Rightarrow> worker_status" where
  "fake_status st = (if fst st = Tls_Unspecified then (Tls_Unsupported, ''fake tls worker'') else st)"

text \<open>
  The loop: the events sent, and the canned events afterwards - \<open>clone := ev\<close> copies a
  pointer, so that the pod is written to the canned event itself.
\<close>

fun fake_loop :: "pod_ref option \<Rightarrow> nat \<Rightarrow> tls_event list \<Rightarrow> tls_event list \<times> tls_event list" where
  "fake_loop pod n [] = ([], [])"
| "fake_loop pod n (ev # evs) =
     (let clone = (if te_pod ev = None then ev\<lparr>te_pod := pod\<rparr> else ev) in
      case n of
        0 \<Rightarrow> ([], clone # evs)
      | Suc m \<Rightarrow> (case fake_loop pod m evs of (sent, rest) \<Rightarrow> (clone # sent, clone # rest)))"

definition fake_attach ::
    "nat \<Rightarrow> tls_target \<Rightarrow> fake_worker \<Rightarrow> string + ((tls_event list \<times> worker_status list) \<times> fake_worker)" where
  "fake_attach n t f =
     (case fk_err f of
        Some e \<Rightarrow> Inl e
      | None \<Rightarrow>
          (case fake_loop (tt_pod t) n (fk_events f) of
             (sent, canned) \<Rightarrow> Inr ((sent, [fake_status (fk_status f)]), f\<lparr>fk_events := canned\<rparr>)))"

lemma fake_loop_all:
  assumes "length evs \<le> n"
  shows "fake_loop pod n evs = (let es = map (\<lambda>ev. if te_pod ev = None then ev\<lparr>te_pod := pod\<rparr> else ev) evs in (es, es))"
  using assms by (induction evs arbitrary: n) (auto simp: Let_def split: nat.split)

text \<open>
  The canned events are shared between attachments: what one target was given for its own pod
  is given to the next target with the first one's pod.
\<close>

lemma fake_keeps_first_pod:
  assumes "fk_err f = None" "length (fk_events f) \<le> n" "tt_pod t1 \<noteq> None"
    "list_all (\<lambda>ev. te_pod ev = None) (fk_events f)"
    "fake_attach n t1 f = Inr (out1, f1)" "fake_attach n t2 f1 = Inr (out2, f2)"
  shows "list_all (\<lambda>ev. te_pod ev = tt_pod t1) (fst out2)"
  using assms by (auto simp: fake_attach_def fake_loop_all Let_def list_all_iff)

end
