(* ===== verification/Tls_Process.thy ===== *)
theory Tls_Process imports Tls_Worker begin

text \<open>
  The goroutines \<open>ECapture.Attach\<close> of \<open>pkg/agent/tlsworker/ecapture.go\<close> starts for a running
  \<open>ecapture\<close>: one \<open>parseStream\<close> on each output, the one that closes \<open>parsed\<close> when both have
  returned, the one in \<open>cmd.Wait\<close>, and the main one with the \<open>select\<close> of \<open>worker_step\<close>.
  \<open>tls_step\<close> is one atomic action of one of them or of the child, \<open>None\<close> where it cannot
  happen now.  A scanner reads the pipe ahead by whole lines; stderr is copied to the exit
  buffer as it is read, not as it is written.
\<close>

section \<open>The goroutines\<close>

datatype out_stream = Stdout | Stderr

datatype parser_phase = Scanning | Flushing | ParserEnded

text \<open>One parser: the lines in its pipe, those its scanner holds, its record, what it has to send.\<close>

record line_parser =
  ps_pipe :: "string list"
  ps_held :: "string list"
  ps_cur :: "parsed_event option"
  ps_pending :: "parsed_event list"
  ps_phase :: parser_phase

definition new_parser :: line_parser where
  "new_parser = \<lparr>ps_pipe = [], ps_held = [], ps_cur = None, ps_pending = [], ps_phase = Scanning\<rparr>"

datatype child_state = ChildRunning | ChildExited "string option" | ChildReaped

text \<open>
  The main goroutine: in the \<open>select\<close>, sending an event, waiting in \<open>stopProcess\<close>, draining
  \<open>parsed\<close> after the exit (with its error) or after a stop, returned.
\<close>

datatype tls_pc = TlsLoop | TlsOffer parsed_event | TlsStop | TlsDrain "string option option" | TlsReturned

record tls_proc =
  tp_out :: line_parser
  tp_err :: line_parser
  tp_parsed :: "parsed_event list"
  tp_parsed_closed :: bool
  tp_parsed_nil :: bool
  tp_child :: child_state
  tp_wait_done :: "string option option"
  tp_ctx :: bool
  tp_cancelled :: bool
  tp_buffer :: limited_buffer
  tp_worker :: worker_state
  tp_pc :: tls_pc
  tp_panicked :: bool

definition parsed_cap :: nat where "parsed_cap = 64"

definition tls_boot :: tls_proc where
  "tls_boot = \<lparr>tp_out = new_parser, tp_err = new_parser, tp_parsed = [], tp_parsed_closed = False,
     tp_parsed_nil = False, tp_child = ChildRunning, tp_wait_done = None, tp_ctx = False,
     tp_cancelled = False, tp_buffer = \<lparr>lb_max = stderr_tail, lb_buf = []\<rparr>, tp_worker = worker_init,
     tp_pc = TlsLoop, tp_panicked = False\<rparr>"

text \<open>\<open>limitedBuffer.String\<close>.\<close>

definition limited_string :: "limited_buffer \<Rightarrow> string" where
  "limited_string b = lb_buf b"

section \<open>The actions\<close>

datatype tls_event_step =
    TpWrite out_stream string
  | TpExit "string option"
  | TpWaited
  | TpCtxDone
  | TpFill out_stream nat
  | TpScan out_stream int
  | TpSend out_stream
  | TpAbort out_stream
  | TpEof out_stream
  | TpEnd out_stream
  | TpCloseParsed
  | TmStop
  | TmExit
  | TmTake
  | TmParsedClosed
  | TmSent int
  | TmSendStop
  | TmStopped
  | TmDiscard
  | TmReturn

fun parser_of :: "out_stream \<Rightarrow> tls_proc \<Rightarrow> line_parser" where
  "parser_of Stdout s = tp_out s"
| "parser_of Stderr s = tp_err s"

fun set_parser :: "out_stream \<Rightarrow> line_parser \<Rightarrow> tls_proc \<Rightarrow> tls_proc" where
  "set_parser Stdout p s = s\<lparr>tp_out := p\<rparr>"
| "set_parser Stderr p s = s\<lparr>tp_err := p\<rparr>"

text \<open>The context of the parsers.\<close>

definition parse_cancelled :: "tls_proc \<Rightarrow> bool" where
  "parse_cancelled s = (tp_ctx s \<or> tp_cancelled s)"

text \<open>\<open>cmd.Wait\<close> closes the reading ends of the pipes once it has seen the exit.\<close>

definition pipes_closed :: "tls_proc \<Rightarrow> bool" where
  "pipes_closed s = (tp_child s = ChildReaped)"

text \<open>What the \<open>TeeReader\<close> copies when these lines are read.\<close>

definition tee_lines :: "out_stream \<Rightarrow> string list \<Rightarrow> limited_buffer \<Rightarrow> limited_buffer" where
  "tee_lines src ls b =
     (case src of Stdout \<Rightarrow> b | Stderr \<Rightarrow> limited_write (concat (map (\<lambda>l. l @ [newline]) ls)) b)"

fun parser_step :: "parse_lib \<Rightarrow> tls_event_step \<Rightarrow> tls_proc \<Rightarrow> tls_proc option" where
  "parser_step L (TpFill src k) s =
     (let p = parser_of src s in
      if ps_phase p = Scanning \<and> ps_held p = [] \<and> ps_pending p = [] \<and> 0 < k \<and> k \<le> length (ps_pipe p) \<and> \<not> pipes_closed s
      then Some ((set_parser src (p\<lparr>ps_pipe := drop k (ps_pipe p), ps_held := take k (ps_pipe p)\<rparr>) s)
             \<lparr>tp_buffer := tee_lines src (take k (ps_pipe p)) (tp_buffer s)\<rparr>)
      else None)"
| "parser_step L (TpScan src now) s =
     (let p = parser_of src s in
      case ps_held p of
        line # held \<Rightarrow>
          if ps_phase p = Scanning \<and> ps_pending p = [] then
            (if parse_cancelled s then Some (set_parser src (p\<lparr>ps_phase := ParserEnded\<rparr>) s)
             else (case parse_line L (ps_cur p) now line of
                     None \<Rightarrow> Some (s\<lparr>tp_panicked := True\<rparr>)
                   | Some (evs, cur) \<Rightarrow>
                       Some (set_parser src (p\<lparr>ps_held := held, ps_cur := cur, ps_pending := evs\<rparr>) s)))
          else None
      | [] \<Rightarrow> None)"
| "parser_step L (TpSend src) s =
     (let p = parser_of src s in
      case ps_pending p of
        ev # evs \<Rightarrow>
          if ps_phase p \<noteq> ParserEnded \<and> length (tp_parsed s) < parsed_cap
          then Some ((set_parser src (p\<lparr>ps_pending := evs\<rparr>) s)\<lparr>tp_parsed := tp_parsed s @ [ev]\<rparr>)
          else None
      | [] \<Rightarrow> None)"
| "parser_step L (TpAbort src) s =
     (let p = parser_of src s in
      if ps_pending p \<noteq> [] \<and> ps_phase p \<noteq> ParserEnded \<and> parse_cancelled s
      then Some (set_parser src (p\<lparr>ps_phase := ParserEnded\<rparr>) s) else None)"
| "parser_step L (TpEof src) s =
     (let p = parser_of src s in
      if ps_phase p = Scanning \<and> ps_held p = [] \<and> ps_pending p = [] \<and>
         (pipes_closed s \<or> (tp_child s \<noteq> ChildRunning \<and> ps_pipe p = []))
      then Some (set_parser src (p\<lparr>ps_cur := None, ps_pending := flush_event (ps_cur p), ps_phase := Flushing\<rparr>) s)
      else None)"
| "parser_step L (TpEnd src) s =
     (let p = parser_of src s in
      if ps_phase p = Flushing \<and> ps_pending p = []
      then Some (set_parser src (p\<lparr>ps_phase := ParserEnded\<rparr>) s) else None)"
| "parser_step L TpCloseParsed s =
     (if ps_phase (tp_out s) = ParserEnded \<and> ps_phase (tp_err s) = ParserEnded \<and> \<not> tp_parsed_closed s
      then Some (s\<lparr>tp_parsed_closed := True\<rparr>) else None)"
| "parser_step L _ s = None"

fun child_step :: "tls_event_step \<Rightarrow> tls_proc \<Rightarrow> tls_proc option" where
  "child_step (TpWrite src line) s =
     (if tp_child s = ChildRunning
      then Some (set_parser src ((parser_of src s)\<lparr>ps_pipe := ps_pipe (parser_of src s) @ [line]\<rparr>) s) else None)"
| "child_step (TpExit err) s =
     (if tp_child s = ChildRunning then Some (s\<lparr>tp_child := ChildExited err\<rparr>) else None)"
| "child_step TpWaited s =
     (case tp_child s of
        ChildExited err \<Rightarrow> Some (s\<lparr>tp_child := ChildReaped, tp_wait_done := Some err\<rparr>)
      | _ \<Rightarrow> None)"
| "child_step TpCtxDone s = (if tp_ctx s then None else Some (s\<lparr>tp_ctx := True\<rparr>))"
| "child_step _ s = None"

text \<open>A record taken: the first one reports ACTIVE, every one has the next number.\<close>

definition take_event :: "worker_state \<Rightarrow> worker_state" where
  "take_event w =
     (let w1 = (if wk_active w then w
                else w\<lparr>wk_active := True, wk_statuses := wk_statuses w @ [(Tls_Active, ''ecapture attached'')]\<rparr>) in
      w1\<lparr>wk_seq := wk_seq w1 + 1\<rparr>)"

definition with_pid :: "tls_target \<Rightarrow> parsed_event \<Rightarrow> parsed_event" where
  "with_pid t ev = (if pe_pid ev = 0 then ev\<lparr>pe_pid := word_of_int (tt_pid t)\<rparr> else ev)"

fun tls_main_step :: "(int \<Rightarrow> timestamp) \<Rightarrow> tls_target \<Rightarrow> tls_event_step \<Rightarrow> tls_proc \<Rightarrow> tls_proc option" where
  "tls_main_step newts t TmStop s =
     (if tp_pc s = TlsLoop \<and> tp_ctx s
      then Some (s\<lparr>tp_cancelled := True, tp_worker := (tp_worker s)\<lparr>wk_done := True\<rparr>, tp_pc := TlsStop\<rparr>) else None)"
| "tls_main_step newts t TmExit s =
     (case (tp_pc s, tp_wait_done s) of
        (TlsLoop, Some err) \<Rightarrow> Some (s\<lparr>tp_wait_done := None, tp_cancelled := True, tp_pc := TlsDrain (Some err)\<rparr>)
      | _ \<Rightarrow> None)"
| "tls_main_step newts t TmTake s =
     (case (tp_pc s, tp_parsed s) of
        (TlsLoop, ev # evs) \<Rightarrow>
          Some (s\<lparr>tp_parsed := evs, tp_worker := take_event (tp_worker s), tp_pc := TlsOffer (with_pid t ev)\<rparr>)
      | _ \<Rightarrow> None)"
| "tls_main_step newts t TmParsedClosed s =
     (if tp_pc s = TlsLoop \<and> tp_parsed s = [] \<and> tp_parsed_closed s \<and> \<not> tp_parsed_nil s
      then Some (s\<lparr>tp_parsed_nil := True\<rparr>) else None)"
| "tls_main_step newts t (TmSent now) s =
     (case tp_pc s of
        TlsOffer ev \<Rightarrow>
          Some (s\<lparr>tp_worker := (tp_worker s)\<lparr>wk_events := wk_events (tp_worker s)
                    @ [to_proto_event newts now (tt_pod t) ev (wk_seq (tp_worker s))]\<rparr>, tp_pc := TlsLoop\<rparr>)
      | _ \<Rightarrow> None)"
| "tls_main_step newts t TmSendStop s =
     (case tp_pc s of
        TlsOffer ev \<Rightarrow>
          if tp_ctx s
          then Some (s\<lparr>tp_cancelled := True, tp_worker := (tp_worker s)\<lparr>wk_done := True\<rparr>, tp_pc := TlsStop\<rparr>)
          else None
      | _ \<Rightarrow> None)"
| "tls_main_step newts t TmStopped s =
     (case (tp_pc s, tp_wait_done s) of
        (TlsStop, Some err) \<Rightarrow> Some (s\<lparr>tp_wait_done := None, tp_pc := TlsDrain None\<rparr>)
      | _ \<Rightarrow> None)"
| "tls_main_step newts t TmDiscard s =
     (case (tp_pc s, tp_parsed s) of
        (TlsDrain err, ev # evs) \<Rightarrow> if tp_parsed_nil s then None else Some (s\<lparr>tp_parsed := evs\<rparr>)
      | _ \<Rightarrow> None)"
| "tls_main_step newts t TmReturn s =
     (case tp_pc s of
        TlsDrain err \<Rightarrow>
          if tp_parsed_nil s \<or> (tp_parsed s = [] \<and> tp_parsed_closed s) then
            Some (s\<lparr>tp_worker :=
              (case err of
                 Some e \<Rightarrow>
                   (if tp_ctx s then (tp_worker s)\<lparr>wk_done := True\<rparr>
                    else (tp_worker s)\<lparr>wk_done := True, wk_statuses := wk_statuses (tp_worker s)
                           @ [exit_status (tt_mode t) e (limited_string (tp_buffer s))]\<rparr>)
               | None \<Rightarrow> tp_worker s), tp_pc := TlsReturned\<rparr>)
          else None
      | _ \<Rightarrow> None)"
| "tls_main_step newts t _ s = None"

definition tls_step ::
    "parse_lib \<Rightarrow> (int \<Rightarrow> timestamp) \<Rightarrow> tls_target \<Rightarrow> tls_event_step \<Rightarrow> tls_proc \<Rightarrow> tls_proc option" where
  "tls_step L newts t e s =
     (if tp_panicked s then None
      else case parser_step L e s of Some u \<Rightarrow> Some u | None \<Rightarrow>
        (case child_step e s of Some u \<Rightarrow> Some u | None \<Rightarrow> tls_main_step newts t e s))"

fun tls_run ::
    "parse_lib \<Rightarrow> (int \<Rightarrow> timestamp) \<Rightarrow> tls_target \<Rightarrow> tls_event_step list \<Rightarrow> tls_proc \<Rightarrow> tls_proc option" where
  "tls_run L newts t [] s = Some s"
| "tls_run L newts t (e # es) s =
     (case tls_step L newts t e s of None \<Rightarrow> None | Some u \<Rightarrow> tls_run L newts t es u)"

end
