(* ===== verification/Tls_Process_Facts.thy ===== *)
theory Tls_Process_Facts imports Tls_Process begin

text \<open>
  What the goroutines of a TLS worker guarantee in every interleaving: the main one behaves as
  \<open>worker_step\<close>, when it has returned nothing it started is left, and once its context has ended
  it returns after a bounded number of actions.
\<close>

section \<open>The actions one by one\<close>

text \<open>An action of a parser, of the child or of the context leaves the main goroutine alone.\<close>

definition same_main :: "tls_proc \<Rightarrow> tls_proc \<Rightarrow> bool" where
  "same_main s u \<longleftrightarrow> tp_pc u = tp_pc s \<and> tp_worker u = tp_worker s \<and> tp_parsed_nil u = tp_parsed_nil s \<and>
     tp_cancelled u = tp_cancelled s"

lemma set_parser_fields [simp]:
  "parser_of src (set_parser src p s) = p"
  "tp_parsed (set_parser src p s) = tp_parsed s" "tp_parsed_closed (set_parser src p s) = tp_parsed_closed s"
  "tp_parsed_nil (set_parser src p s) = tp_parsed_nil s" "tp_child (set_parser src p s) = tp_child s"
  "tp_wait_done (set_parser src p s) = tp_wait_done s" "tp_ctx (set_parser src p s) = tp_ctx s"
  "tp_cancelled (set_parser src p s) = tp_cancelled s" "tp_worker (set_parser src p s) = tp_worker s"
  "tp_pc (set_parser src p s) = tp_pc s" "tp_panicked (set_parser src p s) = tp_panicked s"
  "tp_buffer (set_parser src p s) = tp_buffer s"
  by (cases src; simp)+

lemma set_parser_twice [simp]:
  "tp_out (set_parser Stdout p s) = p" "tp_err (set_parser Stdout p s) = tp_err s"
  "tp_err (set_parser Stderr p s) = p" "tp_out (set_parser Stderr p s) = tp_out s"
  by simp_all

text \<open>Whether both parsers have returned.\<close>

definition parsers_ended :: "tls_proc \<Rightarrow> bool" where
  "parsers_ended s \<longleftrightarrow> ps_phase (tp_out s) = ParserEnded \<and> ps_phase (tp_err s) = ParserEnded"

lemma parser_step_main:
  assumes "parser_step L e s = Some u"
  shows "same_main s u \<and> tp_child u = tp_child s \<and> tp_wait_done u = tp_wait_done s \<and> tp_ctx u = tp_ctx s \<and>
    (tp_parsed_closed u \<longrightarrow> tp_parsed_closed s \<or> parsers_ended s) \<and> (tp_parsed_closed s \<longrightarrow> tp_parsed_closed u) \<and>
    (parsers_ended s \<longrightarrow> parsers_ended u \<and> tp_parsed u = tp_parsed s) \<and>
    length (tp_parsed u) \<le> max parsed_cap (length (tp_parsed s))"
proof (cases e)
  case (TpFill src k)
  with assms show ?thesis by (cases src) (auto simp: same_main_def parsers_ended_def Let_def split: if_splits)
next
  case (TpScan src now)
  with assms show ?thesis
    by (cases src) (auto simp: same_main_def parsers_ended_def Let_def split: if_splits list.splits option.splits)
next
  case (TpSend src)
  with assms show ?thesis
    by (cases src) (auto simp: same_main_def parsers_ended_def Let_def split: if_splits list.splits)
next
  case (TpAbort src)
  with assms show ?thesis by (cases src) (auto simp: same_main_def parsers_ended_def Let_def split: if_splits)
next
  case (TpEof src)
  with assms show ?thesis by (cases src) (auto simp: same_main_def parsers_ended_def Let_def split: if_splits)
next
  case (TpEnd src)
  with assms show ?thesis by (cases src) (auto simp: same_main_def parsers_ended_def Let_def split: if_splits)
qed (use assms in \<open>auto simp: same_main_def parsers_ended_def split: if_splits\<close>)

lemma child_step_main:
  assumes "child_step e s = Some u"
  shows "same_main s u \<and> tp_parsed u = tp_parsed s \<and> tp_parsed_closed u = tp_parsed_closed s \<and>
    (parsers_ended u \<longleftrightarrow> parsers_ended s) \<and> (tp_ctx s \<longrightarrow> tp_ctx u) \<and>
    (tp_child u = tp_child s \<and> tp_wait_done u = tp_wait_done s \<or>
     tp_child s = ChildRunning \<and> (\<exists>err. tp_child u = ChildExited err) \<and> tp_wait_done u = tp_wait_done s \<or>
     (\<exists>err. tp_child s = ChildExited err \<and> tp_child u = ChildReaped \<and> tp_wait_done u = Some err))"
proof (cases e)
  case (TpWrite src line)
  with assms show ?thesis by (cases src) (auto simp: same_main_def parsers_ended_def split: if_splits)
qed (use assms in \<open>auto simp: same_main_def parsers_ended_def split: if_splits child_state.splits\<close>)

lemma tls_step_cases [consumes 1]:
  assumes "tls_step L newts t e s = Some u"
  obtains
    (parser) "parser_step L e s = Some u"
  | (child) "child_step e s = Some u"
  | (stop) "e = TmStop" "tp_pc s = TlsLoop" "tp_ctx s"
      "u = s\<lparr>tp_cancelled := True, tp_worker := (tp_worker s)\<lparr>wk_done := True\<rparr>, tp_pc := TlsStop\<rparr>"
  | (exit) err where "e = TmExit" "tp_pc s = TlsLoop" "tp_wait_done s = Some err"
      "u = s\<lparr>tp_wait_done := None, tp_cancelled := True, tp_pc := TlsDrain (Some err)\<rparr>"
  | (take) ev evs where "e = TmTake" "tp_pc s = TlsLoop" "tp_parsed s = ev # evs"
      "u = s\<lparr>tp_parsed := evs, tp_worker := take_event (tp_worker s), tp_pc := TlsOffer (with_pid t ev)\<rparr>"
  | (closed) "e = TmParsedClosed" "tp_pc s = TlsLoop" "tp_parsed s = []" "tp_parsed_closed s"
      "\<not> tp_parsed_nil s" "u = s\<lparr>tp_parsed_nil := True\<rparr>"
  | (sent) now ev where "e = TmSent now" "tp_pc s = TlsOffer ev"
      "u = s\<lparr>tp_worker := (tp_worker s)\<lparr>wk_events := wk_events (tp_worker s)
          @ [to_proto_event newts now (tt_pod t) ev (wk_seq (tp_worker s))]\<rparr>, tp_pc := TlsLoop\<rparr>"
  | (send_stop) ev where "e = TmSendStop" "tp_pc s = TlsOffer ev" "tp_ctx s"
      "u = s\<lparr>tp_cancelled := True, tp_worker := (tp_worker s)\<lparr>wk_done := True\<rparr>, tp_pc := TlsStop\<rparr>"
  | (stopped) err where "e = TmStopped" "tp_pc s = TlsStop" "tp_wait_done s = Some err"
      "u = s\<lparr>tp_wait_done := None, tp_pc := TlsDrain None\<rparr>"
  | (discard) err ev evs where "e = TmDiscard" "tp_pc s = TlsDrain err" "tp_parsed s = ev # evs"
      "\<not> tp_parsed_nil s" "u = s\<lparr>tp_parsed := evs\<rparr>"
  | (return) err where "e = TmReturn" "tp_pc s = TlsDrain err"
      "tp_parsed_nil s \<or> tp_parsed s = [] \<and> tp_parsed_closed s"
      "u = s\<lparr>tp_worker :=
          (case err of
             Some er \<Rightarrow>
               (if tp_ctx s then (tp_worker s)\<lparr>wk_done := True\<rparr>
                else (tp_worker s)\<lparr>wk_done := True, wk_statuses := wk_statuses (tp_worker s)
                       @ [exit_status (tt_mode t) er (limited_string (tp_buffer s))]\<rparr>)
           | None \<Rightarrow> tp_worker s), tp_pc := TlsReturned\<rparr>"
proof -
  consider (p) "parser_step L e s = Some u" | (c) "child_step e s = Some u" | (m) "tls_main_step newts t e s = Some u"
    using assms by (auto simp: tls_step_def split: if_splits option.splits)
  then show thesis
  proof cases
    case m
    show thesis
    proof (cases e)
      case TmStop
      with m stop show thesis by (auto split: if_splits)
    next
      case TmExit
      with m exit show thesis by (auto split: tls_pc.splits option.splits)
    next
      case TmTake
      with m take show thesis by (auto split: tls_pc.splits list.splits)
    next
      case TmParsedClosed
      with m closed show thesis by (auto split: if_splits)
    next
      case (TmSent now)
      with m sent show thesis by (auto split: tls_pc.splits)
    next
      case TmSendStop
      with m send_stop show thesis by (auto split: tls_pc.splits if_splits)
    next
      case TmStopped
      with m stopped show thesis by (auto split: tls_pc.splits option.splits)
    next
      case TmDiscard
      with m discard show thesis by (auto split: tls_pc.splits list.splits if_splits)
    next
      case TmReturn
      then have "tls_main_step newts t TmReturn s = Some u" using m by simp
      then obtain err where "tp_pc s = TlsDrain err" "tp_parsed_nil s \<or> tp_parsed s = [] \<and> tp_parsed_closed s"
        "u = s\<lparr>tp_worker :=
          (case err of
             Some er \<Rightarrow>
               (if tp_ctx s then (tp_worker s)\<lparr>wk_done := True\<rparr>
                else (tp_worker s)\<lparr>wk_done := True, wk_statuses := wk_statuses (tp_worker s)
                       @ [exit_status (tt_mode t) er (limited_string (tp_buffer s))]\<rparr>)
           | None \<Rightarrow> tp_worker s), tp_pc := TlsReturned\<rparr>"
        unfolding tls_main_step.simps by (cases "tp_pc s") (auto split: if_splits)
      then show thesis using TmReturn return by blast
    qed (use m in simp_all)
  qed (use parser child in blast)+
qed

section \<open>Nothing is left behind\<close>

definition pc_wf :: "tls_proc \<Rightarrow> bool" where
  "pc_wf s \<longleftrightarrow>
     (case tp_pc s of
        TlsLoop \<Rightarrow> tp_child s = ChildReaped \<longleftrightarrow> tp_wait_done s \<noteq> None
      | TlsOffer ev \<Rightarrow> tp_child s = ChildReaped \<longleftrightarrow> tp_wait_done s \<noteq> None
      | TlsStop \<Rightarrow> tp_cancelled s \<and> (tp_child s = ChildReaped \<longleftrightarrow> tp_wait_done s \<noteq> None)
      | TlsDrain err \<Rightarrow> tp_cancelled s \<and> tp_child s = ChildReaped \<and> tp_wait_done s = None
      | TlsReturned \<Rightarrow> tp_child s = ChildReaped \<and> tp_wait_done s = None \<and> tp_parsed s = [] \<and> tp_parsed_closed s)"

definition tls_wf :: "tls_proc \<Rightarrow> bool" where
  "tls_wf s \<longleftrightarrow> pc_wf s \<and> (tp_parsed_nil s \<longrightarrow> tp_parsed_closed s \<and> tp_parsed s = []) \<and>
     (tp_parsed_closed s \<longrightarrow> parsers_ended s) \<and> length (tp_parsed s) \<le> parsed_cap"

lemma pc_wf_cong:
  assumes "pc_wf s" "tp_pc u = tp_pc s" "tp_cancelled u = tp_cancelled s"
    "tp_child u = ChildReaped \<longleftrightarrow> tp_child s = ChildReaped" "tp_wait_done u = tp_wait_done s"
    "tp_pc s = TlsReturned \<Longrightarrow> tp_parsed u = [] \<and> tp_parsed_closed u"
  shows "pc_wf u"
  using assms by (auto simp: pc_wf_def split: tls_pc.splits)

lemma tls_wf_step:
  assumes "tls_step L newts t e s = Some u" "tls_wf s"
  shows "tls_wf u"
  using assms(1)
proof (cases rule: tls_step_cases)
  case parser
  note m = parser_step_main [OF parser]
  have "pc_wf u"
    by (rule pc_wf_cong) (use m assms(2) in \<open>auto simp: tls_wf_def same_main_def pc_wf_def\<close>)
  then show ?thesis using m assms(2) by (auto simp: tls_wf_def same_main_def)
next
  case child
  note m = child_step_main [OF child]
  from assms(2) have wf: "pc_wf s" by (simp add: tls_wf_def)
  have "pc_wf u"
  proof (cases "tp_child u = tp_child s \<and> tp_wait_done u = tp_wait_done s")
    case True
    with m wf show ?thesis by (intro pc_wf_cong [OF wf]) (auto simp: same_main_def pc_wf_def)
  next
    case False
    with m have c: "tp_child s \<noteq> ChildReaped" "tp_pc u = tp_pc s" "tp_cancelled u = tp_cancelled s"
      "tp_child u = ChildReaped \<and> tp_wait_done u \<noteq> None \<or> tp_child u \<noteq> ChildReaped \<and> tp_wait_done u = tp_wait_done s"
      by (auto simp: same_main_def)
    with wf show ?thesis by (cases "tp_pc s") (auto simp: pc_wf_def)
  qed
  then show ?thesis using m assms(2) by (auto simp: tls_wf_def same_main_def)
next
  case (return err)
  then show ?thesis using assms(2) by (auto simp: tls_wf_def pc_wf_def parsers_ended_def)
qed (use assms(2) in \<open>auto simp: tls_wf_def pc_wf_def parsers_ended_def\<close>)

lemma tls_boot_wf: "tls_wf tls_boot"
  by (simp add: tls_wf_def pc_wf_def tls_boot_def)

inductive tls_next :: "tls_target \<Rightarrow> tls_proc \<Rightarrow> tls_proc \<Rightarrow> bool" for t where
  tls_next: "tls_step L newts t e s = Some u \<Longrightarrow> tls_next t s u"

inductive_cases tls_nextE [elim!]: "tls_next t s u"

interpretation tls_sys: invariant_system "\<lambda>s. s = tls_boot" "tls_next t" tls_wf for t
  by unfold_locales (auto intro: tls_boot_wf tls_wf_step)

lemma tls_run_steps: "tls_run L newts t es s = Some u \<Longrightarrow> (tls_next t)\<^sup>*\<^sup>* s u"
proof (induction es arbitrary: s)
  case (Cons e es)
  then obtain v where v: "tls_step L newts t e s = Some v" "tls_run L newts t es v = Some u"
    by (auto split: option.splits)
  show ?case by (rule converse_rtranclp_into_rtranclp [OF tls_next [OF v(1)] Cons.IH [OF v(2)]])
qed simp

lemma tls_run_wf: "tls_run L newts t es tls_boot = Some s \<Longrightarrow> tls_wf s"
  by (rule tls_sys.reachable_inv [OF refl tls_run_steps])

section \<open>The main goroutine is the event loop\<close>

text \<open>
  Between two turns of the \<open>select\<close> the worker's state is one \<open>worker_step\<close> reaches; while an
  event is offered, its first half has been done.
\<close>

definition loop_sim :: "tls_target \<Rightarrow> tls_proc \<Rightarrow> bool" where
  "loop_sim t s \<longleftrightarrow>
     (case tp_pc s of
        TlsLoop \<Rightarrow> (worker_next t)\<^sup>*\<^sup>* worker_init (tp_worker s) \<and> \<not> wk_done (tp_worker s)
      | TlsOffer ev \<Rightarrow> \<exists>w ev0. (worker_next t)\<^sup>*\<^sup>* worker_init w \<and> \<not> wk_done w \<and> tp_worker s = take_event w \<and> ev = with_pid t ev0
      | TlsDrain (Some err) \<Rightarrow> (worker_next t)\<^sup>*\<^sup>* worker_init (tp_worker s) \<and> \<not> wk_done (tp_worker s)
      | _ \<Rightarrow> (worker_next t)\<^sup>*\<^sup>* worker_init (tp_worker s) \<and> wk_done (tp_worker s))"

lemma loop_sim_same: "same_main s u \<Longrightarrow> loop_sim t u = loop_sim t s"
  unfolding loop_sim_def same_main_def by (elim conjE) (simp only:)

lemma loop_sim_boot: "loop_sim t tls_boot"
  by (simp add: loop_sim_def tls_boot_def worker_init_def)

lemma take_event_done [simp]: "wk_done (take_event w) = wk_done w"
  by (simp add: take_event_def Let_def)

lemma worker_step_sent:
  assumes "\<not> wk_done w"
  shows "worker_step newts now stderr t (WorkerParsed ev True) w =
    (take_event w)\<lparr>wk_events := wk_events (take_event w)
       @ [to_proto_event newts now (tt_pod t) (with_pid t ev) (wk_seq (take_event w))]\<rparr>"
  using assms by (simp add: take_event_def with_pid_def Let_def)

lemma worker_step_unsent:
  assumes "\<not> wk_done w"
  shows "worker_step newts now stderr t (WorkerParsed ev False) w = (take_event w)\<lparr>wk_done := True\<rparr>"
  using assms by (simp add: take_event_def Let_def)

lemma worker_reaches:
  assumes "(worker_next t)\<^sup>*\<^sup>* worker_init w" "w' = worker_step newts now stderr t i w"
  shows "(worker_next t)\<^sup>*\<^sup>* worker_init w'"
  unfolding assms(2) by (rule rtranclp.rtrancl_into_rtrancl [OF assms(1) worker_next])

lemma loop_sim_step:
  assumes "tls_step L newts t e s = Some u" "loop_sim t s"
  shows "loop_sim t u"
  using assms(1)
proof (cases rule: tls_step_cases)
  case parser
  with parser_step_main [OF parser] assms(2) show ?thesis using loop_sim_same by blast
next
  case child
  with child_step_main [OF child] assms(2) show ?thesis using loop_sim_same by blast
next
  case stop
  with assms(2) have "(worker_next t)\<^sup>*\<^sup>* worker_init (tp_worker s)" "\<not> wk_done (tp_worker s)"
    by (simp_all add: loop_sim_def)
  then have "tp_worker u = worker_step newts 0 [] t WorkerCtxDone (tp_worker s)" using stop by simp
  from worker_reaches [OF \<open>(worker_next t)\<^sup>*\<^sup>* worker_init (tp_worker s)\<close> this] stop
  show ?thesis by (simp add: loop_sim_def)
next
  case (take ev evs)
  with assms(2) show ?thesis by (auto simp: loop_sim_def)
next
  case (sent now ev)
  with assms(2) obtain w ev0 where w: "(worker_next t)\<^sup>*\<^sup>* worker_init w" "\<not> wk_done w"
    "tp_worker s = take_event w" "ev = with_pid t ev0" by (auto simp: loop_sim_def)
  have "tp_worker u = worker_step newts now [] t (WorkerParsed ev0 True) w"
    using sent w(3,4) unfolding worker_step_sent [OF w(2)] by simp
  from worker_reaches [OF w(1) this] w(2,3) sent show ?thesis by (simp add: loop_sim_def)
next
  case (send_stop ev)
  with assms(2) obtain w ev0 where w: "(worker_next t)\<^sup>*\<^sup>* worker_init w" "\<not> wk_done w"
    "tp_worker s = take_event w" by (auto simp: loop_sim_def)
  have "tp_worker u = worker_step newts 0 [] t (WorkerParsed ev False) w"
    using send_stop w(3) unfolding worker_step_unsent [OF w(2)] by simp
  from worker_reaches [OF w(1) this] send_stop show ?thesis by (simp add: loop_sim_def)
next
  case (return err)
  show ?thesis
  proof (cases err)
    case None
    with return assms(2) show ?thesis by (simp add: loop_sim_def)
  next
    case (Some er)
    with return assms(2) have w: "(worker_next t)\<^sup>*\<^sup>* worker_init (tp_worker s)" "\<not> wk_done (tp_worker s)"
      by (simp_all add: loop_sim_def)
    have "tp_worker u = worker_step newts 0 (limited_string (tp_buffer s)) t (WorkerExit er (tp_ctx s)) (tp_worker s)"
      using return Some w(2) by simp
    from worker_reaches [OF w(1) this] return Some show ?thesis by (simp add: loop_sim_def)
  qed
qed (use assms(2) in \<open>auto simp: loop_sim_def split: option.splits\<close>)

interpretation loop_sys: invariant_system "\<lambda>s. s = tls_boot" "tls_next t" "loop_sim t" for t
  by unfold_locales (auto intro: loop_sim_step loop_sim_boot)

text \<open>
  C33. The worker as its goroutines run it: in every interleaving the events sent and the statuses
  reported are those of a run of the event loop, and when the main goroutine has returned nothing
  is left - the child was waited for, both parsers have returned, and the channel between them
  is closed and empty.
\<close>

theorem tls_worker_cleans_up:
  assumes "tls_run L newts t es tls_boot = Some s" and "tp_pc s = TlsReturned"
  shows "(worker_next t)\<^sup>*\<^sup>* worker_init (tp_worker s) \<and> wk_done (tp_worker s) \<and>
    tp_child s = ChildReaped \<and> parsers_ended s \<and> tp_parsed s = [] \<and> tp_parsed_closed s"
proof -
  have "loop_sim t s" by (rule loop_sys.reachable_inv [OF refl tls_run_steps [OF assms(1)]])
  with tls_run_wf [OF assms(1)] assms(2) show ?thesis by (simp add: tls_wf_def pc_wf_def loop_sim_def)
qed

section \<open>The worker stops\<close>

text \<open>
  The actions that end a worker whose context has ended: \<open>stopProcess\<close> ends the child, a
  cancelled parser returns at its next line or send.
\<close>

fun tls_ending :: "tls_proc \<Rightarrow> tls_event_step \<Rightarrow> bool" where
  "tls_ending s (TpExit err) = (tp_pc s = TlsStop)"
| "tls_ending s TpWaited = True"
| "tls_ending s (TpScan src now) = parse_cancelled s"
| "tls_ending s (TpAbort src) = True"
| "tls_ending s (TpEof src) = True"
| "tls_ending s (TpEnd src) = True"
| "tls_ending s TpCloseParsed = True"
| "tls_ending s TmStop = True"
| "tls_ending s TmExit = True"
| "tls_ending s TmSendStop = True"
| "tls_ending s TmStopped = True"
| "tls_ending s TmDiscard = True"
| "tls_ending s TmReturn = True"
| "tls_ending s _ = False"

definition parser_work :: "line_parser \<Rightarrow> nat" where
  "parser_work p = (case ps_phase p of Scanning \<Rightarrow> 2 | Flushing \<Rightarrow> 1 | ParserEnded \<Rightarrow> 0)"

definition child_work :: "child_state \<Rightarrow> nat" where
  "child_work c = (case c of ChildRunning \<Rightarrow> 2 | ChildExited err \<Rightarrow> 1 | ChildReaped \<Rightarrow> 0)"

definition pc_work :: "tls_pc \<Rightarrow> nat" where
  "pc_work p = (case p of TlsLoop \<Rightarrow> 3 | TlsOffer ev \<Rightarrow> 3 | TlsStop \<Rightarrow> 2 | TlsDrain err \<Rightarrow> 1 | TlsReturned \<Rightarrow> 0)"

definition tls_work :: "tls_proc \<Rightarrow> nat" where
  "tls_work s = parser_work (tp_out s) + parser_work (tp_err s) + child_work (tp_child s) + pc_work (tp_pc s)
     + length (tp_parsed s) + (if tp_parsed_closed s then 0 else 1)"

lemma parser_ending_less:
  assumes "parser_step L e s = Some u" "tls_ending s e"
  shows "tls_work u < tls_work s \<and> tp_panicked u = tp_panicked s"
proof (cases e)
  case (TpScan src now)
  with assms show ?thesis
    by (cases src) (auto simp: tls_work_def parser_work_def Let_def split: if_splits list.splits)
next
  case (TpAbort src)
  with assms show ?thesis
    by (cases src; cases "ps_phase (parser_of src s)")
      (auto simp: tls_work_def parser_work_def Let_def split: if_splits)
next
  case (TpEof src)
  with assms show ?thesis by (cases src) (auto simp: tls_work_def parser_work_def Let_def split: if_splits)
next
  case (TpEnd src)
  with assms show ?thesis by (cases src) (auto simp: tls_work_def parser_work_def Let_def split: if_splits)
qed (use assms in \<open>auto simp: tls_work_def split: if_splits\<close>)

lemma child_ending_less:
  assumes "child_step e s = Some u" "tls_ending s e"
  shows "tls_work u < tls_work s \<and> tp_panicked u = tp_panicked s"
  using assms by (cases e) (auto simp: tls_work_def child_work_def split: if_splits child_state.splits)

lemma tls_ending_less:
  assumes "tls_step L newts t e s = Some u" "tls_ending s e" "tp_ctx s"
  shows "tls_work u < tls_work s \<and> tp_panicked u = tp_panicked s \<and> tp_ctx u"
  using assms(1)
proof (cases rule: tls_step_cases)
  case parser
  with parser_ending_less [OF parser assms(2)] parser_step_main [OF parser] assms(3) show ?thesis by simp
next
  case child
  with child_ending_less [OF child assms(2)] child_step_main [OF child] assms(3) show ?thesis by simp
qed (use assms(2,3) in \<open>auto simp: tls_work_def pc_work_def\<close>)

lemma parser_not_stuck:
  assumes "ps_phase (parser_of src s) \<noteq> ParserEnded" "pipes_closed s" "parse_cancelled s"
  shows "\<exists>e. tls_ending s e \<and> parser_step L e s \<noteq> None"
proof (cases "ps_pending (parser_of src s)")
  case (Cons ev evs)
  with assms have "parser_step L (TpAbort src) s \<noteq> None" by (simp add: Let_def)
  then show ?thesis using tls_ending.simps(4) by blast
next
  case Nil
  show ?thesis
  proof (cases "ps_phase (parser_of src s)")
    case Scanning
    show ?thesis
    proof (cases "ps_held (parser_of src s)")
      case (Cons l ls)
      with Nil Scanning assms have "tls_ending s (TpScan src 0) \<and> parser_step L (TpScan src 0) s \<noteq> None"
        by (simp add: Let_def)
      then show ?thesis by blast
    next
      case held: Nil
      with Nil Scanning assms have "parser_step L (TpEof src) s \<noteq> None" by (simp add: Let_def)
      then show ?thesis using tls_ending.simps(5) by blast
    qed
  next
    case Flushing
    with Nil have "parser_step L (TpEnd src) s \<noteq> None" by (simp add: Let_def)
    then show ?thesis using tls_ending.simps(6) by blast
  qed (use assms in simp)
qed

lemma tls_step_of:
  assumes "\<not> tp_panicked s"
  shows "parser_step L e s \<noteq> None \<Longrightarrow> tls_step L newts t e s \<noteq> None"
    "child_step e s \<noteq> None \<Longrightarrow> tls_step L newts t e s \<noteq> None"
    "tls_main_step newts t e s \<noteq> None \<Longrightarrow> tls_step L newts t e s \<noteq> None"
  using assms by (auto simp: tls_step_def split: option.splits)

lemma tls_not_stuck:
  assumes "tls_wf s" "tp_ctx s" "\<not> tp_panicked s" "tp_pc s \<noteq> TlsReturned"
  shows "\<exists>e. tls_ending s e \<and> tls_step L newts t e s \<noteq> None"
proof (cases "tp_pc s")
  case TlsLoop
  with assms have "tls_main_step newts t TmStop s \<noteq> None" by simp
  from tls_step_of(3) [OF assms(3) this] show ?thesis using tls_ending.simps(8) by blast
next
  case (TlsOffer ev)
  with assms have "tls_main_step newts t TmSendStop s \<noteq> None" by simp
  from tls_step_of(3) [OF assms(3) this] show ?thesis using tls_ending.simps(10) by blast
next
  case TlsStop
  show ?thesis
  proof (cases "tp_child s")
    case ChildRunning
    then have "child_step (TpExit None) s \<noteq> None" by simp
    from tls_step_of(2) [OF assms(3) this] show ?thesis using TlsStop tls_ending.simps(1) by blast
  next
    case (ChildExited err)
    then have "child_step TpWaited s \<noteq> None" by simp
    from tls_step_of(2) [OF assms(3) this] show ?thesis using tls_ending.simps(2) by blast
  next
    case ChildReaped
    with assms(1) TlsStop have "tls_main_step newts t TmStopped s \<noteq> None" by (auto simp: tls_wf_def pc_wf_def)
    from tls_step_of(3) [OF assms(3) this] show ?thesis using tls_ending.simps(11) by blast
  qed
next
  case (TlsDrain err)
  with assms(1,2) have c: "pipes_closed s" "parse_cancelled s"
    by (simp_all add: tls_wf_def pc_wf_def pipes_closed_def parse_cancelled_def)
  show ?thesis
  proof (cases "tp_parsed_closed s")
    case True
    show ?thesis
    proof (cases "tp_parsed s = []")
      case empty: True
      with True TlsDrain have "tls_main_step newts t TmReturn s \<noteq> None" by simp
      from tls_step_of(3) [OF assms(3) this] show ?thesis using tls_ending.simps(13) by blast
    next
      case False
      with assms(1) TlsDrain have "tls_main_step newts t TmDiscard s \<noteq> None"
        by (auto simp: tls_wf_def neq_Nil_conv)
      from tls_step_of(3) [OF assms(3) this] show ?thesis using tls_ending.simps(12) by blast
    qed
  next
    case False
    show ?thesis
    proof (cases "parsers_ended s")
      case True
      with False have "parser_step L TpCloseParsed s \<noteq> None" by (simp add: parsers_ended_def)
      from tls_step_of(1) [OF assms(3) this] show ?thesis using tls_ending.simps(7) by blast
    next
      case False
      then obtain src where "ps_phase (parser_of src s) \<noteq> ParserEnded"
        unfolding parsers_ended_def by (metis parser_of.simps)
      from parser_not_stuck [OF this c, of L] tls_step_of(1) [OF assms(3)] show ?thesis by blast
    qed
  qed
qed (use assms(4) in simp)

fun tls_end_run ::
    "parse_lib \<Rightarrow> (int \<Rightarrow> timestamp) \<Rightarrow> tls_target \<Rightarrow> tls_event_step list \<Rightarrow> tls_proc \<Rightarrow> tls_proc option" where
  "tls_end_run L newts t [] s = Some s"
| "tls_end_run L newts t (e # es) s =
     (if tls_ending s e
      then (case tls_step L newts t e s of None \<Rightarrow> None | Some u \<Rightarrow> tls_end_run L newts t es u)
      else None)"

lemma tls_end_bounded:
  "tls_end_run L newts t es s = Some u \<Longrightarrow> tp_ctx s \<Longrightarrow> length es + tls_work u \<le> tls_work s"
proof (induction es arbitrary: s)
  case (Cons e es)
  then obtain v where v: "tls_ending s e" "tls_step L newts t e s = Some v" "tls_end_run L newts t es v = Some u"
    by (auto split: if_splits option.splits)
  from Cons.IH [OF v(3)] tls_ending_less [OF v(2,1) Cons.prems(2)] show ?case by simp
qed simp

lemma tls_end_completes:
  assumes "tls_wf s" "tp_ctx s" "\<not> tp_panicked s"
  shows "\<exists>es u. tls_end_run L newts t es s = Some u \<and> tp_pc u = TlsReturned"
  using assms
proof (induction "tls_work s" arbitrary: s rule: less_induct)
  case less
  show ?case
  proof (cases "tp_pc s = TlsReturned")
    case True
    then show ?thesis by (intro exI [of _ "[]"] exI [of _ s]) simp
  next
    case False
    from tls_not_stuck [OF less.prems False] obtain e v where
      e: "tls_ending s e" "tls_step L newts t e s = Some v" by blast
    note l = tls_ending_less [OF e(2,1) less.prems(2)]
    from less.hyps [of v] l tls_wf_step [OF e(2) less.prems(1)] less.prems(3) obtain es u where
      "tls_end_run L newts t es v = Some u" "tp_pc u = TlsReturned" by blast
    with e show ?thesis by (intro exI [of _ "e # es"] exI [of _ u]) simp
  qed
qed


section \<open>The exit diagnostics\<close>

text \<open>
  An \<open>ecapture\<close> that is not allowed to attach says so on stderr and exits.  \<open>cmd.Wait\<close> runs
  beside the parsers and closes the pipes when it has seen the exit; the main goroutine then
  cancels the parsers before it reads the exit buffer.  If the stderr parser had not read
  the line yet, the worker reports the pod's TLS as unsupported instead of denied.
\<close>

definition denied_line :: string where
  "denied_line = ''couldn't load bpf: operation not permitted''"

definition denied_target :: tls_target where
  "denied_target = \<lparr>tt_pod = None, tt_pid = 7, tt_mode = TLSModeEBPF, tt_session_id = ''s1''\<rparr>"

definition denied_run :: "tls_event_step list" where
  "denied_run = [TpWrite Stderr denied_line, TpExit (Some ''exit status 1''), TpWaited, TmExit,
     TpEof Stdout, TpEof Stderr, TpEnd Stdout, TpEnd Stderr, TpCloseParsed, TmReturn]"

definition read_run :: "tls_event_step list" where
  "read_run = [TpWrite Stderr denied_line, TpExit (Some ''exit status 1''), TpFill Stderr 1, TpWaited, TmExit,
     TpEof Stdout, TpScan Stderr 0, TpEnd Stdout, TpCloseParsed, TmReturn]"

lemma exit_diagnosis_lost:
  "map_option (\<lambda>s. wk_statuses (tp_worker s)) (tls_run L newts denied_target denied_run tls_boot) =
     Some [(Tls_Unsupported, ''exit status 1'')]"
  "map_option (\<lambda>s. wk_statuses (tp_worker s)) (tls_run L newts denied_target read_run tls_boot) =
     Some [(Tls_Denied, denied_line)]"
proof -
  have lost: "exit_status TLSModeEBPF (Some ''exit status 1'') [] = (Tls_Unsupported, ''exit status 1'')"
    by (simp add: exit_status_def) code_simp
  have told: "exit_status TLSModeEBPF (Some ''exit status 1'') (denied_line @ [newline]) = (Tls_Denied, denied_line)"
    by (simp add: exit_status_def denied_line_def) code_simp
  have tee: "lb_buf (limited_write (denied_line @ [newline]) \<lparr>lb_max = stderr_tail, lb_buf = []\<rparr>) = denied_line @ [newline]"
    by (simp add: limited_write_def stderr_tail_def denied_line_def)
  show "map_option (\<lambda>s. wk_statuses (tp_worker s)) (tls_run L newts denied_target denied_run tls_boot) =
     Some [(Tls_Unsupported, ''exit status 1'')]"
    by (simp add: denied_run_def tls_boot_def new_parser_def tls_step_def worker_init_def pipes_closed_def
        limited_string_def denied_target_def lost)
  show "map_option (\<lambda>s. wk_statuses (tp_worker s)) (tls_run L newts denied_target read_run tls_boot) =
     Some [(Tls_Denied, denied_line)]"
    by (simp add: read_run_def tls_boot_def new_parser_def tls_step_def worker_init_def pipes_closed_def
        limited_string_def denied_target_def told tee tee_lines_def parse_cancelled_def)
qed

section \<open>Witnesses\<close>

definition tls_demo_ts :: "int \<Rightarrow> timestamp" where
  "tls_demo_ts t = \<lparr>ts_time = t, ts_valid = True\<rparr>"

definition denied_state :: tls_proc where
  "denied_state = the (tls_run demo_parse_lib tls_demo_ts denied_target denied_run tls_boot)"

lemma denied_state_run:
  "tls_run demo_parse_lib tls_demo_ts denied_target denied_run tls_boot = Some denied_state"
  "tp_pc denied_state = TlsReturned"
  by (simp_all add: denied_state_def denied_run_def tls_boot_def new_parser_def tls_step_def worker_init_def pipes_closed_def)

theorem tls_worker_cleans_up_witness:
  "tp_child denied_state = ChildReaped \<and> parsers_ended denied_state"
  using tls_worker_cleans_up [OF denied_state_run] by blast


end
