(* ===== verification/Entry_Points.thy ===== *)
theory Entry_Points imports Stream_Merge Hub_Client Log_Handler Tls_Fake Tls_Process_Facts begin

text \<open>
  The two \<open>main\<close> functions and \<open>pkg/k8s/client.go\<close>.  A process is its exit code and, for the
  agent, the configuration its runner was started with; the CRI connection, the runner and
  client-go are arguments.
\<close>

section \<open>The Kubernetes client\<close>

text \<open>The explicit path, the context and the namespace \<open>New\<close> hands to the loading rules.\<close>

record kube_loading =
  kl_explicit_path :: "string option"
  kl_current_context :: "string option"
  kl_namespace :: "string option"

datatype kube_error = ResolveConfig string | ResolveNamespace string | BuildClient string

record kube_client =
  kcl_namespace :: string
  kcl_user_agent :: string

definition nonempty :: "string \<Rightarrow> string option" where
  "nonempty s = (if s = [] then None else Some s)"

definition kube_loading_of :: "kube_client_config \<Rightarrow> kube_loading" where
  "kube_loading_of c =
     \<lparr>kl_explicit_path = nonempty (kc_kubeconfig c), kl_current_context = nonempty (kc_context c),
      kl_namespace = nonempty (kc_namespace c)\<rparr>"

text \<open>
  \<open>resolve\<close> is \<open>ClientConfig\<close> (the user agent of the resolved configuration), \<open>namespace\<close> is
  \<open>Namespace\<close>, \<open>build\<close> is \<open>kubernetes.NewForConfig\<close> on the user agent.
\<close>

definition new_kube_client ::
    "(kube_loading \<Rightarrow> string + string) \<Rightarrow> (kube_loading \<Rightarrow> string + string) \<Rightarrow> (string \<Rightarrow> string option)
      \<Rightarrow> kube_client_config \<Rightarrow> kube_error + kube_client" where
  "new_kube_client resolve namespace build c =
     (case resolve (kube_loading_of c) of
        Inl e \<Rightarrow> Inl (ResolveConfig e)
      | Inr agent0 \<Rightarrow>
          let agent = (if kc_user_agent c \<noteq> [] then kc_user_agent c else agent0) in
          case namespace (kube_loading_of c) of
            Inl e \<Rightarrow> Inl (ResolveNamespace e)
          | Inr ns \<Rightarrow>
              (case build agent of
                 Some e \<Rightarrow> Inl (BuildClient e)
               | None \<Rightarrow> Inr \<lparr>kcl_namespace = ns, kcl_user_agent = agent\<rparr>))"

section \<open>k8s-sniffer\<close>

text \<open>
  The root command resolves the log level and installs the logger before it runs the subcommand;
  \<open>levels\<close> are the \<open>--log-level\<close> flags from the command outwards, as \<open>logLevelFlag\<close> looks them
  up.
\<close>

definition root_pre_run :: "'w \<Rightarrow> string option list \<Rightarrow> string \<Rightarrow> level_error + 'w slog_handler" where
  "root_pre_run stderr levels env =
     (case resolve_level (log_level_from_command levels) env of
        Inl e \<Rightarrow> Inl e
      | Inr level \<Rightarrow> Inr (log_init stderr \<lparr>lc_level = Some level, lc_writer = None, lc_json = False\<rparr>))"

definition cli_main :: "'w \<Rightarrow> string option list \<Rightarrow> string \<Rightarrow> ('w slog_handler \<Rightarrow> 'e option) \<Rightarrow> nat" where
  "cli_main stderr levels env run =
     (case root_pre_run stderr levels env of
        Inl e \<Rightarrow> 1
      | Inr logger \<Rightarrow> (case run logger of Some e \<Rightarrow> 1 | None \<Rightarrow> 0))"

section \<open>k8s-sniffer-agent\<close>

definition agent_logger :: "'w \<Rightarrow> string \<Rightarrow> string \<Rightarrow> level_error + 'w slog_handler" where
  "agent_logger stderr logLevel env =
     (case resolve_level logLevel env of
        Inl e \<Rightarrow> Inl e
      | Inr level \<Rightarrow> Inr (log_init stderr \<lparr>lc_level = Some level, lc_writer = None, lc_json = False\<rparr>))"

definition agent_main ::
    "bool \<Rightarrow> string \<Rightarrow> (string \<Rightarrow> string) \<Rightarrow> (string \<Rightarrow> string option) \<Rightarrow> (config \<Rightarrow> go_err option)
      \<Rightarrow> nat \<times> config option" where
  "agent_main showVersion logLevel getenv newResolver run =
     (if showVersion then (0, None)
      else case agent_logger () logLevel (getenv EnvAgentLogLevel) of
        Inl e \<Rightarrow> (2, None)
      | Inr logger \<Rightarrow>
          (case config_from_env getenv of
             (cfg, errs) \<Rightarrow>
               if errs \<noteq> [] then (2, None)
               else case newResolver (''unix://'' @ cf_cri_socket cfg) of
                 Some e \<Rightarrow> (1, None)
               | None \<Rightarrow>
                   (case run cfg of
                      Some e \<Rightarrow> if \<not> ge_canceled e then (1, Some cfg) else (0, Some cfg)
                    | None \<Rightarrow> (0, Some cfg))))"

lemma validated_log_level:
  assumes "agent_config_validate L c = []" "ac_log_level c \<noteq> []"
  shows "\<exists>l. parse_level (ac_log_level c) = Inr l"
  using assms by (auto simp: agent_config_validate_def split: if_splits sum.splits)

lemma manifest_log_level:
  assumes "env_delivered getenv podName (manifest_env sid str node c)" "ac_log_level c \<noteq> []"
  shows "getenv EnvAgentLogLevel = ac_log_level c"
  using assms by (simp add: env_delivered_def manifest_env_def env_value_def)

text \<open>
  The log level of the hub's configuration is the one the agent process logs at: the handler
  lets debug records (level -4) through exactly when the configuration says so.
\<close>

lemma agent_logs_at_configured_level:
  assumes "pod_manifest L ref sid str node cfg0 dl = Inr pod"
    and "env_delivered getenv podName (ct_env (hd (kp_containers pod)))"
    and "ac_log_level (agent_config_with_defaults ref cfg0) \<noteq> []"
  shows "\<exists>h level. parse_level (ac_log_level (agent_config_with_defaults ref cfg0)) = Inr level \<and>
    agent_logger stderr [] (getenv EnvAgentLogLevel) = Inr h \<and> sh_writer h = stderr \<and>
    (sh_min h \<le> - 4 \<longleftrightarrow> level = LevelDebug)"
proof -
  let ?c = "agent_config_with_defaults ref cfg0"
  have "agent_config_validate L ?c = []" using pod_manifest_InrD [OF assms(1)] by auto
  then obtain l where "parse_level (ac_log_level ?c) = Inr l" using validated_log_level assms(3) by blast
  moreover have "getenv EnvAgentLogLevel = ac_log_level ?c"
    using manifest_log_level [of getenv podName sid str node ?c] assms(2,3) pod_manifest_env [OF assms(1)] by simp
  ultimately show ?thesis
    by (simp add: agent_logger_def resolve_level_def log_init_def to_slog_level_def)
qed

text \<open>
  C16. The agent pod the hub creates starts its runner: with the environment of the manifest the
  agent process never exits over its configuration or its log level, it dials the CRI socket of
  the hub's configuration, and once that works it runs with the session, node and stream the pod
  was created for.
\<close>

theorem agent_pod_starts_runner:
  assumes "pod_manifest L ref sid str node cfg0 dl = Inr pod"
    and "env_delivered getenv podName (ct_env (hd (kp_containers pod)))" and "podName \<noteq> []"
    and "ac_log_level (agent_config_with_defaults ref cfg0) \<noteq> [] \<or> getenv EnvAgentLogLevel = []"
  shows "case agent_main False [] getenv newResolver run of
      (code, None) \<Rightarrow> code = 1 \<and>
        newResolver (''unix://'' @ ac_cri_socket (agent_config_with_defaults ref cfg0)) \<noteq> None
    | (code, Some cfg) \<Rightarrow> code \<le> 1 \<and> cf_session_id cfg = sid \<and> cf_node cfg = node \<and>
        cf_stream_id cfg = str \<and> cf_agent_pod cfg = podName"
proof -
  let ?c = "agent_config_with_defaults ref cfg0"
  have ok: "agent_config_validate L ?c = []"
    using pod_manifest_InrD [OF assms(1)] by auto
  have env: "ct_env (hd (kp_containers pod)) = manifest_env sid str node ?c"
    by (rule pod_manifest_env [OF assms(1)])
  have "\<exists>l. parse_level (getenv EnvAgentLogLevel) = Inr l"
  proof (cases "ac_log_level ?c = []")
    case True
    then show ?thesis using assms(4) parse_level_empty [of "[]"] by auto
  next
    case False
    then show ?thesis
      using validated_log_level [OF ok] manifest_log_level [of getenv podName sid str node ?c] assms(2) env
      by simp
  qed
  then obtain l where "resolve_level [] (getenv EnvAgentLogLevel) = Inr l"
    by (auto simp: resolve_level_def)
  with manifest_env_configures [OF assms(1-3)] show ?thesis
    by (auto simp: agent_main_def agent_logger_def split: option.splits)
qed

theorem agent_pod_starts_runner_witness:
  "agent_main False [] demo_getenv (\<lambda>_. Some ''refused'') (\<lambda>_. None) = (1, None)"
proof -
  have env: "ct_env (hd (kp_containers demo_manifest)) = manifest_env ''s1'' ''str1'' ''n1'' demo_agent_config"
    using pod_manifest_env [OF demo_manifest_ok] by (simp add: demo_agent_config_defaults)
  have e: "env_delivered demo_getenv ''k8s-sniffer-x'' (ct_env (hd (kp_containers demo_manifest)))"
    by (simp add: env_delivered_def demo_getenv_def env manifest_env_def env_value_def env_name_defs)
  have "ac_log_level (agent_config_with_defaults ref demo_agent_config) \<noteq> []" for ref
    by (simp add: agent_config_with_defaults_def demo_agent_config_def)
  then have l: "ac_log_level (agent_config_with_defaults ref demo_agent_config) \<noteq> [] \<or>
      demo_getenv EnvAgentLogLevel = []" for ref by blast
  have "snd (agent_main False [] demo_getenv (\<lambda>_. Some ''refused'') (\<lambda>_. None)) = None"
    by (auto simp: agent_main_def split: sum.splits prod.splits)
  with agent_pod_starts_runner [OF demo_manifest_ok e _ l, of "\<lambda>_. Some ''refused''" "\<lambda>_. None"]
  show ?thesis by (cases "agent_main False [] demo_getenv (\<lambda>_. Some ''refused'') (\<lambda>_. None)") simp
qed

end
