(* ===== verification/Spec2Isabelle.thy ===== *)
theory Spec2Isabelle
  imports Entry_Points
begin

text \<open>
  Verification of k8s-sniffer.

  The program.  \<open>k8s-sniffer\<close> captures the traffic of Kubernetes pods.  The command line
  (\<open>pkg/cli\<close>) runs a hub in its own process (\<open>pkg/hub\<close>); the hub finds the pods that match the
  patterns (\<open>pkg/hub/discovery\<close>), creates one agent pod per node (\<open>pkg/hub/agent\<close>) and follows
  the matching pods while the session runs (\<open>pkg/hub/watch.go\<close>).  Each agent (\<open>pkg/agent\<close>)
  receives an assignment, resolves the network namespace of every target, runs \<open>tcpdump\<close> in it
  and \<open>ecapture\<close> beside it, and streams batches of records to the hub.  The hub checks and
  publishes the records to its subscribers; the command line subscribes and writes PCAP or PCAPng
  and JSON Lines files (\<open>pkg/sink\<close>).  Everything is Go; paths here are below \<open>src/\<close>.

  The theories, from the bottom up.

  Shared: \<open>Go_Prelude\<close> (strings as byte lists, UTF-8, maps, channels, the interfaces
  \<open>invariant_system\<close> and \<open>defaulting\<close>), \<open>Go_Text\<close>, \<open>Go_Path\<close> and \<open>Go_Encoding\<close> (the functions of
  \<open>strconv\<close>, \<open>fmt\<close>, \<open>bufio\<close>, \<open>filepath\<close>, \<open>encoding/base64\<close>, \<open>encoding/json\<close> and \<open>time\<close> the source
  calls), \<open>Sniffer_Api\<close> (the messages of \<open>api/sniffer/v1\<close>), \<open>Log_Level\<close> and \<open>Log_Handler\<close>
  (\<open>pkg/log/log.go\<close>: the level, and which handler a component's logger writes through).

  Hub: \<open>Capture_Spec\<close> (\<open>pkg/capture\<close>: specification, sinks, agent configuration), \<open>Kube\<close> (what the
  hub uses of the Kubernetes API), \<open>Discovery\<close> (matching and grouping), \<open>Agent_Manifest\<close> and
  \<open>Agent_Lifecycle\<close> (agent pods), \<open>Fanout\<close>, \<open>Event_Log\<close> (\<open>events.go\<close>) and \<open>Packet_Log\<close>
  (\<open>packets.go\<close>), \<open>Hub_Types\<close>, \<open>Session\<close> and \<open>Session_Facts\<close> (\<open>session.go\<close>), \<open>Hub_Watch\<close>
  (\<open>watch.go\<close>), \<open>Hub_Server\<close> and \<open>Server_Facts\<close> (\<open>server.go\<close>, \<open>hub.go\<close>).

  Agent: \<open>Agent_Config\<close> (\<open>config.go\<close>), \<open>Bounded_Buffer\<close> (the contract of the two buffers that keep
  a child's stderr), \<open>Wire_Capture\<close> (\<open>pkg/agent/capture\<close>), \<open>Netns_Resolver\<close> (\<open>pkg/agent/netns\<close>),
  \<open>Tls_Parse\<close>, \<open>Tls_Proc\<close>, \<open>Tls_Worker\<close> and \<open>Tls_Fake\<close> (\<open>pkg/agent/tlsworker\<close>: parsing,
  processes, the worker, its test double), \<open>Tls_Process\<close> and \<open>Tls_Process_Facts\<close> (the goroutines
  around one \<open>ecapture\<close> process, \<open>ecapture.go\<close>), \<open>Agent_Runner\<close> and \<open>Agent_Facts\<close> (the functions of
  \<open>runner.go\<close>), \<open>Agent_Run\<close>, \<open>Agent_Run_Facts\<close> and \<open>Agent_Teardown\<close> (the goroutines and channels of
  \<open>Run\<close>), \<open>Hub_Client\<close> (\<open>hubclient/client.go\<close>: dialling the hub and its calls).

  Output and processes: \<open>Sink_Pcap\<close> and \<open>Sink_Jsonl\<close> (\<open>pkg/sink\<close>), \<open>Cli\<close> and \<open>Cli_Facts\<close>
  (\<open>pkg/cli\<close>), \<open>Entry_Points\<close> (both \<open>main.go\<close> and \<open>pkg/k8s/client.go\<close>).

  Across components: \<open>Agent_Hub\<close> puts the agent and the hub together (manifest and configuration,
  assignment and its check, the sent stream and its ingestion, reports), \<open>Cli_Facts\<close> the command
  line with the hub and the sinks, \<open>End_To_End\<close> all three (the batches of an agent's run, the two
  packet handlers of the hub interleaved by \<open>relay_step\<close>, the files the command line writes),
  \<open>Stream_Merge\<close> any number of agents streaming to any number of sessions under everything else
  the hub does, \<open>Entry_Points\<close> the manifest with the agent process and its logger.

  How state and operations correspond.  A struct is a record with the source's fields, an
  enumeration whose unknown values matter a 32-bit word, a Go map an association list with distinct
  keys; a function that may fail returns a sum whose left side is a datatype with one constructor
  per error of the source.  Code that holds a lock for its whole body is one step.  Where the
  source releases a lock or shares a channel, the interleavings are a step relation:
  \<open>el_step\<close> (append, subscribe and unsubscribe of the event log), \<open>pl_step\<close> (publishers,
  subscribers and the closer of the packet log), \<open>run_event_step\<close> (the main loop of the agent's
  \<open>Run\<close>, its sender, its watcher and one goroutine per capture, over the channel of batches, the
  one of updates and the one of results), \<open>tls_step\<close> (the reader, the two drains, the waiter and
  the caller around an \<open>ecapture\<close> process), \<open>worker_next\<close> (the TLS worker), \<open>feed_step\<close> (all
  \<open>StreamCapture\<close> handlers, one subscriber and, as \<open>hub_other\<close>, the rest of the hub; a publish is
  one step there, its own interleaving is in \<open>pl_step\<close>), and the program counters \<open>targets_pc\<close> and \<open>capture_pc\<close> of the two streaming handlers.  A \<open>select\<close> is a function of
  the list of what it receives (\<open>watch_input\<close>, \<open>worker_input\<close>, \<open>tls_input\<close>, \<open>cli_event\<close>), so a
  theorem about all lists is about all orders.  \<open>RunCapture\<close> is a function to its list of effects,
  deferred calls included.

  Parameters.  Kubernetes, the CRI service, regular expressions, \<open>url.Parse\<close>, the JSON decoder,
  \<open>pcapgo\<close>, processes, the file system, gRPC and the clocks are arguments.  Laws about them appear
  as named hypotheses only where a theorem needs them (\<open>ng_documented\<close>, \<open>classic_documented\<close>), and
  a witness instantiates them.

  What the lemmas show.  Packet and event log: no panic, no lost wake-up, delivery, the barrier of
  closing; and that append can send on a closed channel when an unsubscribe intervenes.  Session:
  exactly which batches are accepted, what a commit counts, exclusive claims.  Server: the outcomes
  of creating and stopping a session, that stopping can be retried, that no assignment is sent
  before the session runs and a subscriber exists, that reports are authorised.  Watch: what
  reconciling does to agents and targets and that it keeps the session's invariant.  Agent: the
  captures after an assignment, the frames handed over and their numbering, the stage of every
  failure, the reassembly of TLS records (the parser equals the definition \<open>block_records\<close>, which
  cuts the output into blocks), the consistency of its reports.  The agent's goroutines:
  their state keeps its type on every interleaving, the updates applied are those received and in
  that order, every batch the sender accepted is sent in order, once the context is done every
  run can return and takes a bounded number of steps to do so, and a capture sends on the closed
  channel of batches, which panics, only if an assignment update overlaps the teardown
  (\<open>detach_race_panics\<close> is such a run).  The TLS worker's goroutines: what they send and report is
  what the event loop does, a worker that returned has waited for its child and both parsers,
  one whose context has ended can return, and its diagnosis of an exit may be lost when
  \<open>cmd.Wait\<close> closes the pipes first.  End to end: in every interleaving of an agent's
  goroutines and of the hub's packet handlers, the frames of assigned pods the agent sent are
  the contents of the PCAPng file, while the session's targets do not change and nobody stops it.
  Without that restriction, and with any number of agents (\<open>Stream_Merge\<close>): a subscriber gets the
  published records in order and each once, each agent's in the order it sent them, only those of
  assigned pods, and none that was published is lost when the session is stopped.  Sinks: both files as
  functions of the records, the recovery of every payload.  Command line: the reading of patterns,
  the order of effects on every path, one stop per session, complete tear-down.

  Bounds and fuel.  Polling loops of the source have a time limit and an interval; the model gives
  them the number of polls that fit (\<open>polls_within\<close>, \<open>wait_capture_streams_idle\<close>), which is the most
  the source makes, and what each poll sees is an argument, so \<open>flush_grace_ends\<close> is a statement
  about every run.  The reconnecting watch loop and the receiving loops run as long as their input
  lists, every finite one of which is covered.  Counters are 64-bit words and wrap around; sequence
  numbers and snaplens keep their width.

  \<open>teardown_work\<close>, \<open>tls_work\<close> and \<open>relay_left\<close> are measures that every step of a run that is
  being ended (every step of the relay) decreases, so the number of steps to the end is bounded
  by the state and no fuel is used there.

  Not modelled, and why.  The text of log lines and the encodings of \<open>slog\<close> (\<open>pkg/log/handler.go\<close>
  is modelled up to the record it hands on): no effect on the program's state.  The generated gRPC
  code: transport; its calls appear as the arguments and results of the handlers.  Flag parsing and
  signal delivery: cobra and the runtime; their results are arguments.  Deadlines of single calls:
  a deadline that passes is one of the errors the call may return.  Two files hold only a package
  comment (\<open>pkg/hub/doc.go\<close>, \<open>pkg/sink/doc.go\<close>).
\<close>

end
